(* ===== verification/Gateway_Prelude.thy ===== *)
theory Gateway_Prelude
  imports Main "HOL-Library.Sublist"
begin

text \<open>
  Shared vocabulary of the development: the types that stand for Go's and PostgreSQL's basic data,
  the error values the components return, machine arithmetic at 64 bits, the collections of
  simplification rules the components add to, and the generic lemmas on lists and options that
  their proofs share.

  A Go \<^verbatim>\<open>string\<close> and a Go \<^verbatim>\<open>[]byte\<close> are both a list of bytes here (an Isabelle \<open>char\<close> has 8 bits).
  A \<^verbatim>\<open>time.Duration\<close> is an integer number of nanoseconds, a \<^verbatim>\<open>time.Time\<close> the number of nanoseconds since
  Go's zero time (so \<^verbatim>\<open>IsZero\<close> is equality with 0), a PostgreSQL timestamp a number of microseconds.
\<close>

named_theorems sql_simps \<open>computing with tables: lookups after inserts, updates and deletes\<close>
named_theorems pk_intros \<open>operations that keep the primary key of a table unique\<close>
named_theorems row_frame \<open>what an operation leaves unchanged\<close>

type_synonym bytes = string
type_synonym go_duration = int
type_synonym go_time = int
type_synonym pg_time = int

subsection \<open>Errors as values\<close>

text \<open>
  The sentinel errors of \<^verbatim>\<open>internal/repository/postgres.go\<close>, \<^verbatim>\<open>client/client.go\<close> and \<^verbatim>\<open>pgx\<close>, the errors made
  with \<^verbatim>\<open>errors.New\<close> (their text), a violated table constraint, a failed JSON conversion and a failed
  call of PostgreSQL or NATS.
\<close>

datatype go_error =
    ErrNoRows
  | ErrRequestConflict
  | ErrNoPermit
  | ErrOperationNotFound
  | ErrText string
  | ErrConstraint string
  | ErrJSON
  | ErrUnavailable
  | ErrContextDone

type_synonym 'a go_result = "go_error + 'a"

definition is_ok :: "'a go_result \<Rightarrow> bool" where
  "is_ok r = (case r of Inl _ \<Rightarrow> False | Inr _ \<Rightarrow> True)"

lemma is_ok_simps [simp]: "is_ok (Inl e) = False" "is_ok (Inr a) = True"
  by (simp_all add: is_ok_def)

text \<open>\<^verbatim>\<open>if err != nil { return \<dots>, err }\<close> after a call\<close>

definition go_try :: "'a go_result \<Rightarrow> ('a \<Rightarrow> 'b go_result) \<Rightarrow> 'b go_result" where
  "go_try r f = (case r of Inl e \<Rightarrow> Inl e | Inr a \<Rightarrow> f a)"

definition check :: "bool \<Rightarrow> go_error \<Rightarrow> 'b go_result \<Rightarrow> 'b go_result" where
  "check ok e r = (if ok then r else Inl e)"

lemma go_try_eq_Inr: "go_try r f = Inr b \<longleftrightarrow> (\<exists>a. r = Inr a \<and> f a = Inr b)"
  by (cases r) (simp_all add: go_try_def)

lemma check_eq_Inr: "check ok e r = Inr b \<longleftrightarrow> ok \<and> r = Inr b"
  by (simp add: check_def)

lemma is_ok_iff: "is_ok r \<longleftrightarrow> (\<exists>a. r = Inr a)"
  by (cases r) auto

subsection \<open>Signed 64-bit arithmetic\<close>

definition in_int64 :: "int \<Rightarrow> bool" where
  "in_int64 n \<longleftrightarrow> - (2 ^ 63) \<le> n \<and> n < 2 ^ 63"

definition wrap64 :: "int \<Rightarrow> int" where
  "wrap64 n = (n + 2 ^ 63) mod 2 ^ 64 - 2 ^ 63"

text \<open>Go's integer division truncates towards zero.\<close>

definition quot :: "int \<Rightarrow> int \<Rightarrow> int" where
  "quot a b = sgn a * sgn b * (\<bar>a\<bar> div \<bar>b\<bar>)"

lemma wrap64_range: "in_int64 (wrap64 n)"
proof -
  have "0 \<le> (n + 2 ^ 63) mod 2 ^ 64" "(n + 2 ^ 63) mod 2 ^ 64 < (2 ^ 64 :: int)"
    by simp_all
  then show ?thesis by (simp add: wrap64_def in_int64_def)
qed

lemma wrap64_id [simp]: "in_int64 n \<Longrightarrow> wrap64 n = n"
  by (simp add: wrap64_def in_int64_def)

lemma quot_2_nonneg: "0 \<le> a \<Longrightarrow> quot a 2 = a div 2"
  by (cases "a = 0") (simp_all add: quot_def)

lemma quot_2_neg: "a < 0 \<Longrightarrow> quot a 2 = - ((- a) div 2)"
  by (simp add: quot_def)

subsection \<open>Lists and options\<close>

lemma find_Some_conv: "find p xs = Some x \<Longrightarrow> x \<in> set xs \<and> p x"
  by (auto simp: find_Some_iff in_set_conv_nth)

lemma find_append: "find p (xs @ ys) = (case find p xs of None \<Rightarrow> find p ys | Some x \<Rightarrow> Some x)"
  by (induction xs) auto

lemma find_map: "find p (map f xs) = map_option f (find (p \<circ> f) xs)"
  by (induction xs) auto

lemma find_cong_set: "(\<And>x. x \<in> set xs \<Longrightarrow> p x = q x) \<Longrightarrow> find p xs = find q xs"
  by (induction xs) auto

lemma distinct_map_eq_elem:
  "distinct (map f xs) \<Longrightarrow> x \<in> set xs \<Longrightarrow> y \<in> set xs \<Longrightarrow> f x = f y \<Longrightarrow> x = y"
  by (auto simp: distinct_map dest: inj_onD)

lemma distinct_map_filter_key: "distinct (map f xs) \<Longrightarrow> distinct (map f (filter p xs))"
  by (induction xs) auto

lemma length_filter_le_1:
  "distinct (map f xs) \<Longrightarrow> (\<And>x. x \<in> set xs \<Longrightarrow> p x \<Longrightarrow> f x = k) \<Longrightarrow> length (filter p xs) \<le> 1"
  by (induction xs) (auto simp: filter_empty_conv image_iff)

end
