(* ===== verification/Go_Strings.thy ===== *)
theory Go_Strings
  imports Gateway_Prelude
begin

text \<open>
  What the program uses of Go's \<^verbatim>\<open>strings\<close>, \<^verbatim>\<open>strconv\<close>, \<^verbatim>\<open>encoding/hex\<close>, \<^verbatim>\<open>encoding/base64\<close> and
  \<^verbatim>\<open>unicode/utf8\<close> packages, on byte strings. Case conversion and white space are those of ASCII: the
  program applies them to header names, host names and configuration values.
\<close>

definition byte_of :: "nat \<Rightarrow> char" where
  "byte_of n = char_of (n mod 256)"

definition newline :: string where
  "newline = [byte_of 10]"

subsection \<open>strings\<close>

definition to_lower_char :: "char \<Rightarrow> char" where
  "to_lower_char c =
     (let n = of_char c :: nat in if 65 \<le> n \<and> n \<le> 90 then char_of (n + 32) else c)"

definition ToLower :: "string \<Rightarrow> string" where
  "ToLower s = map to_lower_char s"

definition ContainsAny :: "string \<Rightarrow> string \<Rightarrow> bool" where
  "ContainsAny s cs = list_ex (\<lambda>c. List.member cs c) s"

definition is_space :: "char \<Rightarrow> bool" where
  "is_space c = (let n = of_char c :: nat in n = 32 \<or> (9 \<le> n \<and> n \<le> 13))"

definition TrimSpace :: "string \<Rightarrow> string" where
  "TrimSpace s = rev (dropWhile is_space (rev (dropWhile is_space s)))"

text \<open>\<^verbatim>\<open>strings.TrimRight(s, "/")\<close>\<close>

definition TrimRight :: "string \<Rightarrow> string \<Rightarrow> string" where
  "TrimRight s cs = rev (dropWhile (\<lambda>c. List.member cs c) (rev s))"

text \<open>\<^verbatim>\<open>strings.Split\<close> and \<^verbatim>\<open>strings.SplitN(s, sep, 2)\<close> for a separator of one byte.\<close>

fun Split :: "string \<Rightarrow> char \<Rightarrow> string list" where
  "Split [] c = [[]]"
| "Split (x # xs) c =
     (if x = c then [] # Split xs c
      else case Split xs c of [] \<Rightarrow> [[x]] | w # ws \<Rightarrow> (x # w) # ws)"

definition SplitN2 :: "string \<Rightarrow> char \<Rightarrow> string list" where
  "SplitN2 s c =
     (if List.member s c
      then [takeWhile (\<lambda>x. x \<noteq> c) s, tl (dropWhile (\<lambda>x. x \<noteq> c) s)]
      else [s])"

definition Contains :: "string \<Rightarrow> string \<Rightarrow> bool" where
  "Contains s t = list_ex (\<lambda>u. prefix t u) (suffixes s)"

lemma to_lower_char_idem [simp]: "to_lower_char (to_lower_char c) = to_lower_char c"
proof -
  have "\<And>n :: nat. 65 \<le> n \<Longrightarrow> n \<le> 90 \<Longrightarrow> (of_char (char_of (n + 32) :: char) :: nat) = n + 32"
    by simp
  then show ?thesis by (auto simp: to_lower_char_def Let_def)
qed

lemma ToLower_idem [simp]: "ToLower (ToLower s) = ToLower s"
  by (simp add: ToLower_def)

lemma ToLower_append: "ToLower (s @ t) = ToLower s @ ToLower t"
  by (simp add: ToLower_def)

lemma ContainsAny_iff: "ContainsAny s cs \<longleftrightarrow> (\<exists>c \<in> set s. c \<in> set cs)"
  by (auto simp: ContainsAny_def list_ex_iff)

lemma Split_nonempty: "Split s c \<noteq> []"
  by (cases s) (auto split: list.split)

text \<open>Joining the parts with the separator gives the string back, and no part contains it.\<close>

lemma Split_join: "concat (map (\<lambda>w. w @ [c]) (Split s c)) = s @ [c]"
proof (induction s c rule: Split.induct)
  case (2 x xs c)
  then show ?case
    using Split_nonempty [of xs c] by (auto split: list.split)
qed simp

lemma Split_parts: "w \<in> set (Split s c) \<Longrightarrow> c \<notin> set w"
proof (induction s c arbitrary: w rule: Split.induct)
  case (2 x xs c)
  then show ?case
    by (cases "Split xs c") (auto split: if_splits)
qed simp

lemma SplitN2_join:
  "SplitN2 s c = [a, b] \<Longrightarrow> s = a @ c # b \<and> c \<notin> set a"
proof -
  assume sp: "SplitN2 s c = [a, b]"
  then have mem: "c \<in> set s" and a: "a = takeWhile (\<lambda>x. x \<noteq> c) s"
    and b: "b = tl (dropWhile (\<lambda>x. x \<noteq> c) s)"
    by (auto simp: SplitN2_def split: if_splits)
  from mem have "dropWhile (\<lambda>x. x \<noteq> c) s \<noteq> []"
    by (auto simp: dropWhile_eq_Nil_conv)
  then have "dropWhile (\<lambda>x. x \<noteq> c) s = c # b"
    using hd_dropWhile [of "\<lambda>x. x \<noteq> c" s] b by (cases "dropWhile (\<lambda>x. x \<noteq> c) s") auto
  moreover have "c \<notin> set a"
    using a by (auto dest: set_takeWhileD)
  ultimately show ?thesis
    using a takeWhile_dropWhile_id [of "\<lambda>x. x \<noteq> c" s] by simp
qed

subsection \<open>strconv\<close>

definition digit_val :: "char \<Rightarrow> nat option" where
  "digit_val c = (let n = of_char c :: nat in if 48 \<le> n \<and> n \<le> 57 then Some (n - 48) else None)"

fun parse_digits :: "nat \<Rightarrow> string \<Rightarrow> nat option" where
  "parse_digits acc [] = Some acc"
| "parse_digits acc (c # cs) =
     (case digit_val c of None \<Rightarrow> None | Some d \<Rightarrow> parse_digits (10 * acc + d) cs)"

definition parse_uint :: "string \<Rightarrow> nat option" where
  "parse_uint s = (if s = [] then None else parse_digits 0 s)"

text \<open>\<^verbatim>\<open>strconv.ParseInt(s, 10, 64)\<close> and, on a 64-bit machine, \<^verbatim>\<open>strconv.Atoi\<close>.\<close>

definition ParseInt :: "string \<Rightarrow> int option" where
  "ParseInt s =
     (case s of
        [] \<Rightarrow> None
      | c # cs \<Rightarrow>
          let neg = (c = CHR ''-'');
              body = (if neg \<or> c = CHR ''+'' then cs else s)
          in case parse_uint body of
               None \<Rightarrow> None
             | Some n \<Rightarrow> let v = (if neg then - int n else int n)
                         in if in_int64 v then Some v else None)"

fun decimal :: "nat \<Rightarrow> string" where
  "decimal n = (if n < 10 then [byte_of (48 + n)] else decimal (n div 10) @ [byte_of (48 + n mod 10)])"

declare decimal.simps [simp del]

text \<open>\<^verbatim>\<open>strconv.Itoa\<close> and \<^verbatim>\<open>strconv.FormatInt(n, 10)\<close>\<close>

definition FormatInt :: "int \<Rightarrow> string" where
  "FormatInt n = (if n < 0 then CHR ''-'' # decimal (nat (- n)) else decimal (nat n))"

lemma byte_of_code [simp]: "n < 256 \<Longrightarrow> (of_char (byte_of n) :: nat) = n"
  by (simp add: byte_of_def)

lemma digit_val_byte_of [simp]: "d < 10 \<Longrightarrow> digit_val (byte_of (48 + d)) = Some d"
  by (simp add: digit_val_def)

lemma parse_digits_append:
  "parse_digits acc (xs @ ys) = Option.bind (parse_digits acc xs) (\<lambda>a. parse_digits a ys)"
  by (induction acc xs rule: parse_digits.induct) (auto split: option.split)

lemma decimal_nonempty: "decimal n \<noteq> []"
  by (subst decimal.simps) simp

lemma decimal_digits: "c \<in> set (decimal n) \<Longrightarrow> \<exists>d < 10. c = byte_of (48 + d)"
proof (induction n rule: decimal.induct)
  case (1 n)
  from "1.prems" consider
      "n < 10" "c = byte_of (48 + n)"
    | "\<not> n < 10" "c \<in> set (decimal (n div 10))"
    | "\<not> n < 10" "c = byte_of (48 + n mod 10)"
    by (subst (asm) decimal.simps) (auto split: if_splits)
  then show ?case
  proof cases
    case 2
    with "1.IH" show ?thesis by blast
  next
    case 3
    then show ?thesis by (intro exI [of _ "n mod 10"]) simp
  qed blast
qed

lemma parse_digits_decimal: "parse_digits 0 (decimal n) = Some n"
proof (induction n rule: decimal.induct)
  case (1 n)
  show ?case
  proof (cases "n < 10")
    case True
    then show ?thesis by (simp add: decimal.simps [of n])
  next
    case False
    with "1.IH" show ?thesis
      by (simp add: decimal.simps [of n] parse_digits_append digit_val_byte_of [of "n mod 10"])
  qed
qed

lemma decimal_head: "decimal n = c # cs \<Longrightarrow> c \<noteq> CHR ''-'' \<and> c \<noteq> CHR ''+''"
proof -
  assume "decimal n = c # cs"
  then obtain d where d: "d < 10" and c: "c = byte_of (48 + d)"
    using decimal_digits [of c n] by auto
  have "digit_val c = Some d" using d c by simp
  then show ?thesis by (auto simp: digit_val_def)
qed

lemma ParseInt_FormatInt: "in_int64 n \<Longrightarrow> ParseInt (FormatInt n) = Some n"
proof (cases "n < 0")
  case True
  moreover assume "in_int64 n"
  ultimately show ?thesis
    by (simp add: FormatInt_def ParseInt_def parse_uint_def parse_digits_decimal decimal_nonempty Let_def)
next
  case False
  moreover assume "in_int64 n"
  moreover obtain c cs where d: "decimal (nat n) = c # cs"
    using decimal_nonempty [of "nat n"] by (cases "decimal (nat n)") auto
  moreover have "parse_digits 0 (c # cs) = Some (nat n)"
    using parse_digits_decimal [of "nat n"] d by simp
  ultimately show ?thesis
    using decimal_head [OF d]
    by (simp add: FormatInt_def ParseInt_def parse_uint_def Let_def del: parse_digits.simps)
qed

end
