(* ===== verification/Go_Encoding.thy ===== *)
theory Go_Encoding
  imports Go_Strings
begin

text \<open>
  The encodings the program puts on the wire: \<^verbatim>\<open>hex.EncodeToString\<close> (random identifiers, tokens),
  \<^verbatim>\<open>base64.RawURLEncoding\<close> (key identifiers), \<^verbatim>\<open>base64.RawStdEncoding\<close> (signatures and keys),
  \<^verbatim>\<open>base64.StdEncoding\<close> (a \<^verbatim>\<open>[]byte\<close> inside JSON), and the replacement of invalid UTF-8 that
  \<^verbatim>\<open>encoding/json\<close> performs on every string it writes. Each encoding comes with its round trip.
\<close>

subsection \<open>encoding/hex\<close>

definition hex_digit :: "nat \<Rightarrow> char" where
  "hex_digit n = (if n < 10 then byte_of (48 + n) else byte_of (87 + n))"

definition hex_EncodeToString :: "bytes \<Rightarrow> string" where
  "hex_EncodeToString bs =
     concat (map (\<lambda>b. [hex_digit (of_char b div 16), hex_digit (of_char b mod 16)]) bs)"

lemma length_hex [simp]: "length (hex_EncodeToString bs) = 2 * length bs"
  by (induction bs) (simp_all add: hex_EncodeToString_def)

lemma hex_digit_code: "n < 16 \<Longrightarrow> (of_char (hex_digit n) :: nat) = (if n < 10 then 48 + n else 87 + n)"
  by (simp add: hex_digit_def)

lemma hex_digit_inj: "m < 16 \<Longrightarrow> n < 16 \<Longrightarrow> hex_digit m = hex_digit n \<Longrightarrow> m = n"
proof -
  assume m: "m < 16" and n: "n < 16" and eq: "hex_digit m = hex_digit n"
  have "(if m < 10 then 48 + m else 87 + m) = (if n < 10 then 48 + n else 87 + n)"
    using hex_digit_code [OF m] hex_digit_code [OF n] eq by simp
  then show ?thesis by (simp split: if_splits)
qed

lemma byte_eq_iff_div_mod:
  "(of_char b :: nat) div 16 = of_char c div 16 \<Longrightarrow> (of_char b :: nat) mod 16 = of_char c mod 16 \<Longrightarrow> b = c"
proof -
  assume d: "(of_char b :: nat) div 16 = of_char c div 16" "(of_char b :: nat) mod 16 = of_char c mod 16"
  have "(of_char b :: nat) = 16 * (of_char b div 16) + of_char b mod 16" by simp
  also have "\<dots> = 16 * (of_char c div 16) + of_char c mod 16" by (simp only: d)
  finally have "(of_char b :: nat) = of_char c" by simp
  then show ?thesis by simp
qed

lemma of_char_less_256: "(of_char c :: nat) < 256"
  by simp

lemma byte_nibbles_less: "(of_char (b :: char) :: nat) div 16 < 16"
  using of_char_less_256 [of b] by linarith

lemma hex_EncodeToString_inj: "hex_EncodeToString as = hex_EncodeToString bs \<Longrightarrow> as = bs"
proof (induction as arbitrary: bs)
  case Nil
  then show ?case by (cases bs) (simp_all add: hex_EncodeToString_def)
next
  case (Cons a as)
  then obtain b bs' where bs: "bs = b # bs'"
    by (cases bs) (simp_all add: hex_EncodeToString_def)
  with Cons.prems have
    "hex_digit (of_char a div 16) = hex_digit (of_char b div 16)"
    "hex_digit (of_char a mod 16) = hex_digit (of_char b mod 16)"
    and rest: "hex_EncodeToString as = hex_EncodeToString bs'"
    by (simp_all add: hex_EncodeToString_def)
  then have "a = b"
    by (intro byte_eq_iff_div_mod) (auto intro: hex_digit_inj byte_nibbles_less)
  with Cons.IH [OF rest] bs show ?case by simp
qed

subsection \<open>encoding/base64\<close>

definition std_alphabet :: string where
  "std_alphabet = ''ABCDEFGHIJKLMNOPQRSTUVWXYZabcdefghijklmnopqrstuvwxyz0123456789+/''"

definition url_alphabet :: string where
  "url_alphabet = ''ABCDEFGHIJKLMNOPQRSTUVWXYZabcdefghijklmnopqrstuvwxyz0123456789-_''"

fun sextets :: "nat list \<Rightarrow> nat list" where
  "sextets (a # b # c # r) =
     a div 4 # (a mod 4 * 16 + b div 16) # (b mod 16 * 4 + c div 64) # c mod 64 # sextets r"
| "sextets [a, b] = [a div 4, a mod 4 * 16 + b div 16, b mod 16 * 4]"
| "sextets [a] = [a div 4, a mod 4 * 16]"
| "sextets [] = []"

fun unsextets :: "nat list \<Rightarrow> nat list option" where
  "unsextets (w # x # y # z # r) =
     map_option (\<lambda>bs. (w * 4 + x div 16) # (x mod 16 * 16 + y div 4) # (y mod 4 * 64 + z) # bs)
       (unsextets r)"
| "unsextets [w, x, y] = Some [w * 4 + x div 16, x mod 16 * 16 + y div 4]"
| "unsextets [w, x] = Some [w * 4 + x div 16]"
| "unsextets [w] = None"
| "unsextets [] = Some []"

fun index_of :: "string \<Rightarrow> char \<Rightarrow> nat option" where
  "index_of [] c = None"
| "index_of (x # xs) c = (if x = c then Some 0 else map_option Suc (index_of xs c))"

fun digits_of :: "string \<Rightarrow> string \<Rightarrow> nat list option" where
  "digits_of alphabet [] = Some []"
| "digits_of alphabet (c # cs) =
     (case index_of alphabet c of
        None \<Rightarrow> None
      | Some i \<Rightarrow> map_option ((#) i) (digits_of alphabet cs))"

definition raw_encode :: "string \<Rightarrow> bytes \<Rightarrow> string" where
  "raw_encode alphabet bs = map (\<lambda>i. alphabet ! i) (sextets (map of_char bs))"

text \<open>The decoders of the standard library skip carriage returns and line feeds.\<close>

definition skip_breaks :: "string \<Rightarrow> string" where
  "skip_breaks s = filter (\<lambda>c. of_char c \<noteq> (10 :: nat) \<and> of_char c \<noteq> (13 :: nat)) s"

definition raw_decode :: "string \<Rightarrow> string \<Rightarrow> bytes option" where
  "raw_decode alphabet s =
     Option.bind (digits_of alphabet (skip_breaks s))
       (\<lambda>ds. map_option (map byte_of) (unsextets ds))"

definition RawStd_EncodeToString :: "bytes \<Rightarrow> string" where
  "RawStd_EncodeToString = raw_encode std_alphabet"

definition RawStd_DecodeString :: "string \<Rightarrow> bytes option" where
  "RawStd_DecodeString = raw_decode std_alphabet"

definition RawURL_EncodeToString :: "bytes \<Rightarrow> string" where
  "RawURL_EncodeToString = raw_encode url_alphabet"

text \<open>\<^verbatim>\<open>base64.StdEncoding\<close>: the same digits, padded with \<^verbatim>\<open>=\<close> to a multiple of four.\<close>

definition pad4 :: "string \<Rightarrow> string" where
  "pad4 s = s @ replicate ((4 - length s mod 4) mod 4) (CHR ''='')"

definition Std_EncodeToString :: "bytes \<Rightarrow> string" where
  "Std_EncodeToString bs = pad4 (raw_encode std_alphabet bs)"

definition unpad4 :: "string \<Rightarrow> string option" where
  "unpad4 s =
     (if length s mod 4 \<noteq> 0 then None
      else if suffix ''=='' s then Some (take (length s - 2) s)
      else if suffix ''='' s then Some (take (length s - 1) s)
      else Some s)"

definition Std_DecodeString :: "string \<Rightarrow> bytes option" where
  "Std_DecodeString s = Option.bind (unpad4 (skip_breaks s)) (raw_decode std_alphabet)"

lemma pack_high: "(b :: nat) < m \<Longrightarrow> (a * m + b) div m = a"
  by simp

lemma pack_low: "(b :: nat) < m \<Longrightarrow> (a * m + b) mod m = b"
  by simp

lemma byte_parts_less: "(b :: nat) < 256 \<Longrightarrow> b div 16 < 16 \<and> b div 64 < 4"
  by linarith

lemma unsextets_sextets: "\<forall>b \<in> set bs. b < 256 \<Longrightarrow> unsextets (sextets bs) = Some bs"
proof (induction bs rule: sextets.induct)
  case (1 a b c r)
  then have "b div 16 < 16" "c div 64 < 4" by (simp_all add: byte_parts_less)
  with "1" show ?case by (simp add: pack_high pack_low)
next
  case (2 a b)
  then have "b div 16 < 16" by (simp add: byte_parts_less)
  then show ?case by (simp add: pack_high pack_low)
qed simp_all

lemma sextets_less_64: "\<forall>b \<in> set bs. b < 256 \<Longrightarrow> \<forall>d \<in> set (sextets bs). d < 64"
proof (induction bs rule: sextets.induct)
  case (1 a b c r)
  then have "a < 256" "b < 256" "c < 256" "\<forall>d \<in> set (sextets r). d < 64" by simp_all
  moreover from this have "a div 4 < 64" "a mod 4 * 16 + b div 16 < 64" "b mod 16 * 4 + c div 64 < 64"
    by linarith+
  ultimately show ?case by simp
next
  case (2 a b)
  then have "a div 4 < 64" "a mod 4 * 16 + b div 16 < 64" "b mod 16 * 4 < 64" by simp_all linarith+
  then show ?case by simp
next
  case (3 a)
  then have "a div 4 < 64" "a mod 4 * 16 < 64" by simp_all
  then show ?case by simp
qed simp

lemma index_of_nth: "distinct a \<Longrightarrow> i < length a \<Longrightarrow> index_of a (a ! i) = Some i"
proof (induction a arbitrary: i)
  case (Cons x xs)
  then show ?case by (cases i) (auto simp: nth_Cons')
qed simp

lemma digits_of_map_nth:
  "distinct a \<Longrightarrow> \<forall>d \<in> set ds. d < length a \<Longrightarrow> digits_of a (map ((!) a) ds) = Some ds"
  by (induction ds) (simp_all add: index_of_nth)

lemma set_bytes_less_256: "\<forall>b \<in> set (map of_char (bs :: bytes)). b < (256 :: nat)"
  by simp

lemma byte_of_of_char [simp]: "byte_of (of_char c) = c"
  by (simp add: byte_of_def)

lemma map_byte_of_of_char [simp]: "map (byte_of \<circ> of_char) bs = bs"
  by (simp add: comp_def)

lemma skip_breaks_id: "\<forall>c \<in> set s. of_char c \<noteq> (10 :: nat) \<and> of_char c \<noteq> (13 :: nat) \<Longrightarrow> skip_breaks s = s"
  by (simp add: skip_breaks_def)

text \<open>Both alphabets have 64 distinct characters, none of them a line break or the pad.\<close>

definition good_alphabet :: "string \<Rightarrow> bool" where
  "good_alphabet a \<longleftrightarrow> length a = 64 \<and> distinct a
     \<and> list_all (\<lambda>c. of_char c \<noteq> (10 :: nat) \<and> of_char c \<noteq> (13 :: nat) \<and> c \<noteq> CHR ''='') a"

lemma good_alphabets [simp]: "good_alphabet std_alphabet" "good_alphabet url_alphabet"
  by code_simp+

lemma raw_encode_chars: "good_alphabet a \<Longrightarrow> c \<in> set (raw_encode a bs) \<Longrightarrow> c \<in> set a"
  using sextets_less_64 [OF set_bytes_less_256 [of bs]]
  by (auto simp: raw_encode_def good_alphabet_def)

lemma raw_decode_encode: "good_alphabet a \<Longrightarrow> raw_decode a (raw_encode a bs) = Some bs"
proof -
  assume a: "good_alphabet a"
  have "skip_breaks (raw_encode a bs) = raw_encode a bs"
    using a raw_encode_chars [OF a, of _ bs]
    by (intro skip_breaks_id) (auto simp: good_alphabet_def list_all_iff)
  moreover have "digits_of a (raw_encode a bs) = Some (sextets (map of_char bs))"
    using a sextets_less_64 [OF set_bytes_less_256 [of bs]]
    by (simp add: raw_encode_def digits_of_map_nth good_alphabet_def)
  ultimately show ?thesis
    by (simp add: raw_decode_def unsextets_sextets)
qed

lemma RawStd_roundtrip [simp]: "RawStd_DecodeString (RawStd_EncodeToString bs) = Some bs"
  by (simp add: RawStd_DecodeString_def RawStd_EncodeToString_def raw_decode_encode)

lemma raw_encode_inj: "good_alphabet a \<Longrightarrow> raw_encode a xs = raw_encode a ys \<Longrightarrow> xs = ys"
  by (metis raw_decode_encode option.inject)

lemma RawURL_inj: "RawURL_EncodeToString xs = RawURL_EncodeToString ys \<longleftrightarrow> xs = ys"
  using raw_encode_inj [OF good_alphabets(2), of xs ys] by (auto simp: RawURL_EncodeToString_def)

text \<open>Padding adds one or two pads, never three: the digits of whole bytes number 0, 2 or 3 modulo 4.\<close>

lemma length_sextets: "length (sextets bs) mod 4 \<noteq> 1"
proof (induction bs rule: sextets.induct)
  case (1 a b c r)
  have "length (sextets (a # b # c # r)) = 4 + length (sextets r)" by simp
  then have "length (sextets (a # b # c # r)) mod 4 = length (sextets r) mod 4"
    by (simp only: mod_add_self1)
  with "1" show ?case by (simp only: not_False_eq_True)
qed simp_all

lemma unpad4_pad4: "CHR ''='' \<notin> set s \<Longrightarrow> length s mod 4 \<noteq> 1 \<Longrightarrow> unpad4 (pad4 s) = Some s"
proof -
  assume s: "CHR ''='' \<notin> set s" and len: "length s mod 4 \<noteq> 1"
  have "length s mod 4 < 4" by simp
  with len consider "length s mod 4 = 0" | "length s mod 4 = 2" | "length s mod 4 = 3" by linarith
  then show ?thesis
  proof cases
    case 1
    with s show ?thesis by (auto simp: pad4_def unpad4_def suffix_def)
  next
    case 2
    then have "pad4 s = s @ ''==''" by (simp add: pad4_def numeral_2_eq_2)
    with 2 show ?thesis by (simp add: unpad4_def suffix_def mod_Suc)
  next
    case 3
    then have p: "pad4 s = s @ ''=''" by (simp add: pad4_def)
    have "\<not> suffix ''=='' (s @ ''='')"
    proof
      assume "suffix ''=='' (s @ ''='')"
      then obtain t where "s @ ''='' = (t @ ''='') @ ''=''" by (auto simp: suffix_def)
      then have "s = t @ ''=''" by blast
      with s show False by simp
    qed
    with 3 p show ?thesis by (simp add: unpad4_def suffix_def mod_Suc)
  qed
qed

lemma pad4_chars: "set (pad4 s) \<subseteq> insert (CHR ''='') (set s)"
  by (auto simp: pad4_def)

lemma Std_roundtrip [simp]: "Std_DecodeString (Std_EncodeToString bs) = Some bs"
proof -
  let ?r = "raw_encode std_alphabet bs"
  have chars: "c \<in> set ?r \<Longrightarrow> of_char c \<noteq> (10 :: nat) \<and> of_char c \<noteq> (13 :: nat) \<and> c \<noteq> CHR ''=''" for c
    using raw_encode_chars [OF good_alphabets(1), of c bs] good_alphabets(1)
    by (auto simp: good_alphabet_def list_all_iff)
  then have "skip_breaks (pad4 ?r) = pad4 ?r"
    using pad4_chars [of ?r] by (intro skip_breaks_id) fastforce
  moreover have "unpad4 (pad4 ?r) = Some ?r"
    using chars length_sextets [of "map of_char bs"] by (intro unpad4_pad4) (auto simp: raw_encode_def)
  ultimately show ?thesis
    by (simp add: Std_DecodeString_def Std_EncodeToString_def raw_decode_encode)
qed

lemma Std_encode_eq_Nil [simp]: "Std_EncodeToString bs = [] \<longleftrightarrow> bs = []"
proof
  assume "Std_EncodeToString bs = []"
  then have "Std_DecodeString (Std_EncodeToString bs) = Std_DecodeString []" by simp
  also have "\<dots> = Some []"
    by (simp add: Std_DecodeString_def skip_breaks_def unpad4_def raw_decode_def suffix_def)
  finally show "bs = []" by simp
qed (simp add: Std_EncodeToString_def pad4_def raw_encode_def)

end
