(* ===== verification/Go_Json.thy ===== *)
theory Go_Json
  imports Go_Encoding "HOL-Library.Char_ord" "HOL-Library.List_Lexorder"
begin

text \<open>
  What the program uses of \<^verbatim>\<open>encoding/json\<close>, at the level of parsed values. A value of type \<open>json\<close> is a
  document; \<open>JTime t\<close> is the string literal that \<^verbatim>\<open>time.Time.MarshalJSON\<close> prints for \<open>t\<close> (its calendar
  text is not modelled, only that different instants print differently). Numbers are integers, as in
  every message of the contract.

  A Go struct is described by its list of tagged fields; \<open>marshal_struct\<close> writes the fields in
  declaration order, leaving out empty ones tagged \<^verbatim>\<open>omitempty\<close>, and \<open>unmarshal_struct\<close> reads the
  members of an object one by one into a given value: an unknown name is skipped, a name is matched
  exactly or else without regard to case, \<^verbatim>\<open>null\<close> leaves the field alone, a value of the wrong type
  makes the conversion fail, and invalid UTF-8 in a string is replaced on the way in as on the way out.
\<close>

subsection \<open>Valid UTF-8\<close>

definition head_in :: "nat \<Rightarrow> nat \<Rightarrow> string \<Rightarrow> bool" where
  "head_in lo hi s = (case s of [] \<Rightarrow> False | b # _ \<Rightarrow> lo \<le> of_char b \<and> of_char b \<le> hi)"

text \<open>The length of the first encoded rune of a string, 0 when its first byte starts none.\<close>

definition utf8_len :: "string \<Rightarrow> nat" where
  "utf8_len s =
     (case s of
        [] \<Rightarrow> 0
      | a # r \<Rightarrow>
          let n = of_char a :: nat
          in if n < 128 then 1
             else if 194 \<le> n \<and> n \<le> 223 then (if head_in 128 191 r then 2 else 0)
             else if n = 224 then (if head_in 160 191 r \<and> head_in 128 191 (tl r) then 3 else 0)
             else if n = 237 then (if head_in 128 159 r \<and> head_in 128 191 (tl r) then 3 else 0)
             else if 225 \<le> n \<and> n \<le> 239 then (if head_in 128 191 r \<and> head_in 128 191 (tl r) then 3 else 0)
             else if n = 240 then (if head_in 144 191 r \<and> head_in 128 191 (tl r) \<and> head_in 128 191 (tl (tl r)) then 4 else 0)
             else if 241 \<le> n \<and> n \<le> 243 then (if head_in 128 191 r \<and> head_in 128 191 (tl r) \<and> head_in 128 191 (tl (tl r)) then 4 else 0)
             else if n = 244 then (if head_in 128 143 r \<and> head_in 128 191 (tl r) \<and> head_in 128 191 (tl (tl r)) then 4 else 0)
             else 0)"

text \<open>U+FFFD, which the encoder writes in place of every byte that is not part of a valid rune.\<close>

definition replacement :: string where
  "replacement = [byte_of 239, byte_of 191, byte_of 189]"

function coerce_utf8 :: "string \<Rightarrow> string" where
  "coerce_utf8 [] = []"
| "coerce_utf8 (c # cs) =
     (if utf8_len (c # cs) = 0 then replacement @ coerce_utf8 cs
      else take (utf8_len (c # cs)) (c # cs) @ coerce_utf8 (drop (utf8_len (c # cs)) (c # cs)))"
  by pat_completeness auto
termination
  by (relation "measure length") auto

declare coerce_utf8.simps(2) [simp del]

definition valid_utf8 :: "string \<Rightarrow> bool" where
  "valid_utf8 s \<longleftrightarrow> coerce_utf8 s = s"

subsection \<open>Documents\<close>

datatype json =
    JNull
  | JBool bool
  | JNum int
  | JStr string
  | JTime go_time
  | JArr "json list"
  | JObj "(string \<times> json) list"

text \<open>
  The nearest \<^verbatim>\<open>float64\<close> of an integer, ties to even: decoding into \<^verbatim>\<open>any\<close> turns every number into one.
\<close>

fun bit_length :: "nat \<Rightarrow> nat" where
  "bit_length n = (if n = 0 then 0 else Suc (bit_length (n div 2)))"

declare bit_length.simps [simp del]

definition f64_of_nat :: "nat \<Rightarrow> nat" where
  "f64_of_nat n =
     (if n < 2 ^ 53 then n
      else let e = bit_length n - 53; q = n div 2 ^ e; r = n mod 2 ^ e; h = 2 ^ (e - 1)
           in (if h < r \<or> (r = h \<and> odd q) then q + 1 else q) * 2 ^ e)"

definition f64_of_int :: "int \<Rightarrow> int" where
  "f64_of_int n = sgn n * int (f64_of_nat (nat \<bar>n\<bar>))"

text \<open>
  Decoding into \<^verbatim>\<open>any\<close> and encoding again: the members of an object come out sorted by name, the last
  of equal names counts, numbers are rounded to \<^verbatim>\<open>float64\<close>.
\<close>

fun json_norm :: "json \<Rightarrow> json" where
  "json_norm JNull = JNull"
| "json_norm (JBool b) = JBool b"
| "json_norm (JNum n) = JNum (f64_of_int n)"
| "json_norm (JStr s) = JStr s"
| "json_norm (JTime t) = JTime t"
| "json_norm (JArr xs) = JArr (map json_norm xs)"
| "json_norm (JObj ms) =
     JObj (map (\<lambda>k. (k, case map_of (rev (map (\<lambda>(k, v). (k, json_norm v)) ms)) k of
                           None \<Rightarrow> JNull | Some v \<Rightarrow> v))
            (sort (remdups (map fst ms))))"

text \<open>\<^verbatim>\<open>jsonEqual\<close> of \<^verbatim>\<open>internal/repository/postgres.go\<close> and of \<^verbatim>\<open>client/postgres_store.go\<close>.\<close>

definition jsonEqual :: "json \<Rightarrow> json \<Rightarrow> bool" where
  "jsonEqual left right \<longleftrightarrow> json_norm left = json_norm right"

definition jlookup :: "string \<Rightarrow> json \<Rightarrow> json option" where
  "jlookup k j = (case j of JObj ms \<Rightarrow> map_of (rev ms) k | _ \<Rightarrow> None)"

subsection \<open>Structs\<close>

record 'a jfield =
  jf_name :: string
  jf_omit :: "'a \<Rightarrow> bool"
  jf_enc :: "'a \<Rightarrow> json"
  jf_dec :: "json \<Rightarrow> 'a \<Rightarrow> 'a option"

definition marshal_struct :: "'a jfield list \<Rightarrow> 'a \<Rightarrow> json" where
  "marshal_struct fs x =
     JObj (map (\<lambda>f. (jf_name f, jf_enc f x)) (filter (\<lambda>f. \<not> jf_omit f x) fs))"

definition find_field :: "'a jfield list \<Rightarrow> string \<Rightarrow> 'a jfield option" where
  "find_field fs k =
     (case find (\<lambda>f. jf_name f = k) fs of
        Some f \<Rightarrow> Some f
      | None \<Rightarrow> find (\<lambda>f. ToLower (jf_name f) = ToLower k) fs)"

fun dec_members :: "'a jfield list \<Rightarrow> (string \<times> json) list \<Rightarrow> 'a \<Rightarrow> 'a option" where
  "dec_members fs [] x = Some x"
| "dec_members fs ((k, v) # ms) x =
     (case find_field fs k of
        None \<Rightarrow> dec_members fs ms x
      | Some f \<Rightarrow> (case jf_dec f v x of None \<Rightarrow> None | Some x' \<Rightarrow> dec_members fs ms x'))"

definition unmarshal_struct :: "'a jfield list \<Rightarrow> json \<Rightarrow> 'a \<Rightarrow> 'a option" where
  "unmarshal_struct fs j x =
     (case j of JObj ms \<Rightarrow> dec_members fs ms x | JNull \<Rightarrow> Some x | _ \<Rightarrow> None)"

text \<open>Fields of each kind the contract uses: name, \<^verbatim>\<open>omitempty\<close>, how to read it and how to set it.\<close>

definition str_field :: "string \<Rightarrow> bool \<Rightarrow> ('a \<Rightarrow> string) \<Rightarrow> ((string \<Rightarrow> string) \<Rightarrow> 'a \<Rightarrow> 'a) \<Rightarrow> 'a jfield" where
  "str_field name om get upd =
     \<lparr>jf_name = name, jf_omit = (\<lambda>x. om \<and> get x = []), jf_enc = (\<lambda>x. JStr (coerce_utf8 (get x))),
      jf_dec = (\<lambda>j x. case j of JStr s \<Rightarrow> Some (upd (\<lambda>_. coerce_utf8 s) x) | JNull \<Rightarrow> Some x | _ \<Rightarrow> None)\<rparr>"

definition int_field :: "string \<Rightarrow> bool \<Rightarrow> ('a \<Rightarrow> int) \<Rightarrow> ((int \<Rightarrow> int) \<Rightarrow> 'a \<Rightarrow> 'a) \<Rightarrow> 'a jfield" where
  "int_field name om get upd =
     \<lparr>jf_name = name, jf_omit = (\<lambda>x. om \<and> get x = 0), jf_enc = (\<lambda>x. JNum (get x)),
      jf_dec = (\<lambda>j x. case j of JNum n \<Rightarrow> if in_int64 n then Some (upd (\<lambda>_. n) x) else None
                               | JNull \<Rightarrow> Some x | _ \<Rightarrow> None)\<rparr>"

definition bool_field :: "string \<Rightarrow> ('a \<Rightarrow> bool) \<Rightarrow> ((bool \<Rightarrow> bool) \<Rightarrow> 'a \<Rightarrow> 'a) \<Rightarrow> 'a jfield" where
  "bool_field name get upd =
     \<lparr>jf_name = name, jf_omit = (\<lambda>x. False), jf_enc = (\<lambda>x. JBool (get x)),
      jf_dec = (\<lambda>j x. case j of JBool b \<Rightarrow> Some (upd (\<lambda>_. b) x) | JNull \<Rightarrow> Some x | _ \<Rightarrow> None)\<rparr>"

definition time_field :: "string \<Rightarrow> ('a \<Rightarrow> go_time) \<Rightarrow> ((go_time \<Rightarrow> go_time) \<Rightarrow> 'a \<Rightarrow> 'a) \<Rightarrow> 'a jfield" where
  "time_field name get upd =
     \<lparr>jf_name = name, jf_omit = (\<lambda>x. False), jf_enc = (\<lambda>x. JTime (get x)),
      jf_dec = (\<lambda>j x. case j of JTime t \<Rightarrow> Some (upd (\<lambda>_. t) x) | JNull \<Rightarrow> Some x | _ \<Rightarrow> None)\<rparr>"

text \<open>A \<^verbatim>\<open>[]byte\<close> tagged \<^verbatim>\<open>omitempty\<close>: base64 with padding; \<^verbatim>\<open>null\<close> empties it.\<close>

definition bytes_field :: "string \<Rightarrow> ('a \<Rightarrow> bytes) \<Rightarrow> ((bytes \<Rightarrow> bytes) \<Rightarrow> 'a \<Rightarrow> 'a) \<Rightarrow> 'a jfield" where
  "bytes_field name get upd =
     \<lparr>jf_name = name, jf_omit = (\<lambda>x. get x = []), jf_enc = (\<lambda>x. JStr (Std_EncodeToString (get x))),
      jf_dec = (\<lambda>j x. case j of
                  JStr s \<Rightarrow> map_option (\<lambda>b. upd (\<lambda>_. b) x) (Std_DecodeString s)
                | JNull \<Rightarrow> Some (upd (\<lambda>_. []) x) | _ \<Rightarrow> None)\<rparr>"

text \<open>A slice tagged \<^verbatim>\<open>omitempty\<close> whose elements are written by \<open>enc\<close> and read by \<open>dec\<close>.\<close>

fun dec_list :: "(json \<Rightarrow> 'b option) \<Rightarrow> json list \<Rightarrow> 'b list option" where
  "dec_list dec [] = Some []"
| "dec_list dec (j # js) =
     (case dec j of None \<Rightarrow> None | Some b \<Rightarrow> map_option ((#) b) (dec_list dec js))"

definition list_field ::
  "string \<Rightarrow> ('b \<Rightarrow> json) \<Rightarrow> (json \<Rightarrow> 'b option) \<Rightarrow> ('a \<Rightarrow> 'b list) \<Rightarrow> (('b list \<Rightarrow> 'b list) \<Rightarrow> 'a \<Rightarrow> 'a) \<Rightarrow> 'a jfield" where
  "list_field name enc dec get upd =
     \<lparr>jf_name = name, jf_omit = (\<lambda>x. get x = []), jf_enc = (\<lambda>x. JArr (map enc (get x))),
      jf_dec = (\<lambda>j x. case j of
                  JArr js \<Rightarrow> map_option (\<lambda>bs. upd (\<lambda>_. bs) x) (dec_list dec js)
                | JNull \<Rightarrow> Some (upd (\<lambda>_. []) x) | _ \<Rightarrow> None)\<rparr>"

text \<open>A field that is itself a struct, decoded into its present value.\<close>

definition struct_field :: "string \<Rightarrow> 'b jfield list \<Rightarrow> ('a \<Rightarrow> 'b) \<Rightarrow> (('b \<Rightarrow> 'b) \<Rightarrow> 'a \<Rightarrow> 'a) \<Rightarrow> 'a jfield" where
  "struct_field name fs get upd =
     \<lparr>jf_name = name, jf_omit = (\<lambda>x. False), jf_enc = (\<lambda>x. marshal_struct fs (get x)),
      jf_dec = (\<lambda>j x. map_option (\<lambda>b. upd (\<lambda>_. b) x) (unmarshal_struct fs j (get x)))\<rparr>"

definition dec_string :: "json \<Rightarrow> string option" where
  "dec_string j = (case j of JStr s \<Rightarrow> Some (coerce_utf8 s) | JNull \<Rightarrow> Some [] | _ \<Rightarrow> None)"

definition dec_int :: "json \<Rightarrow> int option" where
  "dec_int j = (case j of JNum n \<Rightarrow> if in_int64 n then Some n else None | JNull \<Rightarrow> Some 0 | _ \<Rightarrow> None)"

lemmas field_defs = str_field_def int_field_def bool_field_def time_field_def bytes_field_def
  list_field_def struct_field_def

subsection \<open>Coercion keeps valid text\<close>

lemma utf8_len_le: "utf8_len s \<le> length s"
  by (cases s; cases "tl s"; cases "tl (tl s)"; cases "tl (tl (tl s))")
    (auto simp: utf8_len_def head_in_def Let_def)

lemma utf8_len_replacement [simp]: "utf8_len (replacement @ t) = 3"
  by (simp add: utf8_len_def replacement_def head_in_def Let_def)

lemma utf8_len_prefix: "utf8_len s = n \<Longrightarrow> 0 < n \<Longrightarrow> utf8_len (take n s @ t) = n"
  by (cases s; cases "tl s"; cases "tl (tl s)"; cases "tl (tl (tl s))")
    (auto simp: utf8_len_def head_in_def Let_def split: if_splits)

lemma coerce_utf8_step:
  "0 < utf8_len s \<Longrightarrow> coerce_utf8 s = take (utf8_len s) s @ coerce_utf8 (drop (utf8_len s) s)"
  by (cases s) (simp_all add: coerce_utf8.simps(2) utf8_len_def)

lemma coerce_utf8_rune:
  assumes "utf8_len s = n" "0 < n"
  shows "coerce_utf8 (take n s @ t) = take n s @ coerce_utf8 t"
proof -
  have "utf8_len (take n s @ t) = n" using assms by (rule utf8_len_prefix)
  moreover have "length (take n s) = n" using assms utf8_len_le [of s] by simp
  ultimately show ?thesis using coerce_utf8_step [of "take n s @ t"] assms(2) by simp
qed

lemma coerce_utf8_replacement: "coerce_utf8 (replacement @ t) = replacement @ coerce_utf8 t"
proof -
  have "take 3 (replacement @ t) = replacement" "drop 3 (replacement @ t) = t"
    by (simp_all add: replacement_def)
  then show ?thesis using coerce_utf8_step [of "replacement @ t"] by simp
qed

lemma coerce_utf8_idem [simp]: "coerce_utf8 (coerce_utf8 s) = coerce_utf8 s"
proof (induction s rule: coerce_utf8.induct)
  case (2 c cs)
  show ?case
  proof (cases "utf8_len (c # cs) = 0")
    case True
    with 2 show ?thesis by (simp add: coerce_utf8.simps(2) coerce_utf8_replacement)
  next
    case False
    let ?n = "utf8_len (c # cs)"
    have step: "coerce_utf8 (c # cs) = take ?n (c # cs) @ coerce_utf8 (drop ?n (c # cs))"
      using False coerce_utf8_step [of "c # cs"] by blast
    from 2(2) [OF False] show ?thesis
      unfolding step using False by (simp only: coerce_utf8_rune [OF refl] neq0_conv)
  qed
qed simp

lemma coerce_utf8_eq_Nil [simp]: "coerce_utf8 s = [] \<longleftrightarrow> s = []"
  by (cases s) (auto simp: coerce_utf8.simps(2) replacement_def)

lemma valid_utf8_coerce [simp]: "valid_utf8 (coerce_utf8 s)"
  by (simp add: valid_utf8_def)

lemma valid_utf8_ascii: "\<forall>c \<in> set s. (of_char c :: nat) < 128 \<Longrightarrow> valid_utf8 s"
  unfolding valid_utf8_def
  by (induction s) (auto simp: coerce_utf8.simps(2) utf8_len_def)

subsection \<open>Comparing documents\<close>

lemma jsonEqual_refl [simp]: "jsonEqual j j"
  by (simp add: jsonEqual_def)

lemma f64_of_int_small: "\<bar>n\<bar> < 2 ^ 53 \<Longrightarrow> f64_of_int n = n"
proof -
  assume "\<bar>n\<bar> < 2 ^ 53"
  then have "nat \<bar>n\<bar> < 2 ^ 53" by simp
  then show ?thesis by (simp add: f64_of_int_def f64_of_nat_def sgn_if)
qed

text \<open>Normalising keeps the members an object has, up to normalising their values.\<close>

lemma map_of_norm_members:
  "map_of (rev (map (\<lambda>(k, v). (k, json_norm v)) ms)) k = map_option json_norm (map_of (rev ms) k)"
proof -
  have "map_of (map (\<lambda>(k, v). (k, json_norm v)) xs) k = map_option json_norm (map_of xs k)" for xs
    by (induction xs) auto
  from this [of "rev ms"] show ?thesis by (simp only: rev_map)
qed

lemma map_of_tabulate: "map_of (map (\<lambda>k. (k, f k)) ks) k = (if k \<in> set ks then Some (f k) else None)"
  by (induction ks) auto

lemma map_of_rev_tabulate:
  "map_of (rev (map (\<lambda>k. (k, f k)) ks)) k = (if k \<in> set ks then Some (f k) else None)"
  using map_of_tabulate [of f "rev ks" k] by (simp add: rev_map)

lemma jlookup_norm: "jlookup k (json_norm j) = map_option json_norm (jlookup k j)"
proof (cases j)
  case (JObj ms)
  have dom: "map_of (rev ms) k = None \<longleftrightarrow> k \<notin> fst ` set ms"
    by (simp add: map_of_eq_None_iff)
  show ?thesis
    using dom
    by (auto simp: JObj jlookup_def map_of_rev_tabulate map_of_norm_members split: option.split)
qed (simp_all add: jlookup_def)

lemma jsonEqual_lookup:
  "jsonEqual a b \<Longrightarrow> map_option json_norm (jlookup k a) = map_option json_norm (jlookup k b)"
  by (simp add: jsonEqual_def flip: jlookup_norm)

subsection \<open>Reading back what was written\<close>

text \<open>What one field contributes when an encoded struct is decoded.\<close>

definition jstep :: "'a jfield \<Rightarrow> 'a \<Rightarrow> 'a \<Rightarrow> 'a option" where
  "jstep f x z = (if jf_omit f x then Some z else jf_dec f (jf_enc f x) z)"

fun jfold :: "'a jfield list \<Rightarrow> 'a \<Rightarrow> 'a \<Rightarrow> 'a option" where
  "jfold [] x z = Some z"
| "jfold (f # fs) x z = (case jstep f x z of None \<Rightarrow> None | Some z' \<Rightarrow> jfold fs x z')"

lemma find_field_name: "distinct (map jf_name fs) \<Longrightarrow> f \<in> set fs \<Longrightarrow> find_field fs (jf_name f) = Some f"
proof -
  assume "distinct (map jf_name fs)" "f \<in> set fs"
  then have "find (\<lambda>g. jf_name g = jf_name f) fs = Some f"
    by (induction fs) (auto simp: image_iff)
  then show ?thesis by (simp add: find_field_def)
qed

lemma dec_members_jfold:
  "distinct (map jf_name fs) \<Longrightarrow> set gs \<subseteq> set fs \<Longrightarrow>
   dec_members fs (map (\<lambda>f. (jf_name f, jf_enc f x)) (filter (\<lambda>f. \<not> jf_omit f x) gs)) z = jfold gs x z"
  by (induction gs arbitrary: z) (auto simp: jstep_def find_field_name split: option.split)

lemma unmarshal_marshal:
  "distinct (map jf_name fs) \<Longrightarrow> unmarshal_struct fs (marshal_struct fs x) z = jfold fs x z"
  by (simp add: unmarshal_struct_def marshal_struct_def dec_members_jfold)

lemma jlookup_marshal:
  assumes "distinct (map jf_name fs)" and "f \<in> set fs"
  shows "jlookup (jf_name f) (marshal_struct fs x) = (if jf_omit f x then None else Some (jf_enc f x))"
proof -
  let ?ms = "map (\<lambda>f. (jf_name f, jf_enc f x)) (filter (\<lambda>f. \<not> jf_omit f x) fs)"
  have d: "distinct (map fst (rev ?ms))"
    using distinct_map_filter_key [OF assms(1)] by (simp add: comp_def rev_map [symmetric])
  show ?thesis
  proof (cases "jf_omit f x")
    case True
    have "jf_name f \<notin> fst ` set ?ms"
    proof
      assume "jf_name f \<in> fst ` set ?ms"
      then obtain g where "g \<in> set fs" "\<not> jf_omit g x" "jf_name g = jf_name f" by auto
      with assms True show False by (metis distinct_map_eq_elem)
    qed
    then show ?thesis
      using True by (simp add: jlookup_def marshal_struct_def map_of_eq_None_iff)
  next
    case False
    then have "(jf_name f, jf_enc f x) \<in> set (rev ?ms)" using assms(2) by auto
    then show ?thesis
      using False d by (simp add: jlookup_def marshal_struct_def map_of_eq_Some_iff)
  qed
qed

lemma jstep_str:
  "upd (\<lambda>_. []) z = z \<or> \<not> om \<Longrightarrow>
   jstep (str_field n om get upd) x z = Some (upd (\<lambda>_. coerce_utf8 (get x)) z)"
  by (auto simp: jstep_def str_field_def)

lemma jstep_int:
  "upd (\<lambda>_. 0) z = z \<or> \<not> om \<Longrightarrow> in_int64 (get x) \<Longrightarrow>
   jstep (int_field n om get upd) x z = Some (upd (\<lambda>_. get x) z)"
  by (auto simp: jstep_def int_field_def)

lemma jstep_bool: "jstep (bool_field n get upd) x z = Some (upd (\<lambda>_. get x) z)"
  by (simp add: jstep_def bool_field_def)

lemma jstep_time: "jstep (time_field n get upd) x z = Some (upd (\<lambda>_. get x) z)"
  by (simp add: jstep_def time_field_def)

lemma jstep_bytes:
  "upd (\<lambda>_. []) z = z \<Longrightarrow> jstep (bytes_field n get upd) x z = Some (upd (\<lambda>_. get x) z)"
  by (auto simp: jstep_def bytes_field_def)

text \<open>A property that every field keeps is kept by decoding.\<close>

lemma unmarshal_struct_keeps:
  assumes "unmarshal_struct fs j x = Some x'" and "P x"
    and "\<And>f j x x'. f \<in> set fs \<Longrightarrow> jf_dec f j x = Some x' \<Longrightarrow> P x \<Longrightarrow> P x'"
  shows "P x'"
proof -
  have find: "find_field fs k = Some f \<Longrightarrow> f \<in> set fs" for k f
    by (auto simp: find_field_def split: option.splits dest: find_Some_conv)
  have members: "dec_members fs ms x = Some x' \<Longrightarrow> P x \<Longrightarrow> P x'" for ms x
  proof (induction ms arbitrary: x)
    case (Cons m ms)
    then show ?case
      using find assms(3) by (cases m) (fastforce split: option.splits)
  qed simp
  show ?thesis
    using assms(1,2) members by (auto simp: unmarshal_struct_def split: json.splits)
qed

lemma dec_list_map: "(\<And>x. x \<in> set xs \<Longrightarrow> dec (enc x) = Some (g x)) \<Longrightarrow> dec_list dec (map enc xs) = Some (map g xs)"
  by (induction xs) auto

lemma jstep_list:
  "upd (\<lambda>_. []) z = z \<Longrightarrow> (\<And>b. b \<in> set (get x) \<Longrightarrow> dec (enc b) = Some (g b)) \<Longrightarrow>
   jstep (list_field n enc dec get upd) x z = Some (upd (\<lambda>_. map g (get x)) z)"
  by (auto simp: jstep_def list_field_def dec_list_map)

lemma jstep_struct:
  "unmarshal_struct fs (marshal_struct fs (get x)) (get z) = Some b \<Longrightarrow>
   jstep (struct_field n fs get upd) x z = Some (upd (\<lambda>_. b) z)"
  by (simp add: jstep_def struct_field_def)

lemmas jsteps = jstep_str jstep_int jstep_bool jstep_time jstep_bytes

text \<open>
  The contract of a wire format: what is decoded after encoding is a canonical form of the value
  that encodes to the same document. Storing a value as a JSON column and loading it again, or
  sending it, is one use of it.
\<close>

locale wire_codec =
  fixes encode :: "'a \<Rightarrow> json"
    and decode :: "json \<Rightarrow> 'a option"
    and canon :: "'a \<Rightarrow> 'a"
    and wf :: "'a \<Rightarrow> bool"
  assumes decode_encode: "wf x \<Longrightarrow> decode (encode x) = Some (canon x)"
    and encode_canon: "encode (canon x) = encode x"
    and wf_canon: "wf x \<Longrightarrow> wf (canon x)"
begin

lemma canon_canon: "wf x \<Longrightarrow> canon (canon x) = canon x"
  using decode_encode [of x] decode_encode [of "canon x"] wf_canon [of x] by (simp add: encode_canon)

lemma reencode: "wf x \<Longrightarrow> decode (encode x) = Some y \<Longrightarrow> encode y = encode x"
  by (auto simp: decode_encode encode_canon)

lemma encode_eq_canon: "wf x \<Longrightarrow> wf y \<Longrightarrow> encode x = encode y \<Longrightarrow> canon x = canon y"
  using decode_encode [of x] decode_encode [of y] by simp

end

end
