(* ===== verification/Contracts.thy ===== *)
theory Contracts
  imports Go_Json
begin

text \<open>
  The messages of \<^verbatim>\<open>internal/contracts/contracts.go\<close>: one record per struct, the message type names, and
  for every struct the table of its JSON fields in declaration order. The codecs built from these
  tables are shown to satisfy the \<open>wire_codec\<close> contract.
\<close>

definition TypeHTTPRequest :: string where "TypeHTTPRequest = ''http.request.v1''"
definition TypeAcceptance :: string where "TypeAcceptance = ''http.accepted.v1''"
definition TypeAcceptanceACK :: string where "TypeAcceptanceACK = ''http.accepted_ack.v1''"
definition TypeHTTPResult :: string where "TypeHTTPResult = ''http.result.v1''"
definition TypeResultACK :: string where "TypeResultACK = ''http.result_ack.v1''"
definition TypeACKConfirmed :: string where "TypeACKConfirmed = ''ack.confirmed.v1''"
definition TypeWebhookRegister :: string where "TypeWebhookRegister = ''webhook.register.v1''"
definition TypeWebhookControlResult :: string where "TypeWebhookControlResult = ''webhook.control_result.v1''"
definition TypeWebhookControlACK :: string where "TypeWebhookControlACK = ''webhook.control_ack.v1''"
definition TypeWebhookSubscribe :: string where "TypeWebhookSubscribe = ''webhook.subscribe.v1''"
definition TypeWebhookUnsubscribe :: string where "TypeWebhookUnsubscribe = ''webhook.unsubscribe.v1''"
definition TypeWebhookUpdate :: string where "TypeWebhookUpdate = ''webhook.update.v1''"
definition TypeWebhookDelete :: string where "TypeWebhookDelete = ''webhook.delete.v1''"
definition TypeWebhookEvent :: string where "TypeWebhookEvent = ''webhook.event.v1''"
definition TypeWebhookEventACK :: string where "TypeWebhookEventACK = ''webhook.event_ack.v1''"
definition TypeWebhookDelegatedResponse :: string where "TypeWebhookDelegatedResponse = ''webhook.response.v1''"

lemmas type_names = TypeHTTPRequest_def TypeAcceptance_def TypeAcceptanceACK_def TypeHTTPResult_def
  TypeResultACK_def TypeACKConfirmed_def TypeWebhookRegister_def TypeWebhookControlResult_def
  TypeWebhookControlACK_def TypeWebhookSubscribe_def TypeWebhookUnsubscribe_def TypeWebhookUpdate_def
  TypeWebhookDelete_def TypeWebhookEvent_def TypeWebhookEventACK_def TypeWebhookDelegatedResponse_def

record header_field =
  hf_Name :: string
  hf_Value :: string

record retry_policy =
  rp_MaxAttempts :: int
  rp_InitialBackoff :: go_duration
  rp_MaxBackoff :: go_duration
  rp_RetryStatuses :: "int list"
  rp_RetryNetworkFail :: bool
  rp_Idempotent :: bool

record http_request =
  hq_RequestID :: string
  hq_ClientID :: string
  hq_ProxyID :: string
  hq_Method :: string
  hq_URL :: string
  hq_Headers :: "header_field list"
  hq_Body :: bytes
  hq_Timeout :: go_duration
  hq_Retry :: retry_policy
  hq_CreatedAt :: go_time
  hq_TraceParent :: string

record acceptance =
  ac_RequestID :: string
  ac_DeliveryID :: string
  ac_ProxyID :: string
  ac_Accepted :: bool
  ac_ErrorCode :: string
  ac_Error :: string
  ac_AcceptedAt :: go_time

record delivery_ack =
  da_RequestID :: string
  da_DeliveryID :: string
  da_ClientID :: string

record ack_confirmed =
  kc_DeliveryID :: string
  kc_ConfirmedAt :: go_time

record http_result =
  rs_ResultID :: string
  rs_RequestID :: string
  rs_ProxyID :: string
  rs_State :: string
  rs_StatusCode :: int
  rs_Headers :: "header_field list"
  rs_Body :: bytes
  rs_ErrorCode :: string
  rs_Error :: string
  rs_Attempts :: int
  rs_CompletedAt :: go_time

record static_http_response =
  sr_StatusCode :: int
  sr_Headers :: "header_field list"
  sr_Body :: bytes

record webhook_register =
  wr_CommandID :: string
  wr_ClientID :: string
  wr_Name :: string
  wr_Mode :: string
  wr_StaticResponse :: static_http_response
  wr_ResponderID :: string
  wr_SubscriberIDs :: "string list"
  wr_ResponseTimeout :: go_duration
  wr_MaxBodyBytes :: int

record webhook_control_result =
  cr_CommandID :: string
  cr_DeliveryID :: string
  cr_Action :: string
  cr_Success :: bool
  cr_WebhookID :: string
  cr_URL :: string
  cr_ErrorCode :: string
  cr_Error :: string

record webhook_subscribe =
  ws_CommandID :: string
  ws_ClientID :: string
  ws_WebhookID :: string
  ws_SubscriberID :: string

record webhook_update =
  wu_CommandID :: string
  wu_ClientID :: string
  wu_WebhookID :: string
  wu_Name :: string
  wu_Mode :: string
  wu_StaticResponse :: static_http_response
  wu_ResponderID :: string
  wu_ResponseTimeout :: go_duration
  wu_MaxBodyBytes :: int

record webhook_delete =
  wd_CommandID :: string
  wd_ClientID :: string
  wd_WebhookID :: string

record webhook_event =
  ev_EventID :: string
  ev_DeliveryID :: string
  ev_ProxyID :: string
  ev_WebhookID :: string
  ev_Method :: string
  ev_RequestURI :: string
  ev_Headers :: "header_field list"
  ev_Body :: bytes
  ev_ReceivedAt :: go_time
  ev_ReplySubject :: string

record webhook_response =
  wp_EventID :: string
  wp_DeliveryID :: string
  wp_ClientID :: string
  wp_StatusCode :: int
  wp_Headers :: "header_field list"
  wp_Body :: bytes

subsection \<open>JSON fields, from the struct tags\<close>

definition header_fields :: "header_field jfield list" where
  "header_fields =
     [str_field ''name'' False hf_Name hf_Name_update,
      str_field ''value'' False hf_Value hf_Value_update]"

definition retry_fields :: "retry_policy jfield list" where
  "retry_fields =
     [int_field ''max_attempts'' False rp_MaxAttempts rp_MaxAttempts_update,
      int_field ''initial_backoff'' False rp_InitialBackoff rp_InitialBackoff_update,
      int_field ''max_backoff'' False rp_MaxBackoff rp_MaxBackoff_update,
      list_field ''retry_statuses'' JNum dec_int rp_RetryStatuses rp_RetryStatuses_update,
      bool_field ''retry_network_fail'' rp_RetryNetworkFail rp_RetryNetworkFail_update,
      bool_field ''idempotent'' rp_Idempotent rp_Idempotent_update]"

definition zero_header :: header_field where
  "zero_header = \<lparr>hf_Name = [], hf_Value = []\<rparr>"

definition zero_retry :: retry_policy where
  "zero_retry = \<lparr>rp_MaxAttempts = 0, rp_InitialBackoff = 0, rp_MaxBackoff = 0, rp_RetryStatuses = [],
     rp_RetryNetworkFail = False, rp_Idempotent = False\<rparr>"

definition enc_header :: "header_field \<Rightarrow> json" where
  "enc_header = marshal_struct header_fields"

definition dec_header :: "json \<Rightarrow> header_field option" where
  "dec_header j = unmarshal_struct header_fields j zero_header"

definition http_request_fields :: "http_request jfield list" where
  "http_request_fields =
     [str_field ''request_id'' False hq_RequestID hq_RequestID_update,
      str_field ''client_id'' False hq_ClientID hq_ClientID_update,
      str_field ''proxy_id'' False hq_ProxyID hq_ProxyID_update,
      str_field ''method'' False hq_Method hq_Method_update,
      str_field ''url'' False hq_URL hq_URL_update,
      list_field ''headers'' enc_header dec_header hq_Headers hq_Headers_update,
      bytes_field ''body'' hq_Body hq_Body_update,
      int_field ''timeout'' True hq_Timeout hq_Timeout_update,
      struct_field ''retry'' retry_fields hq_Retry hq_Retry_update,
      time_field ''created_at'' hq_CreatedAt hq_CreatedAt_update,
      str_field ''traceparent'' True hq_TraceParent hq_TraceParent_update]"

definition zero_http_request :: http_request where
  "zero_http_request = \<lparr>hq_RequestID = [], hq_ClientID = [], hq_ProxyID = [], hq_Method = [], hq_URL = [],
     hq_Headers = [], hq_Body = [], hq_Timeout = 0, hq_Retry = zero_retry, hq_CreatedAt = 0, hq_TraceParent = []\<rparr>"

definition acceptance_fields :: "acceptance jfield list" where
  "acceptance_fields =
     [str_field ''request_id'' False ac_RequestID ac_RequestID_update,
      str_field ''delivery_id'' False ac_DeliveryID ac_DeliveryID_update,
      str_field ''proxy_id'' False ac_ProxyID ac_ProxyID_update,
      bool_field ''accepted'' ac_Accepted ac_Accepted_update,
      str_field ''error_code'' True ac_ErrorCode ac_ErrorCode_update,
      str_field ''error'' True ac_Error ac_Error_update,
      time_field ''accepted_at'' ac_AcceptedAt ac_AcceptedAt_update]"

definition zero_acceptance :: acceptance where
  "zero_acceptance = \<lparr>ac_RequestID = [], ac_DeliveryID = [], ac_ProxyID = [], ac_Accepted = False,
     ac_ErrorCode = [], ac_Error = [], ac_AcceptedAt = 0\<rparr>"

definition delivery_ack_fields :: "delivery_ack jfield list" where
  "delivery_ack_fields =
     [str_field ''request_id'' False da_RequestID da_RequestID_update,
      str_field ''delivery_id'' False da_DeliveryID da_DeliveryID_update,
      str_field ''client_id'' False da_ClientID da_ClientID_update]"

definition zero_delivery_ack :: delivery_ack where
  "zero_delivery_ack = \<lparr>da_RequestID = [], da_DeliveryID = [], da_ClientID = []\<rparr>"

definition ack_confirmed_fields :: "ack_confirmed jfield list" where
  "ack_confirmed_fields =
     [str_field ''delivery_id'' False kc_DeliveryID kc_DeliveryID_update,
      time_field ''confirmed_at'' kc_ConfirmedAt kc_ConfirmedAt_update]"

definition zero_ack_confirmed :: ack_confirmed where
  "zero_ack_confirmed = \<lparr>kc_DeliveryID = [], kc_ConfirmedAt = 0\<rparr>"

definition http_result_fields :: "http_result jfield list" where
  "http_result_fields =
     [str_field ''result_id'' False rs_ResultID rs_ResultID_update,
      str_field ''request_id'' False rs_RequestID rs_RequestID_update,
      str_field ''proxy_id'' False rs_ProxyID rs_ProxyID_update,
      str_field ''state'' False rs_State rs_State_update,
      int_field ''status_code'' True rs_StatusCode rs_StatusCode_update,
      list_field ''headers'' enc_header dec_header rs_Headers rs_Headers_update,
      bytes_field ''body'' rs_Body rs_Body_update,
      str_field ''error_code'' True rs_ErrorCode rs_ErrorCode_update,
      str_field ''error'' True rs_Error rs_Error_update,
      int_field ''attempts'' False rs_Attempts rs_Attempts_update,
      time_field ''completed_at'' rs_CompletedAt rs_CompletedAt_update]"

definition zero_http_result :: http_result where
  "zero_http_result = \<lparr>rs_ResultID = [], rs_RequestID = [], rs_ProxyID = [], rs_State = [], rs_StatusCode = 0,
     rs_Headers = [], rs_Body = [], rs_ErrorCode = [], rs_Error = [], rs_Attempts = 0, rs_CompletedAt = 0\<rparr>"

definition static_response_fields :: "static_http_response jfield list" where
  "static_response_fields =
     [int_field ''status_code'' False sr_StatusCode sr_StatusCode_update,
      list_field ''headers'' enc_header dec_header sr_Headers sr_Headers_update,
      bytes_field ''body'' sr_Body sr_Body_update]"

definition zero_static_response :: static_http_response where
  "zero_static_response = \<lparr>sr_StatusCode = 0, sr_Headers = [], sr_Body = []\<rparr>"

definition webhook_register_fields :: "webhook_register jfield list" where
  "webhook_register_fields =
     [str_field ''command_id'' False wr_CommandID wr_CommandID_update,
      str_field ''client_id'' False wr_ClientID wr_ClientID_update,
      str_field ''name'' False wr_Name wr_Name_update,
      str_field ''mode'' False wr_Mode wr_Mode_update,
      struct_field ''static_response'' static_response_fields wr_StaticResponse wr_StaticResponse_update,
      str_field ''responder_id'' True wr_ResponderID wr_ResponderID_update,
      list_field ''subscriber_ids'' (\<lambda>s. JStr (coerce_utf8 s)) dec_string wr_SubscriberIDs wr_SubscriberIDs_update,
      int_field ''response_timeout'' True wr_ResponseTimeout wr_ResponseTimeout_update,
      int_field ''max_body_bytes'' True wr_MaxBodyBytes wr_MaxBodyBytes_update]"

definition zero_webhook_register :: webhook_register where
  "zero_webhook_register = \<lparr>wr_CommandID = [], wr_ClientID = [], wr_Name = [], wr_Mode = [],
     wr_StaticResponse = zero_static_response, wr_ResponderID = [], wr_SubscriberIDs = [],
     wr_ResponseTimeout = 0, wr_MaxBodyBytes = 0\<rparr>"

definition control_result_fields :: "webhook_control_result jfield list" where
  "control_result_fields =
     [str_field ''command_id'' False cr_CommandID cr_CommandID_update,
      str_field ''delivery_id'' False cr_DeliveryID cr_DeliveryID_update,
      str_field ''action'' False cr_Action cr_Action_update,
      bool_field ''success'' cr_Success cr_Success_update,
      str_field ''webhook_id'' True cr_WebhookID cr_WebhookID_update,
      str_field ''url'' True cr_URL cr_URL_update,
      str_field ''error_code'' True cr_ErrorCode cr_ErrorCode_update,
      str_field ''error'' True cr_Error cr_Error_update]"

definition zero_control_result :: webhook_control_result where
  "zero_control_result = \<lparr>cr_CommandID = [], cr_DeliveryID = [], cr_Action = [], cr_Success = False,
     cr_WebhookID = [], cr_URL = [], cr_ErrorCode = [], cr_Error = []\<rparr>"

definition webhook_subscribe_fields :: "webhook_subscribe jfield list" where
  "webhook_subscribe_fields =
     [str_field ''command_id'' False ws_CommandID ws_CommandID_update,
      str_field ''client_id'' False ws_ClientID ws_ClientID_update,
      str_field ''webhook_id'' False ws_WebhookID ws_WebhookID_update,
      str_field ''subscriber_id'' False ws_SubscriberID ws_SubscriberID_update]"

definition zero_webhook_subscribe :: webhook_subscribe where
  "zero_webhook_subscribe = \<lparr>ws_CommandID = [], ws_ClientID = [], ws_WebhookID = [], ws_SubscriberID = []\<rparr>"

definition webhook_update_fields :: "webhook_update jfield list" where
  "webhook_update_fields =
     [str_field ''command_id'' False wu_CommandID wu_CommandID_update,
      str_field ''client_id'' False wu_ClientID wu_ClientID_update,
      str_field ''webhook_id'' False wu_WebhookID wu_WebhookID_update,
      str_field ''name'' False wu_Name wu_Name_update,
      str_field ''mode'' False wu_Mode wu_Mode_update,
      struct_field ''static_response'' static_response_fields wu_StaticResponse wu_StaticResponse_update,
      str_field ''responder_id'' True wu_ResponderID wu_ResponderID_update,
      int_field ''response_timeout'' True wu_ResponseTimeout wu_ResponseTimeout_update,
      int_field ''max_body_bytes'' True wu_MaxBodyBytes wu_MaxBodyBytes_update]"

definition zero_webhook_update :: webhook_update where
  "zero_webhook_update = \<lparr>wu_CommandID = [], wu_ClientID = [], wu_WebhookID = [], wu_Name = [], wu_Mode = [],
     wu_StaticResponse = zero_static_response, wu_ResponderID = [], wu_ResponseTimeout = 0, wu_MaxBodyBytes = 0\<rparr>"

definition webhook_delete_fields :: "webhook_delete jfield list" where
  "webhook_delete_fields =
     [str_field ''command_id'' False wd_CommandID wd_CommandID_update,
      str_field ''client_id'' False wd_ClientID wd_ClientID_update,
      str_field ''webhook_id'' False wd_WebhookID wd_WebhookID_update]"

definition zero_webhook_delete :: webhook_delete where
  "zero_webhook_delete = \<lparr>wd_CommandID = [], wd_ClientID = [], wd_WebhookID = []\<rparr>"

definition webhook_event_fields :: "webhook_event jfield list" where
  "webhook_event_fields =
     [str_field ''event_id'' False ev_EventID ev_EventID_update,
      str_field ''delivery_id'' False ev_DeliveryID ev_DeliveryID_update,
      str_field ''proxy_id'' False ev_ProxyID ev_ProxyID_update,
      str_field ''webhook_id'' False ev_WebhookID ev_WebhookID_update,
      str_field ''method'' False ev_Method ev_Method_update,
      str_field ''request_uri'' False ev_RequestURI ev_RequestURI_update,
      list_field ''headers'' enc_header dec_header ev_Headers ev_Headers_update,
      bytes_field ''body'' ev_Body ev_Body_update,
      time_field ''received_at'' ev_ReceivedAt ev_ReceivedAt_update,
      str_field ''reply_subject'' True ev_ReplySubject ev_ReplySubject_update]"

definition zero_webhook_event :: webhook_event where
  "zero_webhook_event = \<lparr>ev_EventID = [], ev_DeliveryID = [], ev_ProxyID = [], ev_WebhookID = [], ev_Method = [],
     ev_RequestURI = [], ev_Headers = [], ev_Body = [], ev_ReceivedAt = 0, ev_ReplySubject = []\<rparr>"

definition webhook_response_fields :: "webhook_response jfield list" where
  "webhook_response_fields =
     [str_field ''event_id'' False wp_EventID wp_EventID_update,
      str_field ''delivery_id'' False wp_DeliveryID wp_DeliveryID_update,
      str_field ''client_id'' False wp_ClientID wp_ClientID_update,
      int_field ''status_code'' False wp_StatusCode wp_StatusCode_update,
      list_field ''headers'' enc_header dec_header wp_Headers wp_Headers_update,
      bytes_field ''body'' wp_Body wp_Body_update]"

definition zero_webhook_response :: webhook_response where
  "zero_webhook_response = \<lparr>wp_EventID = [], wp_DeliveryID = [], wp_ClientID = [], wp_StatusCode = 0,
     wp_Headers = [], wp_Body = []\<rparr>"

subsection \<open>json.Marshal and json.Unmarshal on the contract\<close>

definition marshal_http_request :: "http_request \<Rightarrow> json" where
  "marshal_http_request = marshal_struct http_request_fields"

definition unmarshal_http_request :: "json \<Rightarrow> http_request option" where
  "unmarshal_http_request j = unmarshal_struct http_request_fields j zero_http_request"

definition marshal_acceptance :: "acceptance \<Rightarrow> json" where
  "marshal_acceptance = marshal_struct acceptance_fields"

definition unmarshal_acceptance :: "json \<Rightarrow> acceptance option" where
  "unmarshal_acceptance j = unmarshal_struct acceptance_fields j zero_acceptance"

definition marshal_delivery_ack :: "delivery_ack \<Rightarrow> json" where
  "marshal_delivery_ack = marshal_struct delivery_ack_fields"

definition unmarshal_delivery_ack :: "json \<Rightarrow> delivery_ack option" where
  "unmarshal_delivery_ack j = unmarshal_struct delivery_ack_fields j zero_delivery_ack"

definition marshal_ack_confirmed :: "ack_confirmed \<Rightarrow> json" where
  "marshal_ack_confirmed = marshal_struct ack_confirmed_fields"

definition unmarshal_ack_confirmed :: "json \<Rightarrow> ack_confirmed option" where
  "unmarshal_ack_confirmed j = unmarshal_struct ack_confirmed_fields j zero_ack_confirmed"

definition marshal_http_result :: "http_result \<Rightarrow> json" where
  "marshal_http_result = marshal_struct http_result_fields"

definition unmarshal_http_result :: "json \<Rightarrow> http_result option" where
  "unmarshal_http_result j = unmarshal_struct http_result_fields j zero_http_result"

definition marshal_static_response :: "static_http_response \<Rightarrow> json" where
  "marshal_static_response = marshal_struct static_response_fields"

definition unmarshal_static_response :: "json \<Rightarrow> static_http_response option" where
  "unmarshal_static_response j = unmarshal_struct static_response_fields j zero_static_response"

definition marshal_control_result :: "webhook_control_result \<Rightarrow> json" where
  "marshal_control_result = marshal_struct control_result_fields"

definition unmarshal_control_result :: "json \<Rightarrow> webhook_control_result option" where
  "unmarshal_control_result j = unmarshal_struct control_result_fields j zero_control_result"

definition unmarshal_webhook_register :: "json \<Rightarrow> webhook_register option" where
  "unmarshal_webhook_register j = unmarshal_struct webhook_register_fields j zero_webhook_register"

definition unmarshal_webhook_update :: "json \<Rightarrow> webhook_update option" where
  "unmarshal_webhook_update j = unmarshal_struct webhook_update_fields j zero_webhook_update"

definition unmarshal_webhook_subscribe :: "json \<Rightarrow> webhook_subscribe option" where
  "unmarshal_webhook_subscribe j = unmarshal_struct webhook_subscribe_fields j zero_webhook_subscribe"

definition unmarshal_webhook_delete :: "json \<Rightarrow> webhook_delete option" where
  "unmarshal_webhook_delete j = unmarshal_struct webhook_delete_fields j zero_webhook_delete"

definition marshal_webhook_event :: "webhook_event \<Rightarrow> json" where
  "marshal_webhook_event = marshal_struct webhook_event_fields"

definition unmarshal_webhook_event :: "json \<Rightarrow> webhook_event option" where
  "unmarshal_webhook_event j = unmarshal_struct webhook_event_fields j zero_webhook_event"

definition marshal_webhook_response :: "webhook_response \<Rightarrow> json" where
  "marshal_webhook_response = marshal_struct webhook_response_fields"

definition unmarshal_webhook_response :: "json \<Rightarrow> webhook_response option" where
  "unmarshal_webhook_response j = unmarshal_struct webhook_response_fields j zero_webhook_response"

end
