(* ===== verification/Contract_Codecs.thy ===== *)
theory Contract_Codecs
  imports Contracts
begin

text \<open>
  Every message the program stores or sends survives the trip through JSON up to the replacement
  of invalid UTF-8 in its strings: the contract structs satisfy \<open>wire_codec\<close>. The canonical form of a
  value (\<open>canon_\<dots>\<close>) coerces its strings; bodies and header order and repetition are kept exactly.
\<close>

definition canon_header :: "header_field \<Rightarrow> header_field" where
  "canon_header h = \<lparr>hf_Name = coerce_utf8 (hf_Name h), hf_Value = coerce_utf8 (hf_Value h)\<rparr>"

definition canon_http_request :: "http_request \<Rightarrow> http_request" where
  "canon_http_request r = r\<lparr>hq_RequestID := coerce_utf8 (hq_RequestID r), hq_ClientID := coerce_utf8 (hq_ClientID r),
     hq_ProxyID := coerce_utf8 (hq_ProxyID r), hq_Method := coerce_utf8 (hq_Method r), hq_URL := coerce_utf8 (hq_URL r),
     hq_Headers := map canon_header (hq_Headers r), hq_TraceParent := coerce_utf8 (hq_TraceParent r)\<rparr>"

definition canon_http_result :: "http_result \<Rightarrow> http_result" where
  "canon_http_result r = r\<lparr>rs_ResultID := coerce_utf8 (rs_ResultID r), rs_RequestID := coerce_utf8 (rs_RequestID r),
     rs_ProxyID := coerce_utf8 (rs_ProxyID r), rs_State := coerce_utf8 (rs_State r),
     rs_Headers := map canon_header (rs_Headers r), rs_ErrorCode := coerce_utf8 (rs_ErrorCode r),
     rs_Error := coerce_utf8 (rs_Error r)\<rparr>"

definition canon_control_result :: "webhook_control_result \<Rightarrow> webhook_control_result" where
  "canon_control_result r = r\<lparr>cr_CommandID := coerce_utf8 (cr_CommandID r), cr_DeliveryID := coerce_utf8 (cr_DeliveryID r),
     cr_Action := coerce_utf8 (cr_Action r), cr_WebhookID := coerce_utf8 (cr_WebhookID r), cr_URL := coerce_utf8 (cr_URL r),
     cr_ErrorCode := coerce_utf8 (cr_ErrorCode r), cr_Error := coerce_utf8 (cr_Error r)\<rparr>"

definition canon_webhook_event :: "webhook_event \<Rightarrow> webhook_event" where
  "canon_webhook_event e = e\<lparr>ev_EventID := coerce_utf8 (ev_EventID e), ev_DeliveryID := coerce_utf8 (ev_DeliveryID e),
     ev_ProxyID := coerce_utf8 (ev_ProxyID e), ev_WebhookID := coerce_utf8 (ev_WebhookID e),
     ev_Method := coerce_utf8 (ev_Method e), ev_RequestURI := coerce_utf8 (ev_RequestURI e),
     ev_Headers := map canon_header (ev_Headers e), ev_ReplySubject := coerce_utf8 (ev_ReplySubject e)\<rparr>"

definition canon_webhook_response :: "webhook_response \<Rightarrow> webhook_response" where
  "canon_webhook_response p = p\<lparr>wp_EventID := coerce_utf8 (wp_EventID p), wp_DeliveryID := coerce_utf8 (wp_DeliveryID p),
     wp_ClientID := coerce_utf8 (wp_ClientID p), wp_Headers := map canon_header (wp_Headers p)\<rparr>"

definition canon_static_response :: "static_http_response \<Rightarrow> static_http_response" where
  "canon_static_response p = p\<lparr>sr_Headers := map canon_header (sr_Headers p)\<rparr>"

definition canon_delivery_ack :: "delivery_ack \<Rightarrow> delivery_ack" where
  "canon_delivery_ack a = \<lparr>da_RequestID = coerce_utf8 (da_RequestID a), da_DeliveryID = coerce_utf8 (da_DeliveryID a),
     da_ClientID = coerce_utf8 (da_ClientID a)\<rparr>"

definition canon_acceptance :: "acceptance \<Rightarrow> acceptance" where
  "canon_acceptance a = a\<lparr>ac_RequestID := coerce_utf8 (ac_RequestID a), ac_DeliveryID := coerce_utf8 (ac_DeliveryID a),
     ac_ProxyID := coerce_utf8 (ac_ProxyID a), ac_ErrorCode := coerce_utf8 (ac_ErrorCode a),
     ac_Error := coerce_utf8 (ac_Error a)\<rparr>"

text \<open>Go's integer types bound the numbers of a value.\<close>

definition wf_retry :: "retry_policy \<Rightarrow> bool" where
  "wf_retry p \<longleftrightarrow> in_int64 (rp_MaxAttempts p) \<and> in_int64 (rp_InitialBackoff p) \<and> in_int64 (rp_MaxBackoff p)
     \<and> list_all in_int64 (rp_RetryStatuses p)"

definition wf_http_request :: "http_request \<Rightarrow> bool" where
  "wf_http_request r \<longleftrightarrow> in_int64 (hq_Timeout r) \<and> wf_retry (hq_Retry r)"

definition wf_http_result :: "http_result \<Rightarrow> bool" where
  "wf_http_result r \<longleftrightarrow> in_int64 (rs_StatusCode r) \<and> in_int64 (rs_Attempts r)"

lemma canon_header_idem [simp]: "canon_header (canon_header h) = canon_header h"
  by (simp add: canon_header_def)

lemma canon_header_comp [simp]: "canon_header \<circ> canon_header = canon_header"
  by (rule ext) simp

lemmas field_tables = header_fields_def retry_fields_def http_request_fields_def acceptance_fields_def
  delivery_ack_fields_def ack_confirmed_fields_def http_result_fields_def static_response_fields_def
  webhook_register_fields_def control_result_fields_def webhook_subscribe_fields_def webhook_update_fields_def
  webhook_delete_fields_def webhook_event_fields_def webhook_response_fields_def

lemma jf_name_fields [simp]:
  "jf_name (str_field n om sget supd) = n" "jf_name (int_field n om iget iupd) = n" "jf_name (bool_field n bget bupd) = n"
  "jf_name (time_field n tget tupd) = n" "jf_name (bytes_field n yget yupd) = n"
  "jf_name (list_field n enc dec lget lupd) = n" "jf_name (struct_field n fs get upd) = n"
  by (simp_all add: field_defs)

lemma distinct_names [simp]:
  "distinct (map jf_name header_fields)" "distinct (map jf_name retry_fields)"
  "distinct (map jf_name http_request_fields)" "distinct (map jf_name acceptance_fields)"
  "distinct (map jf_name delivery_ack_fields)" "distinct (map jf_name ack_confirmed_fields)"
  "distinct (map jf_name http_result_fields)"
  "distinct (map jf_name static_response_fields)" "distinct (map jf_name webhook_register_fields)"
  "distinct (map jf_name control_result_fields)" "distinct (map jf_name webhook_subscribe_fields)"
  "distinct (map jf_name webhook_update_fields)" "distinct (map jf_name webhook_delete_fields)"
  "distinct (map jf_name webhook_event_fields)" "distinct (map jf_name webhook_response_fields)"
  by (simp_all add: field_tables)

lemma dec_enc_header [simp]: "dec_header (enc_header h) = Some (canon_header h)"
  by (simp add: dec_header_def enc_header_def unmarshal_marshal)
    (simp add: header_fields_def jsteps canon_header_def zero_header_def)

lemma enc_canon_header [simp]: "enc_header (canon_header h) = enc_header h"
  by (simp add: enc_header_def marshal_struct_def header_fields_def str_field_def canon_header_def)

lemma enc_canon_header_comp [simp]: "enc_header \<circ> canon_header = enc_header"
  by (rule ext) simp

lemma jstep_headers:
  "upd (\<lambda>_. []) z = z \<Longrightarrow>
   jstep (list_field n enc_header dec_header get upd) x z = Some (upd (\<lambda>_. map canon_header (get x)) z)"
  by (rule jstep_list) simp_all

lemma jstep_ints:
  "upd (\<lambda>_. []) z = z \<Longrightarrow> list_all in_int64 (get x) \<Longrightarrow>
   jstep (list_field n JNum dec_int get upd) x z = Some (upd (\<lambda>_. get x) z)"
  using jstep_list [of upd z get x dec_int JNum id n] by (simp add: dec_int_def list_all_iff)

lemma retry_roundtrip:
  "wf_retry p \<Longrightarrow> unmarshal_struct retry_fields (marshal_struct retry_fields p) zero_retry = Some p"
  by (simp add: unmarshal_marshal)
    (simp add: retry_fields_def jsteps jstep_ints wf_retry_def zero_retry_def)

lemma jstep_retry:
  "wf_retry (get x) \<Longrightarrow> get z = zero_retry \<Longrightarrow>
   jstep (struct_field n retry_fields get upd) x z = Some (upd (\<lambda>_. get x) z)"
  by (rule jstep_struct) (simp add: retry_roundtrip)

lemmas marshal_unfold = marshal_struct_def field_defs

lemma http_request_decode:
  "wf_http_request r \<Longrightarrow> unmarshal_http_request (marshal_http_request r) = Some (canon_http_request r)"
  by (simp add: unmarshal_http_request_def marshal_http_request_def unmarshal_marshal)
    (simp add: http_request_fields_def zero_http_request_def jsteps jstep_headers jstep_retry
      wf_http_request_def canon_http_request_def)

lemma http_result_decode:
  "wf_http_result r \<Longrightarrow> unmarshal_http_result (marshal_http_result r) = Some (canon_http_result r)"
  by (simp add: unmarshal_http_result_def marshal_http_result_def unmarshal_marshal)
    (simp add: http_result_fields_def zero_http_result_def jsteps jstep_headers
      wf_http_result_def canon_http_result_def)

interpretation http_request_codec:
  wire_codec marshal_http_request unmarshal_http_request canon_http_request wf_http_request
proof
  fix r
  show "wf_http_request r \<Longrightarrow> unmarshal_http_request (marshal_http_request r) = Some (canon_http_request r)"
    by (rule http_request_decode)
  show "marshal_http_request (canon_http_request r) = marshal_http_request r"
    by (simp add: marshal_http_request_def marshal_unfold http_request_fields_def canon_http_request_def)
  show "wf_http_request r \<Longrightarrow> wf_http_request (canon_http_request r)"
    by (simp add: wf_http_request_def canon_http_request_def)
qed

interpretation http_result_codec:
  wire_codec marshal_http_result unmarshal_http_result canon_http_result wf_http_result
proof
  fix r
  show "wf_http_result r \<Longrightarrow> unmarshal_http_result (marshal_http_result r) = Some (canon_http_result r)"
    by (rule http_result_decode)
  show "marshal_http_result (canon_http_result r) = marshal_http_result r"
    by (simp add: marshal_http_result_def marshal_unfold http_result_fields_def canon_http_result_def)
  show "wf_http_result r \<Longrightarrow> wf_http_result (canon_http_result r)"
    by (simp add: wf_http_result_def canon_http_result_def)
qed

interpretation control_result_codec:
  wire_codec marshal_control_result unmarshal_control_result canon_control_result "\<lambda>_. True"
proof
  fix r
  show "unmarshal_control_result (marshal_control_result r) = Some (canon_control_result r)"
    by (simp add: unmarshal_control_result_def marshal_control_result_def unmarshal_marshal)
      (simp add: control_result_fields_def zero_control_result_def jsteps canon_control_result_def)
  show "marshal_control_result (canon_control_result r) = marshal_control_result r"
    by (simp add: marshal_control_result_def marshal_unfold control_result_fields_def canon_control_result_def)
qed

interpretation webhook_event_codec:
  wire_codec marshal_webhook_event unmarshal_webhook_event canon_webhook_event "\<lambda>_. True"
proof
  fix e
  show "unmarshal_webhook_event (marshal_webhook_event e) = Some (canon_webhook_event e)"
    by (simp add: unmarshal_webhook_event_def marshal_webhook_event_def unmarshal_marshal)
      (simp add: webhook_event_fields_def zero_webhook_event_def jsteps jstep_headers canon_webhook_event_def)
  show "marshal_webhook_event (canon_webhook_event e) = marshal_webhook_event e"
    by (simp add: marshal_webhook_event_def marshal_unfold webhook_event_fields_def canon_webhook_event_def)
qed

interpretation webhook_response_codec:
  wire_codec marshal_webhook_response unmarshal_webhook_response canon_webhook_response "\<lambda>p. in_int64 (wp_StatusCode p)"
proof
  fix p
  show "in_int64 (wp_StatusCode p) \<Longrightarrow>
      unmarshal_webhook_response (marshal_webhook_response p) = Some (canon_webhook_response p)"
    by (simp add: unmarshal_webhook_response_def marshal_webhook_response_def unmarshal_marshal)
      (simp add: webhook_response_fields_def zero_webhook_response_def jsteps jstep_headers canon_webhook_response_def)
  show "marshal_webhook_response (canon_webhook_response p) = marshal_webhook_response p"
    by (simp add: marshal_webhook_response_def marshal_unfold webhook_response_fields_def canon_webhook_response_def)
  show "in_int64 (wp_StatusCode p) \<Longrightarrow> in_int64 (wp_StatusCode (canon_webhook_response p))"
    by (simp add: canon_webhook_response_def)
qed

interpretation static_response_codec:
  wire_codec marshal_static_response unmarshal_static_response canon_static_response "\<lambda>p. in_int64 (sr_StatusCode p)"
proof
  fix p
  show "in_int64 (sr_StatusCode p) \<Longrightarrow>
      unmarshal_static_response (marshal_static_response p) = Some (canon_static_response p)"
    by (simp add: unmarshal_static_response_def marshal_static_response_def unmarshal_marshal)
      (simp add: static_response_fields_def zero_static_response_def jsteps jstep_headers canon_static_response_def)
  show "marshal_static_response (canon_static_response p) = marshal_static_response p"
    by (simp add: marshal_static_response_def marshal_unfold static_response_fields_def canon_static_response_def)
  show "in_int64 (sr_StatusCode p) \<Longrightarrow> in_int64 (sr_StatusCode (canon_static_response p))"
    by (simp add: canon_static_response_def)
qed

interpretation delivery_ack_codec:
  wire_codec marshal_delivery_ack unmarshal_delivery_ack canon_delivery_ack "\<lambda>_. True"
proof
  fix a
  show "unmarshal_delivery_ack (marshal_delivery_ack a) = Some (canon_delivery_ack a)"
    by (simp add: unmarshal_delivery_ack_def marshal_delivery_ack_def unmarshal_marshal)
      (simp add: delivery_ack_fields_def zero_delivery_ack_def jsteps canon_delivery_ack_def)
  show "marshal_delivery_ack (canon_delivery_ack a) = marshal_delivery_ack a"
    by (simp add: marshal_delivery_ack_def marshal_unfold delivery_ack_fields_def canon_delivery_ack_def)
qed

interpretation acceptance_codec:
  wire_codec marshal_acceptance unmarshal_acceptance canon_acceptance "\<lambda>_. True"
proof
  fix a
  show "unmarshal_acceptance (marshal_acceptance a) = Some (canon_acceptance a)"
    by (simp add: unmarshal_acceptance_def marshal_acceptance_def unmarshal_marshal)
      (simp add: acceptance_fields_def zero_acceptance_def jsteps canon_acceptance_def)
  show "marshal_acceptance (canon_acceptance a) = marshal_acceptance a"
    by (simp add: marshal_acceptance_def marshal_unfold acceptance_fields_def canon_acceptance_def)
qed

subsection \<open>What decoding gives\<close>

lemma dec_list_mem: "dec_list dec js = Some xs \<Longrightarrow> x \<in> set xs \<Longrightarrow> \<exists>j. dec j = Some x"
  by (induction js arbitrary: xs) (auto split: option.splits)

text \<open>What decoding one field can make of a value.\<close>

lemma field_dec_cases:
  "jf_dec (str_field n om sget supd) j x = Some x' \<Longrightarrow> x' = x \<or> (\<exists>s. x' = supd (\<lambda>_. coerce_utf8 s) x)"
  "jf_dec (int_field n om iget iupd) j x = Some x' \<Longrightarrow> x' = x \<or> (\<exists>i. in_int64 i \<and> x' = iupd (\<lambda>_. i) x)"
  "jf_dec (bool_field n bget bupd) j x = Some x' \<Longrightarrow> x' = x \<or> (\<exists>b. x' = bupd (\<lambda>_. b) x)"
  "jf_dec (time_field n tget tupd) j x = Some x' \<Longrightarrow> x' = x \<or> (\<exists>t. x' = tupd (\<lambda>_. t) x)"
  "jf_dec (bytes_field n yget yupd) j x = Some x' \<Longrightarrow> \<exists>b. x' = yupd (\<lambda>_. b) x"
  "jf_dec (list_field n enc dec lget lupd) j x = Some x' \<Longrightarrow> \<exists>bs. x' = lupd (\<lambda>_. bs) x \<and> (\<forall>b \<in> set bs. \<exists>i. dec i = Some b)"
  "jf_dec (struct_field n fs get upd) j x = Some x' \<Longrightarrow> \<exists>b. x' = upd (\<lambda>_. b) x \<and> unmarshal_struct fs j (get x) = Some b"
  by (cases j; auto simp: field_defs dest: dec_list_mem split: if_splits)+

lemma canon_header_eq_iff: "canon_header h = h \<longleftrightarrow> coerce_utf8 (hf_Name h) = hf_Name h \<and> coerce_utf8 (hf_Value h) = hf_Value h"
  by (cases h) (simp add: canon_header_def)

lemma canon_http_request_eq_iff:
  "canon_http_request q = q \<longleftrightarrow> coerce_utf8 (hq_RequestID q) = hq_RequestID q \<and> coerce_utf8 (hq_ClientID q) = hq_ClientID q
     \<and> coerce_utf8 (hq_ProxyID q) = hq_ProxyID q \<and> coerce_utf8 (hq_Method q) = hq_Method q \<and> coerce_utf8 (hq_URL q) = hq_URL q
     \<and> (\<forall>h \<in> set (hq_Headers q). canon_header h = h) \<and> coerce_utf8 (hq_TraceParent q) = hq_TraceParent q"
proof -
  have "map canon_header hs = hs \<longleftrightarrow> (\<forall>h \<in> set hs. canon_header h = h)" for hs by (induction hs) auto
  then show ?thesis by (cases q) (simp add: canon_http_request_def)
qed

lemma dec_header_canon: "dec_header j = Some h \<Longrightarrow> canon_header h = h"
  unfolding dec_header_def canon_header_eq_iff
  by (erule unmarshal_struct_keeps) (auto simp: header_fields_def str_field_def zero_header_def split: json.splits)

lemma dec_int_range: "dec_int j = Some n \<Longrightarrow> in_int64 n"
  by (auto simp: dec_int_def in_int64_def split: json.splits if_splits)

lemma unmarshal_retry_wf: "unmarshal_struct retry_fields j p = Some p' \<Longrightarrow> wf_retry p \<Longrightarrow> wf_retry p'"
  by (erule unmarshal_struct_keeps)
    (auto simp: retry_fields_def wf_retry_def list_all_iff dest!: field_dec_cases dest: dec_int_range)

lemma unmarshal_http_request_valid:
  assumes "unmarshal_http_request j = Some q"
  shows "wf_http_request q \<and> canon_http_request q = q"
  unfolding canon_http_request_eq_iff wf_http_request_def
  using assms [unfolded unmarshal_http_request_def]
proof (rule unmarshal_struct_keeps)
  show "(in_int64 (hq_Timeout zero_http_request) \<and> wf_retry (hq_Retry zero_http_request)) \<and>
      coerce_utf8 (hq_RequestID zero_http_request) = hq_RequestID zero_http_request \<and>
      coerce_utf8 (hq_ClientID zero_http_request) = hq_ClientID zero_http_request \<and>
      coerce_utf8 (hq_ProxyID zero_http_request) = hq_ProxyID zero_http_request \<and>
      coerce_utf8 (hq_Method zero_http_request) = hq_Method zero_http_request \<and>
      coerce_utf8 (hq_URL zero_http_request) = hq_URL zero_http_request \<and>
      (\<forall>h\<in>set (hq_Headers zero_http_request). canon_header h = h) \<and>
      coerce_utf8 (hq_TraceParent zero_http_request) = hq_TraceParent zero_http_request"
    by (simp add: zero_http_request_def zero_retry_def wf_retry_def in_int64_def)
qed (auto simp: http_request_fields_def dest!: field_dec_cases dest: dec_header_canon unmarshal_retry_wf)

end
