(* ===== verification/Message_Envelope.thy ===== *)
theory Message_Envelope
  imports Contract_Codecs
begin

text \<open>
  \<^verbatim>\<open>internal/message/message.go\<close>: the signed envelope around every NATS message and the parsing of keys.

  Signing and verifying (\<^verbatim>\<open>crypto/ed25519\<close>) and the text of a time stamp (\<^verbatim>\<open>time.RFC3339Nano\<close>) are
  parameters of the definitions that use them, as are the random bytes, the clock and the file system.
\<close>

record envelope =
  en_ID :: string
  en_Type :: string
  en_Timestamp :: go_time
  en_Payload :: bytes
  en_KeyID :: string
  en_Signature :: string

record crypto_lib =
  cl_Sign :: "bytes \<Rightarrow> bytes \<Rightarrow> bytes"
  cl_Verify :: "bytes \<Rightarrow> bytes \<Rightarrow> bytes \<Rightarrow> bool"
  cl_Public :: "bytes \<Rightarrow> bytes"
  cl_RFC3339Nano :: "go_time \<Rightarrow> string"

definition PublicKeySize :: nat where "PublicKeySize = 32"
definition PrivateKeySize :: nat where "PrivateKeySize = 64"

definition signingBytes :: "crypto_lib \<Rightarrow> envelope \<Rightarrow> bytes" where
  "signingBytes lib e = en_ID e @ newline @ en_Type e @ newline @ cl_RFC3339Nano lib (en_Timestamp e) @ newline @ en_Payload e"

definition PublicKeyID :: "bytes \<Rightarrow> string" where
  "PublicKeyID k = (if length k < 8 then [] else RawURL_EncodeToString (take 8 k))"

definition NewEnvelope :: "crypto_lib \<Rightarrow> bytes \<Rightarrow> go_time \<Rightarrow> string \<Rightarrow> bytes \<Rightarrow> bytes \<Rightarrow> envelope" where
  "NewEnvelope lib entropy now kind payload signer =
     (let e = \<lparr>en_ID = RawURL_EncodeToString (take 16 entropy), en_Type = kind, en_Timestamp = now, en_Payload = payload,
               en_KeyID = [], en_Signature = []\<rparr>
      in if 0 < length signer
         then let e' = e\<lparr>en_KeyID := RawURL_EncodeToString (take 8 (cl_Public lib signer))\<rparr>
              in e'\<lparr>en_Signature := RawStd_EncodeToString (cl_Sign lib signer (signingBytes lib e'))\<rparr>
         else e)"

fun verify_keys :: "crypto_lib \<Rightarrow> envelope \<Rightarrow> bytes \<Rightarrow> bytes list \<Rightarrow> string go_result" where
  "verify_keys lib e sig [] = Inl (ErrText ''signature verification failed'')"
| "verify_keys lib e sig (k # ks) =
     (let keyID = RawURL_EncodeToString (take 8 k)
      in if keyID = en_KeyID e \<and> cl_Verify lib k (signingBytes lib e) sig then Inr keyID
         else verify_keys lib e sig ks)"

text \<open>\<^verbatim>\<open>time.Since\<close> saturates at the ends of the range of a \<^verbatim>\<open>Duration\<close>.\<close>

definition Since :: "go_time \<Rightarrow> go_time \<Rightarrow> go_duration" where
  "Since now t = max (- (2 ^ 63)) (min (2 ^ 63 - 1) (now - t))"

definition VerifyKey :: "crypto_lib \<Rightarrow> go_time \<Rightarrow> envelope \<Rightarrow> bytes list \<Rightarrow> go_duration \<Rightarrow> string go_result" where
  "VerifyKey lib now e keys maxAge =
     (if en_ID e = [] \<or> en_Type e = [] \<or> en_Timestamp e = 0 then Inl (ErrText ''invalid envelope'')
      else let d = Since now (en_Timestamp e)
           in if maxAge < d \<or> d < - 60000000000 then Inl (ErrText ''expired envelope'')
              else case RawStd_DecodeString (en_Signature e) of
                     None \<Rightarrow> Inl (ErrText ''invalid signature encoding'')
                   | Some sig \<Rightarrow> verify_keys lib e sig keys)"

definition Verify :: "crypto_lib \<Rightarrow> go_time \<Rightarrow> envelope \<Rightarrow> bytes list \<Rightarrow> go_duration \<Rightarrow> unit go_result" where
  "Verify lib now e keys maxAge = map_sum id (\<lambda>_. ()) (VerifyKey lib now e keys maxAge)"

text \<open>\<open>read_file\<close> gives the content of the file or the error of \<^verbatim>\<open>os.ReadFile\<close>.\<close>

definition LoadPrivateKey :: "(string \<Rightarrow> bytes go_result) \<Rightarrow> string \<Rightarrow> bytes go_result" where
  "LoadPrivateKey read_file path =
     (if path = [] then Inr []
      else go_try (read_file path) (\<lambda>b.
        case RawStd_DecodeString (TrimSpace b) of
          None \<Rightarrow> Inl (ErrText ''illegal base64 data'')
        | Some raw \<Rightarrow>
            check (length raw = PrivateKeySize) (ErrText (''private key length '' @ decimal (length raw))) (Inr raw)))"

fun ParsePublicKeys :: "string list \<Rightarrow> bytes list go_result" where
  "ParsePublicKeys [] = Inr []"
| "ParsePublicKeys (v # vs) =
     (case RawStd_DecodeString v of
        None \<Rightarrow> Inl (ErrText ''invalid public key'')
      | Some b \<Rightarrow> check (length b = PublicKeySize) (ErrText ''invalid public key'')
                   (go_try (ParsePublicKeys vs) (\<lambda>ks. Inr (b # ks))))"

text \<open>
  A Go map from strings is a list of its entries, in the order in which an iteration visits them;
  reading a missing key gives the zero value.
\<close>

definition string_at :: "(string \<times> string) list \<Rightarrow> string \<Rightarrow> string" where
  "string_at m k = (case map_of m k of None \<Rightarrow> [] | Some v \<Rightarrow> v)"

fun parse_client_keys ::
  "(string \<times> string) list \<Rightarrow> (string \<times> bytes) list \<Rightarrow> (string \<times> string) list \<Rightarrow>
   ((string \<times> bytes) list \<times> (string \<times> string) list) go_result" where
  "parse_client_keys [] byClient clientByKeyID = Inr (byClient, clientByKeyID)"
| "parse_client_keys ((clientID, v) # rest) byClient clientByKeyID =
     (case RawStd_DecodeString (TrimSpace v) of
        None \<Rightarrow> Inl (ErrText (''invalid public key for client '' @ clientID))
      | Some key \<Rightarrow>
          if length key \<noteq> PublicKeySize then Inl (ErrText (''invalid public key for client '' @ clientID))
          else let keyID = PublicKeyID key; previous = string_at clientByKeyID keyID
               in if previous \<noteq> [] then Inl (ErrText (''clients '' @ previous @ '' and '' @ clientID @ '' use the same key''))
                  else parse_client_keys rest ((clientID, key) # byClient) ((keyID, clientID) # clientByKeyID))"

definition ParseClientPublicKeys ::
  "(string \<times> string) list \<Rightarrow> ((string \<times> bytes) list \<times> (string \<times> string) list) go_result" where
  "ParseClientPublicKeys entries = parse_client_keys entries [] []"

subsection \<open>Keys identify clients\<close>

lemma PublicKeyID_inj: "8 \<le> length a \<Longrightarrow> 8 \<le> length b \<Longrightarrow> PublicKeyID a = PublicKeyID b \<Longrightarrow> take 8 a = take 8 b"
  by (simp add: PublicKeyID_def RawURL_inj)

lemma parse_client_keys_inv:
  assumes "parse_client_keys entries byClient clientByKeyID = Inr (bc, ck)"
    and "distinct (map fst entries)" "[] \<notin> set (map fst entries)"
    and "\<forall>(c, k) \<in> set byClient. c \<noteq> [] \<and> c \<notin> set (map fst entries) \<and> length k = PublicKeySize \<and> map_of clientByKeyID (PublicKeyID k) = Some c"
    and "distinct (map fst byClient)"
    and "\<forall>(i, c) \<in> set clientByKeyID. \<exists>k. (c, k) \<in> set byClient \<and> PublicKeyID k = i"
  shows "(\<forall>(c, k) \<in> set bc. length k = PublicKeySize \<and> map_of ck (PublicKeyID k) = Some c)
    \<and> (\<forall>(i, c) \<in> set ck. \<exists>k. (c, k) \<in> set bc \<and> PublicKeyID k = i)
    \<and> distinct (map fst bc) \<and> set (map fst bc) = set (map fst byClient) \<union> set (map fst entries)"
  using assms
proof (induction entries arbitrary: byClient clientByKeyID)
  case Nil
  then show ?case by auto
next
  case (Cons e rest)
  obtain c v where e: "e = (c, v)" by (cases e)
  from Cons.prems(1) obtain key where key: "length key = PublicKeySize" "string_at clientByKeyID (PublicKeyID key) = []"
    and rest: "parse_client_keys rest ((c, key) # byClient) ((PublicKeyID key, c) # clientByKeyID) = Inr (bc, ck)"
    by (auto simp: e Let_def split: option.splits if_splits)
  have fresh: "map_of clientByKeyID (PublicKeyID key) = None"
  proof (rule ccontr)
    assume "map_of clientByKeyID (PublicKeyID key) \<noteq> None"
    then obtain d where d: "map_of clientByKeyID (PublicKeyID key) = Some d" by auto
    then have "(PublicKeyID key, d) \<in> set clientByKeyID" by (rule map_of_SomeD)
    then obtain k where "(d, k) \<in> set byClient" using Cons.prems(6) by auto
    then have "d \<noteq> []" using Cons.prems(4) by auto
    then show False using key(2) d by (simp add: string_at_def)
  qed
  have c: "c \<noteq> []" "c \<notin> set (map fst rest)" using Cons.prems(2,3) e by auto
  have old: "PublicKeyID k \<noteq> PublicKeyID key" if "(d, k) \<in> set byClient" for d k
    using that Cons.prems(4) fresh by auto
  have nc: "c \<notin> set (map fst byClient)" using Cons.prems(4) e by auto
  have "(\<forall>(c, k) \<in> set bc. length k = PublicKeySize \<and> map_of ck (PublicKeyID k) = Some c)
    \<and> (\<forall>(i, c) \<in> set ck. \<exists>k. (c, k) \<in> set bc \<and> PublicKeyID k = i)
    \<and> distinct (map fst bc) \<and> set (map fst bc) = set (map fst ((c, key) # byClient)) \<union> set (map fst rest)"
  proof (rule Cons.IH [OF rest])
    show "\<forall>(d, k) \<in> set ((c, key) # byClient). d \<noteq> [] \<and> d \<notin> set (map fst rest) \<and> length k = PublicKeySize
        \<and> map_of ((PublicKeyID key, c) # clientByKeyID) (PublicKeyID k) = Some d"
    proof -
      have "d \<noteq> [] \<and> d \<notin> set (map fst rest) \<and> length k = PublicKeySize \<and> PublicKeyID k \<noteq> PublicKeyID key
          \<and> map_of clientByKeyID (PublicKeyID k) = Some d" if "(d, k) \<in> set byClient" for d k
        using that Cons.prems(4) old [OF that] by (auto simp: e)
      then show ?thesis using c key(1) by auto
    qed
    show "\<forall>(i, d) \<in> set ((PublicKeyID key, c) # clientByKeyID). \<exists>k. (d, k) \<in> set ((c, key) # byClient) \<and> PublicKeyID k = i"
      using Cons.prems(6) by auto
  qed (use Cons.prems nc e in auto)
  then show ?case by (simp add: e)
qed

lemma ParseClientPublicKeys_inverse:
  assumes "ParseClientPublicKeys entries = Inr (bc, ck)" "distinct (map fst entries)" "[] \<notin> set (map fst entries)"
  shows "(\<forall>(c, k) \<in> set bc. length k = PublicKeySize \<and> map_of ck (PublicKeyID k) = Some c)
    \<and> (\<forall>(i, c) \<in> set ck. \<exists>k. (c, k) \<in> set bc \<and> PublicKeyID k = i)
    \<and> distinct (map fst bc) \<and> set (map fst bc) = set (map fst entries)"
  using parse_client_keys_inv [OF assms(1) [unfolded ParseClientPublicKeys_def] assms(2,3)] by simp

subsection \<open>Signatures\<close>

text \<open>Documented behaviour of \<^verbatim>\<open>crypto/ed25519\<close>: a signature verifies under the public half of its key.\<close>

definition signs :: "crypto_lib \<Rightarrow> bytes \<Rightarrow> bool" where
  "signs lib key \<longleftrightarrow> length (cl_Public lib key) = PublicKeySize
     \<and> (\<forall>m. cl_Verify lib (cl_Public lib key) m (cl_Sign lib key m))"

text \<open>Documented behaviour of \<^verbatim>\<open>RFC3339Nano\<close> in UTC: one line, and different texts for different times.\<close>

definition stamps :: "crypto_lib \<Rightarrow> bool" where
  "stamps lib \<longleftrightarrow> inj (cl_RFC3339Nano lib) \<and> (\<forall>t. set newline \<inter> set (cl_RFC3339Nano lib t) = {})"

lemma verify_keys_sound:
  "verify_keys lib e sig keys = Inr kid \<Longrightarrow>
   \<exists>k \<in> set keys. kid = RawURL_EncodeToString (take 8 k) \<and> kid = en_KeyID e \<and> cl_Verify lib k (signingBytes lib e) sig"
  by (induction keys) (auto simp: Let_def split: if_splits)

lemma verify_keys_complete:
  "k \<in> set keys \<Longrightarrow> RawURL_EncodeToString (take 8 k) = en_KeyID e \<Longrightarrow> cl_Verify lib k (signingBytes lib e) sig \<Longrightarrow>
   verify_keys lib e sig keys = Inr (en_KeyID e)"
  by (induction keys) (auto simp: Let_def)

lemma RawURL_nonempty: "RawURL_EncodeToString bs = [] \<longleftrightarrow> bs = []"
  using RawURL_inj [of bs "[]"] by (simp add: RawURL_EncodeToString_def raw_encode_def)

lemma Since_exact: "\<bar>now - t\<bar> < 2 ^ 63 \<Longrightarrow> Since now t = now - t"
  by (simp add: Since_def)

lemma newline_split:
  assumes "set newline \<inter> set a = {}" "set newline \<inter> set a' = {}" "a @ newline @ b = a' @ newline @ b'"
  shows "a = a' \<and> b = b'"
  using assms
proof (induction a arbitrary: a')
  case Nil
  then show ?case by (cases a') (auto simp: newline_def)
next
  case (Cons x a)
  then show ?case by (cases a') (auto simp: newline_def)
qed

definition newlines :: "string \<Rightarrow> nat" where
  "newlines s = length (filter (\<lambda>c. c \<in> set newline) s)"

lemma newlines_simps [simp]: "newlines (a @ b) = newlines a + newlines b" "newlines newline = 1"
  "newlines a = 0 \<longleftrightarrow> set newline \<inter> set a = {}"
  by (auto simp: newlines_def newline_def filter_empty_conv)

text \<open>
  A signature binds every field: the signed text of an envelope written by the program (no line
  breaks in its fields, since JSON is written on one line) is not the signed text of another envelope.
\<close>

lemma signingBytes_binds:
  assumes st: "stamps lib" and nl: "newlines (en_ID e) = 0" "newlines (en_Type e) = 0" "newlines (en_Payload e) = 0"
    and eq: "signingBytes lib e' = signingBytes lib e"
  shows "en_ID e' = en_ID e \<and> en_Type e' = en_Type e \<and> en_Timestamp e' = en_Timestamp e \<and> en_Payload e' = en_Payload e"
proof -
  have ts: "newlines (cl_RFC3339Nano lib t) = 0" for t using st by (simp add: stamps_def)
  have "newlines (signingBytes lib e') = newlines (signingBytes lib e)" using eq by simp
  then have "newlines (en_ID e') = 0 \<and> newlines (en_Type e') = 0 \<and> newlines (en_Payload e') = 0"
    using nl ts [of "en_Timestamp e"] unfolding signingBytes_def newlines_simps(1,2) by (intro conjI; linarith)
  then have nl': "set newline \<inter> set (en_ID e') = {}" "set newline \<inter> set (en_Type e') = {}" by simp_all
  note s1 = newline_split [OF nl'(1) nl(1) [unfolded newlines_simps] eq [unfolded signingBytes_def]]
  note s2 = newline_split [OF nl'(2) nl(2) [unfolded newlines_simps] conjunct2 [OF s1]]
  note s3 = newline_split [OF ts [unfolded newlines_simps] ts [unfolded newlines_simps] conjunct2 [OF s2]]
  show ?thesis using s1 s2 s3 st by (auto simp: stamps_def dest: injD)
qed

end
