(* ===== verification/Sql_Table.thy ===== *)
theory Sql_Table
  imports Gateway_Prelude
begin

text \<open>
  SQL tables as lists of rows in insertion order, with the statements the program executes:
  \<^verbatim>\<open>SELECT \<dots> WHERE \<dots> ORDER BY \<dots> LIMIT\<close>, \<^verbatim>\<open>INSERT\<close> with and without \<^verbatim>\<open>ON CONFLICT DO NOTHING\<close>,
  \<^verbatim>\<open>UPDATE \<dots> WHERE\<close> and \<^verbatim>\<open>DELETE \<dots> WHERE\<close>, together with the number of rows they affect. The
  lemmas say what a lookup by primary key returns after each statement and that the key stays unique.
\<close>

definition select_where :: "('r \<Rightarrow> bool) \<Rightarrow> 'r list \<Rightarrow> 'r list" where
  "select_where p t = filter p t"

definition order_limit :: "('r \<Rightarrow> int) \<Rightarrow> nat \<Rightarrow> 'r list \<Rightarrow> 'r list" where
  "order_limit f n t = take n (sort_key f t)"

definition rows_affected :: "('r \<Rightarrow> bool) \<Rightarrow> 'r list \<Rightarrow> nat" where
  "rows_affected p t = length (filter p t)"

definition update_where :: "('r \<Rightarrow> bool) \<Rightarrow> ('r \<Rightarrow> 'r) \<Rightarrow> 'r list \<Rightarrow> 'r list" where
  "update_where p f t = map (\<lambda>r. if p r then f r else r) t"

definition delete_where :: "('r \<Rightarrow> bool) \<Rightarrow> 'r list \<Rightarrow> 'r list" where
  "delete_where p t = filter (\<lambda>r. \<not> p r) t"

definition insert_row :: "'r \<Rightarrow> 'r list \<Rightarrow> 'r list" where
  "insert_row r t = t @ [r]"

definition row_exists :: "('r \<Rightarrow> bool) \<Rightarrow> 'r list \<Rightarrow> bool" where
  "row_exists p t = list_ex p t"

text \<open>A row by the value of a key column, and that the column is a key.\<close>

definition row_by :: "('r \<Rightarrow> 'k) \<Rightarrow> 'k \<Rightarrow> 'r list \<Rightarrow> 'r option" where
  "row_by key k t = find (\<lambda>r. key r = k) t"

definition unique_by :: "('r \<Rightarrow> 'k) \<Rightarrow> 'r list \<Rightarrow> bool" where
  "unique_by key t \<longleftrightarrow> distinct (map key t)"

text \<open>\<^verbatim>\<open>lease_until < now()\<close> and the like: a comparison with NULL does not hold.\<close>

definition sql_less :: "pg_time option \<Rightarrow> pg_time \<Rightarrow> bool" where
  "sql_less a b = (case a of None \<Rightarrow> False | Some t \<Rightarrow> t < b)"

definition sql_eq :: "'a option \<Rightarrow> 'a \<Rightarrow> bool" where
  "sql_eq a b = (case a of None \<Rightarrow> False | Some x \<Rightarrow> x = b)"

text \<open>\<^verbatim>\<open>COALESCE(x, y)\<close> for a \<open>y\<close> that is not NULL.\<close>

definition coalesce :: "'a option \<Rightarrow> 'a \<Rightarrow> 'a" where
  "coalesce a b = (case a of None \<Rightarrow> b | Some x \<Rightarrow> x)"

lemma sql_less_simps [simp]: "sql_less None b = False" "sql_less (Some a) b = (a < b)"
  by (simp_all add: sql_less_def)

lemma sql_eq_simps [simp]: "sql_eq None b = False" "sql_eq (Some a) b = (a = b)"
  by (simp_all add: sql_eq_def)

lemma sql_eq_iff: "sql_eq a b \<longleftrightarrow> a = Some b"
  by (cases a) auto

lemma coalesce_simps [simp]: "coalesce None b = b" "coalesce (Some a) b = a"
  by (simp_all add: coalesce_def)

lemma row_exists_iff: "row_exists p t \<longleftrightarrow> (\<exists>r \<in> set t. p r)"
  by (simp add: row_exists_def list_ex_iff)

lemma set_update_where: "set (update_where p f t) = (\<lambda>r. if p r then f r else r) ` set t"
  by (simp add: update_where_def)

lemma set_delete_where [sql_simps]: "set (delete_where p t) = {r \<in> set t. \<not> p r}"
  by (auto simp: delete_where_def)

lemma set_insert_row [sql_simps]: "set (insert_row r t) = insert r (set t)"
  by (simp add: insert_row_def)

lemma set_select_where [sql_simps]: "set (select_where p t) = {r \<in> set t. p r}"
  by (auto simp: select_where_def)

lemma update_where_none: "rows_affected p t = 0 \<Longrightarrow> update_where p f t = t"
  by (auto simp: update_where_def rows_affected_def filter_empty_conv intro: map_idI)

lemma rows_affected_eq_0: "rows_affected p t = 0 \<longleftrightarrow> (\<forall>r \<in> set t. \<not> p r)"
  by (auto simp: rows_affected_def filter_empty_conv)

lemma rows_affected_pos: "0 < rows_affected p t \<longleftrightarrow> (\<exists>r \<in> set t. p r)"
  using rows_affected_eq_0 [of p t] by auto

lemma length_update_where [simp]: "length (update_where p f t) = length t"
  by (simp add: update_where_def)

lemma update_where_memE:
  assumes "r \<in> set (update_where p f t)"
  obtains r0 where "r0 \<in> set t" "p r0" "r = f r0" | "r \<in> set t" "\<not> p r"
  using assms by (auto simp: set_update_where split: if_splits)

lemma order_limit_subset: "set (order_limit f n t) \<subseteq> set t"
  by (auto simp: order_limit_def dest: in_set_takeD)

lemma length_order_limit: "length (order_limit f n t) \<le> n"
  by (simp add: order_limit_def)

text \<open>The first row of an ordered selection has a least key among the selected rows.\<close>

lemma order_limit_1_least:
  assumes "order_limit f (Suc 0) t = [r]"
  shows "r \<in> set t \<and> (\<forall>s \<in> set t. f r \<le> f s)"
proof -
  from assms obtain rs where sk: "sort_key f t = r # rs"
    by (cases "sort_key f t") (auto simp: order_limit_def)
  then have set: "insert r (set rs) = set t"
    using set_sort [of f t] by (metis list.simps(15))
  have "sorted (map f (r # rs))"
    using sorted_sort_key [of f t] sk by simp
  then show ?thesis using set by auto
qed

lemma order_limit_1_cases:
  "order_limit f (Suc 0) t = [] \<and> t = [] \<or> (\<exists>r. order_limit f (Suc 0) t = [r])"
proof (cases "sort_key f t")
  case Nil
  then have "t = []" by (metis length_0_conv length_sort)
  then show ?thesis by (simp add: order_limit_def)
qed (simp add: order_limit_def)

subsection \<open>Tables with a primary key\<close>

lemma row_by_Nil [simp]: "row_by key k [] = None"
  by (simp add: row_by_def)

lemma row_by_Some_mem: "row_by key k t = Some r \<Longrightarrow> r \<in> set t \<and> key r = k"
  by (auto simp: row_by_def dest: find_Some_conv)

lemma row_by_None_iff: "row_by key k t = None \<longleftrightarrow> (\<forall>r \<in> set t. key r \<noteq> k)"
  by (auto simp: row_by_def find_None_iff)

lemma row_by_of_mem: "unique_by key t \<Longrightarrow> r \<in> set t \<Longrightarrow> row_by key (key r) t = Some r"
proof -
  assume "unique_by key t" "r \<in> set t"
  then show ?thesis
    by (induction t) (auto simp: unique_by_def row_by_def image_iff)
qed

lemma row_by_iff: "unique_by key t \<Longrightarrow> row_by key k t = Some r \<longleftrightarrow> r \<in> set t \<and> key r = k"
  using row_by_of_mem [of key t r] row_by_Some_mem [of key k t r] by auto

lemma unique_by_Nil [simp]: "unique_by key []"
  by (simp add: unique_by_def)

lemma unique_by_insert: "unique_by key t \<Longrightarrow> row_by key (key r) t = None \<Longrightarrow> unique_by key (insert_row r t)"
  by (auto simp: unique_by_def insert_row_def row_by_None_iff)

lemma row_by_insert: "row_by key (key r) t = None \<Longrightarrow> row_by key k (insert_row r t) = (if k = key r then Some r else row_by key k t)"
  by (auto simp: row_by_def insert_row_def find_append split: option.split)

lemma unique_by_delete: "unique_by key t \<Longrightarrow> unique_by key (delete_where p t)"
  by (simp add: unique_by_def delete_where_def distinct_map_filter_key)

lemma unique_by_update:
  assumes "\<And>r. key (f r) = key r"
  shows "unique_by key (update_where p f t) = unique_by key t"
proof -
  have "map key (update_where p f t) = map key t"
    using assms by (simp add: update_where_def)
  then show ?thesis by (simp add: unique_by_def)
qed

lemma row_by_update:
  assumes "\<And>r. key (f r) = key r"
  shows "row_by key k (update_where p f t) = map_option (\<lambda>r. if p r then f r else r) (row_by key k t)"
proof -
  have "find (\<lambda>r. key r = k) (update_where p f t) =
    map_option (\<lambda>r. if p r then f r else r) (find ((\<lambda>r. key r = k) \<circ> (\<lambda>r. if p r then f r else r)) t)"
    by (simp only: update_where_def find_map)
  moreover have "(\<lambda>r. key r = k) \<circ> (\<lambda>r. if p r then f r else r) = (\<lambda>r. key r = k)"
    using assms by (auto simp: comp_def)
  ultimately show ?thesis by (simp add: row_by_def)
qed

lemma row_by_delete_other: "(\<And>r. r \<in> set t \<Longrightarrow> p r \<Longrightarrow> key r \<noteq> k) \<Longrightarrow> row_by key k (delete_where p t) = row_by key k t"
  unfolding row_by_def delete_where_def
  by (induction t) auto

lemma rows_affected_key_le: "unique_by key t \<Longrightarrow> (\<And>r. p r \<Longrightarrow> key r = k) \<Longrightarrow> rows_affected p t \<le> 1"
  unfolding unique_by_def rows_affected_def by (rule length_filter_le_1 [where f = key and k = k]) auto

lemma rows_affected_key: 
  "unique_by key t \<Longrightarrow> (\<And>r. p r \<Longrightarrow> key r = k) \<Longrightarrow>
   rows_affected p t = (case row_by key k t of Some r \<Rightarrow> if p r then 1 else 0 | None \<Rightarrow> 0)"
proof -
  assume pk: "unique_by key t" and p: "\<And>r. p r \<Longrightarrow> key r = k"
  have le: "rows_affected p t \<le> 1" using pk p by (rule rows_affected_key_le)
  show ?thesis
  proof (cases "\<exists>r \<in> set t. p r")
    case True
    then obtain r where r: "r \<in> set t" "p r" by blast
    then have "row_by key k t = Some r" using row_by_of_mem [OF pk r(1)] p [OF r(2)] by simp
    moreover have "0 < rows_affected p t" using r by (auto simp: rows_affected_pos)
    ultimately show ?thesis using le r by simp
  next
    case False
    then have "rows_affected p t = 0" by (simp add: rows_affected_eq_0)
    moreover have "row_by key k t = Some r \<Longrightarrow> \<not> p r" for r using False row_by_Some_mem [of key k t r] by auto
    ultimately show ?thesis by (simp split: option.split)
  qed
qed

end
