(* ===== verification/Proxy_Db.thy ===== *)
theory Proxy_Db
  imports Contract_Codecs Sql_Table
begin

text \<open>
  The proxy's database: one record per table of \<^verbatim>\<open>internal/repository/migrations/000001_initial.up.sql\<close>,
  the record \<open>proxy_db\<close> of all tables, and the shared parts of \<^verbatim>\<open>internal/repository/postgres.go\<close>.

  A repository method is a function from the parameters, the transaction's \<^verbatim>\<open>now()\<close> and the database to
  a result and a database; on an error the transaction is rolled back, so the database is the one
  before it. Status and kind columns are datatypes with one constructor per value that the table's
  \<^verbatim>\<open>CHECK\<close> constraint admits.
\<close>

datatype request_status =
    awaiting_acceptance_ack | ready | reserved | dispatching | retry_wait
  | http_completed | result_delivered | failed | unknown | canceled

datatype event_status = received | awaiting_response | responded | timed_out

datatype delivery_kind = acceptance_kind | result_kind | webhook_kind | control_kind

record request_row =
  rq_request_id :: string
  rq_client_id :: string
  rq_proxy_id :: string
  rq_request :: json
  rq_status :: request_status
  rq_attempts :: int
  rq_next_attempt_at :: pg_time
  rq_lease_until :: "pg_time option"
  rq_dispatch_token :: "string option"
  rq_result :: "json option"
  rq_last_error :: "string option"
  rq_created_at :: pg_time
  rq_updated_at :: pg_time

record window_row =
  hw_host :: string
  hw_window_start :: pg_time
  hw_used :: int

record permit_row =
  hp_token :: string
  hp_host :: string
  hp_lease_until :: pg_time

record last_dispatch_row =
  hd_host :: string
  hd_dispatched_at :: pg_time

record route_row =
  wt_webhook_id :: string
  wt_owner_client_id :: string
  wt_name :: string
  wt_path_token_hash :: bytes
  wt_mode :: string
  wt_static_response :: json
  wt_responder_client_id :: "string option"
  wt_response_timeout_ms :: int
  wt_max_body_bytes :: int
  wt_enabled :: bool
  wt_created_at :: pg_time
  wt_updated_at :: pg_time

record subscriber_row =
  sb_webhook_id :: string
  sb_client_id :: string
  sb_created_at :: pg_time

record event_row =
  we_event_id :: string
  we_webhook_id :: string
  we_request :: json
  we_response :: "json option"
  we_status :: event_status
  we_received_at :: pg_time
  we_updated_at :: pg_time

record command_row =
  cm_command_id :: string
  cm_client_id :: string
  cm_command_type :: string
  cm_payload :: json
  cm_result :: json
  cm_created_at :: pg_time

record delivery_row =
  dl_delivery_id :: string
  dl_kind :: delivery_kind
  dl_client_id :: string
  dl_subject :: string
  dl_message_type :: string
  dl_payload :: json
  dl_request_id :: "string option"
  dl_webhook_event_id :: "string option"
  dl_command_id :: "string option"
  dl_attempts :: int
  dl_next_attempt_at :: pg_time
  dl_lease_until :: "pg_time option"
  dl_acknowledged_at :: "pg_time option"
  dl_created_at :: pg_time

record proxy_db =
  db_identity :: "string option"
  db_requests :: "request_row list"
  db_windows :: "window_row list"
  db_permits :: "permit_row list"
  db_last_dispatch :: "last_dispatch_row list"
  db_routes :: "route_row list"
  db_subscribers :: "subscriber_row list"
  db_events :: "event_row list"
  db_commands :: "command_row list"
  db_deliveries :: "delivery_row list"

definition empty_db :: proxy_db where
  "empty_db = \<lparr>db_identity = None, db_requests = [], db_windows = [], db_permits = [], db_last_dispatch = [],
     db_routes = [], db_subscribers = [], db_events = [], db_commands = [], db_deliveries = []\<rparr>"

text \<open>
  \<^verbatim>\<open>pgInterval\<close> prints a duration as seconds with six decimals, so the database adds it in microseconds,
  rounded to the nearest.
\<close>

definition pgInterval :: "go_duration \<Rightarrow> int" where
  "pgInterval d = (d + 500) div 1000"

text \<open>\<^verbatim>\<open>sameHTTPRequest\<close>: equal as JSON after both creation times are cleared.\<close>

definition sameHTTPRequest :: "json \<Rightarrow> http_request \<Rightarrow> bool" where
  "sameHTTPRequest existing incoming =
     (case unmarshal_http_request existing of
        None \<Rightarrow> False
      | Some stored \<Rightarrow>
          jsonEqual (marshal_http_request (stored\<lparr>hq_CreatedAt := 0\<rparr>))
                    (marshal_http_request (incoming\<lparr>hq_CreatedAt := 0\<rparr>)))"

definition nullString :: "string \<Rightarrow> string option" where
  "nullString v = (if v = [] then None else Some v)"

fun contains :: "string list \<Rightarrow> string \<Rightarrow> bool" where
  "contains [] target = False"
| "contains (v # vs) target = (if v = target then True else contains vs target)"

text \<open>
  \<^verbatim>\<open>randomID\<close>: the hexadecimal text of 16 random bytes. The bytes come from the operating system and are
  an argument of every operation that draws an identifier.
\<close>

definition randomID :: "bytes \<Rightarrow> string" where
  "randomID entropy = hex_EncodeToString (take 16 entropy)"

definition BindProxyID :: "string \<Rightarrow> proxy_db \<Rightarrow> unit go_result \<times> proxy_db" where
  "BindProxyID proxyID db =
     (case db_identity db of
        None \<Rightarrow> (Inr (), db\<lparr>db_identity := Some proxyID\<rparr>)
      | Some existing \<Rightarrow>
          if existing \<noteq> proxyID
          then (Inl (ErrText (''database belongs to proxy_id '' @ existing @ '', not '' @ proxyID)), db)
          else (Inr (), db))"

subsection \<open>Facts shared by the repository's operations\<close>

abbreviation request_of :: "string \<Rightarrow> proxy_db \<Rightarrow> request_row option" where
  "request_of rid db \<equiv> row_by rq_request_id rid (db_requests db)"

abbreviation delivery_of :: "string \<Rightarrow> proxy_db \<Rightarrow> delivery_row option" where
  "delivery_of did db \<equiv> row_by dl_delivery_id did (db_deliveries db)"

lemma contains_iff [simp]: "contains vs target \<longleftrightarrow> target \<in> set vs"
  by (induction vs) auto

lemma marshal_http_request_cong:
  "canon_http_request x = canon_http_request y \<Longrightarrow> marshal_http_request x = marshal_http_request y"
  by (metis http_request_codec.encode_canon)

lemma canon_http_request_CreatedAt:
  "(canon_http_request r)\<lparr>hq_CreatedAt := t\<rparr> = canon_http_request (r\<lparr>hq_CreatedAt := t\<rparr>)"
  by (simp add: canon_http_request_def)

text \<open>A request stored as JSON is recognised when it arrives again, whatever its creation time.\<close>

lemma sameHTTPRequest_stored:
  assumes "wf_http_request r" and "r\<lparr>hq_CreatedAt := 0\<rparr> = r'\<lparr>hq_CreatedAt := 0\<rparr>"
  shows "sameHTTPRequest (marshal_http_request r) r'"
proof -
  have "marshal_http_request ((canon_http_request r)\<lparr>hq_CreatedAt := 0\<rparr>)
      = marshal_http_request (canon_http_request (r'\<lparr>hq_CreatedAt := 0\<rparr>))"
    using assms(2) by (simp add: canon_http_request_CreatedAt)
  also have "\<dots> = marshal_http_request (r'\<lparr>hq_CreatedAt := 0\<rparr>)"
    by (rule http_request_codec.encode_canon)
  finally show ?thesis
    by (simp add: sameHTTPRequest_def http_request_decode [OF assms(1)])
qed

lemma randomID_inj: "length a = 16 \<Longrightarrow> length b = 16 \<Longrightarrow> randomID a = randomID b \<Longrightarrow> a = b"
  using hex_EncodeToString_inj [of a b] by (simp add: randomID_def)

end
