(* ===== verification/Repo_Outgoing.thy ===== *)
theory Repo_Outgoing
  imports Proxy_Db
begin

text \<open>
  \<^verbatim>\<open>internal/repository/outgoing.go\<close> and \<^verbatim>\<open>internal/repository/delivery.go\<close>: the states of an outgoing HTTP
  request, its acceptance and result handshakes, and the queue of durable NATS deliveries.

  Rows that other transactions hold locked are skipped by \<^verbatim>\<open>FOR UPDATE SKIP LOCKED\<close>; which rows are
  locked is an argument of the two operations that claim work.
\<close>

record operation =
  op_Request :: http_request
  op_Attempts :: int
  op_DispatchToken :: string

record delivery =
  de_ID :: string
  de_Kind :: delivery_kind
  de_ClientID :: string
  de_Subject :: string
  de_MessageType :: string
  de_Payload :: json

subsection \<open>Rows\<close>

definition new_request :: "http_request \<Rightarrow> pg_time \<Rightarrow> request_row" where
  "new_request request now =
     \<lparr>rq_request_id = hq_RequestID request, rq_client_id = hq_ClientID request, rq_proxy_id = hq_ProxyID request,
      rq_request = marshal_http_request request, rq_status = awaiting_acceptance_ack, rq_attempts = 0,
      rq_next_attempt_at = now, rq_lease_until = None, rq_dispatch_token = None, rq_result = None,
      rq_last_error = None, rq_created_at = now, rq_updated_at = now\<rparr>"

definition new_delivery ::
  "string \<Rightarrow> delivery_kind \<Rightarrow> string \<Rightarrow> string \<Rightarrow> string \<Rightarrow> json \<Rightarrow>
   string option \<Rightarrow> string option \<Rightarrow> string option \<Rightarrow> pg_time \<Rightarrow> delivery_row" where
  "new_delivery did kind client subject mtype payload rid eid cid now =
     \<lparr>dl_delivery_id = did, dl_kind = kind, dl_client_id = client, dl_subject = subject, dl_message_type = mtype,
      dl_payload = payload, dl_request_id = rid, dl_webhook_event_id = eid, dl_command_id = cid, dl_attempts = 0,
      dl_next_attempt_at = now, dl_lease_until = None, dl_acknowledged_at = None, dl_created_at = now\<rparr>"

text \<open>\<^verbatim>\<open>INSERT \<dots> ON CONFLICT(delivery_id) DO NOTHING\<close>\<close>

definition insert_delivery :: "delivery_row \<Rightarrow> proxy_db \<Rightarrow> proxy_db" where
  "insert_delivery d db =
     (if row_exists (\<lambda>r. dl_delivery_id r = dl_delivery_id d) (db_deliveries db) then db
      else db\<lparr>db_deliveries := insert_row d (db_deliveries db)\<rparr>)"

text \<open>\<^verbatim>\<open>SET acknowledged_at=COALESCE(acknowledged_at,now()),lease_until=NULL\<close>\<close>

definition ack_delivery :: "pg_time \<Rightarrow> delivery_row \<Rightarrow> delivery_row" where
  "ack_delivery now d = d\<lparr>dl_acknowledged_at := Some (coalesce (dl_acknowledged_at d) now), dl_lease_until := None\<rparr>"

text \<open>\<^verbatim>\<open>SET acknowledged_at=NULL,next_attempt_at=now(),lease_until=NULL\<close>\<close>

definition reopen_delivery :: "pg_time \<Rightarrow> delivery_row \<Rightarrow> delivery_row" where
  "reopen_delivery now d = d\<lparr>dl_acknowledged_at := None, dl_next_attempt_at := now, dl_lease_until := None\<rparr>"

subsection \<open>Accepting a request\<close>

definition AcceptHTTPRequest ::
  "http_request \<Rightarrow> acceptance \<Rightarrow> string \<Rightarrow> pg_time \<Rightarrow> proxy_db \<Rightarrow> unit go_result \<times> proxy_db" where
  "AcceptHTTPRequest request acc subject now db =
     (let rid = hq_RequestID request;
          d = new_delivery (ac_DeliveryID acc) acceptance_kind (hq_ClientID request) subject TypeAcceptance
                (marshal_acceptance acc) (Some rid) None None now
      in case request_of rid db of
           None \<Rightarrow>
             (Inr (), insert_delivery d (db\<lparr>db_requests := insert_row (new_request request now) (db_requests db)\<rparr>))
         | Some r \<Rightarrow>
             if rq_client_id r \<noteq> hq_ClientID request \<or> rq_proxy_id r \<noteq> hq_ProxyID request
                \<or> \<not> sameHTTPRequest (rq_request r) request
             then (Inl ErrRequestConflict, db)
             else (Inr (), insert_delivery d
                    (db\<lparr>db_deliveries := update_where
                          (\<lambda>x. sql_eq (dl_request_id x) rid \<and> (dl_kind x = acceptance_kind \<or> dl_kind x = result_kind))
                          (reopen_delivery now) (db_deliveries db)\<rparr>)))"

definition ConfirmAcceptance :: "delivery_ack \<Rightarrow> pg_time \<Rightarrow> proxy_db \<Rightarrow> unit go_result \<times> proxy_db" where
  "ConfirmAcceptance ack now db =
     (case delivery_of (da_DeliveryID ack) db of
        None \<Rightarrow> (Inl ErrNoRows, db)
      | Some d \<Rightarrow>
          (case dl_request_id d of
             None \<Rightarrow> (Inl (ErrText ''cannot scan NULL into *string''), db)
           | Some requestID \<Rightarrow>
               if dl_kind d \<noteq> acceptance_kind \<or> dl_client_id d \<noteq> da_ClientID ack \<or> requestID \<noteq> da_RequestID ack
               then (Inl (ErrText ''acceptance ACK does not match delivery''), db)
               else (Inr (), db\<lparr>
                 db_deliveries := update_where (\<lambda>x. dl_delivery_id x = da_DeliveryID ack) (ack_delivery now) (db_deliveries db),
                 db_requests := update_where
                   (\<lambda>r. rq_request_id r = da_RequestID ack \<and> rq_status r = awaiting_acceptance_ack)
                   (\<lambda>r. r\<lparr>rq_status := ready, rq_updated_at := now\<rparr>) (db_requests db)\<rparr>)))"

subsection \<open>The worker's side of the queue\<close>

definition reservable :: "pg_time \<Rightarrow> request_row \<Rightarrow> bool" where
  "reservable now r \<longleftrightarrow> (rq_status r = ready \<or> rq_status r = retry_wait) \<and> rq_next_attempt_at r \<le> now"

definition ReserveRequest ::
  "go_duration \<Rightarrow> string list \<Rightarrow> bytes \<Rightarrow> pg_time \<Rightarrow> proxy_db \<Rightarrow> operation go_result \<times> proxy_db" where
  "ReserveRequest lease locked entropy now db =
     (case order_limit rq_created_at 1
             (select_where (\<lambda>r. reservable now r \<and> \<not> contains locked (rq_request_id r)) (db_requests db)) of
        [] \<Rightarrow> (Inl ErrNoRows, db)
      | r # _ \<Rightarrow>
          (case unmarshal_struct http_request_fields (rq_request r)
                  (zero_http_request\<lparr>hq_RequestID := rq_request_id r\<rparr>) of
             None \<Rightarrow> (Inl ErrJSON, db)
           | Some request \<Rightarrow>
               let token = randomID entropy
               in (Inr \<lparr>op_Request = request, op_Attempts = rq_attempts r, op_DispatchToken = token\<rparr>,
                   db\<lparr>db_requests := update_where (\<lambda>x. rq_request_id x = hq_RequestID request)
                        (\<lambda>x. x\<lparr>rq_status := reserved, rq_dispatch_token := Some token,
                               rq_lease_until := Some (now + pgInterval lease), rq_updated_at := now\<rparr>)
                        (db_requests db)\<rparr>)))"

definition owned :: "string \<Rightarrow> request_status \<Rightarrow> string \<Rightarrow> request_row \<Rightarrow> bool" where
  "owned requestID st token r \<longleftrightarrow>
     rq_request_id r = requestID \<and> rq_status r = st \<and> sql_eq (rq_dispatch_token r) token"

definition BeginDispatch :: "string \<Rightarrow> string \<Rightarrow> go_duration \<Rightarrow> pg_time \<Rightarrow> proxy_db \<Rightarrow> unit go_result \<times> proxy_db" where
  "BeginDispatch requestID token lease now db =
     (let db' = db\<lparr>db_requests := update_where (owned requestID reserved token)
                   (\<lambda>r. r\<lparr>rq_status := dispatching, rq_attempts := rq_attempts r + 1,
                          rq_lease_until := Some (now + pgInterval lease), rq_updated_at := now\<rparr>)
                   (db_requests db)\<rparr>
      in if rows_affected (owned requestID reserved token) (db_requests db) \<noteq> 1
         then (Inl (ErrText ''dispatch ownership lost''), db')
         else (Inr (), db'))"

definition ReleaseReserved :: "string \<Rightarrow> string \<Rightarrow> pg_time \<Rightarrow> proxy_db \<Rightarrow> unit go_result \<times> proxy_db" where
  "ReleaseReserved requestID token now db =
     (Inr (), db\<lparr>db_requests := update_where (owned requestID reserved token)
        (\<lambda>r. r\<lparr>rq_status := ready, rq_dispatch_token := None, rq_lease_until := None, rq_updated_at := now\<rparr>)
        (db_requests db)\<rparr>)"

definition SaveHTTPResult ::
  "string \<Rightarrow> string \<Rightarrow> string \<Rightarrow> http_result \<Rightarrow> pg_time \<Rightarrow> proxy_db \<Rightarrow> unit go_result \<times> proxy_db" where
  "SaveHTTPResult token clientID subject result now db =
     (let payload = marshal_http_result result;
          rid = rs_RequestID result;
          st = (if rs_State result = ''unknown'' then unknown else http_completed);
          p = owned rid dispatching token;
          d = new_delivery (rs_ResultID result) result_kind clientID subject TypeHTTPResult payload (Some rid) None None now;
          db' = db\<lparr>db_requests := update_where p
                   (\<lambda>r. r\<lparr>rq_status := st, rq_result := Some payload, rq_dispatch_token := None,
                          rq_lease_until := None, rq_updated_at := now\<rparr>) (db_requests db)\<rparr>
      in if rows_affected p (db_requests db) = 0
         then (case request_of rid db of
                 None \<Rightarrow> (Inl ErrNoRows, db)
               | Some r \<Rightarrow>
                   if rq_status r \<noteq> http_completed \<and> rq_status r \<noteq> result_delivered \<and> rq_status r \<noteq> unknown
                   then (Inl (ErrText ''cannot save result after dispatch ownership was lost''), db)
                   else (Inr (), insert_delivery d db'))
         else (Inr (), insert_delivery d db'))"

definition ScheduleRetry ::
  "string \<Rightarrow> string \<Rightarrow> string \<Rightarrow> pg_time \<Rightarrow> pg_time \<Rightarrow> proxy_db \<Rightarrow> unit go_result \<times> proxy_db" where
  "ScheduleRetry requestID token reason next_at now db =
     (let p = owned requestID dispatching token;
          db' = db\<lparr>db_requests := update_where p
                   (\<lambda>r. r\<lparr>rq_status := retry_wait, rq_last_error := Some reason, rq_next_attempt_at := next_at,
                          rq_dispatch_token := None, rq_lease_until := None, rq_updated_at := now\<rparr>)
                   (db_requests db)\<rparr>
      in if rows_affected p (db_requests db) \<noteq> 1
         then (Inl (ErrText ''retry ownership lost''), db')
         else (Inr (), db'))"

definition ConfirmResult :: "delivery_ack \<Rightarrow> pg_time \<Rightarrow> proxy_db \<Rightarrow> unit go_result \<times> proxy_db" where
  "ConfirmResult ack now db =
     (case delivery_of (da_DeliveryID ack) db of
        None \<Rightarrow> (Inl ErrNoRows, db)
      | Some d \<Rightarrow>
          (case dl_request_id d of
             None \<Rightarrow> (Inl (ErrText ''cannot scan NULL into *string''), db)
           | Some requestID \<Rightarrow>
               if dl_kind d \<noteq> result_kind \<or> dl_client_id d \<noteq> da_ClientID ack \<or> requestID \<noteq> da_RequestID ack
               then (Inl (ErrText ''result ACK does not match delivery''), db)
               else (Inr (), db\<lparr>
                 db_deliveries := update_where (\<lambda>x. dl_delivery_id x = da_DeliveryID ack) (ack_delivery now) (db_deliveries db),
                 db_requests := update_where
                   (\<lambda>r. rq_request_id r = requestID \<and> (rq_status r = http_completed \<or> rq_status r = unknown))
                   (\<lambda>r. r\<lparr>rq_status := result_delivered, rq_updated_at := now\<rparr>) (db_requests db)\<rparr>)))"

subsection \<open>Durable deliveries\<close>

definition claimable :: "pg_time \<Rightarrow> delivery_row \<Rightarrow> bool" where
  "claimable now d \<longleftrightarrow> dl_acknowledged_at d = None \<and> dl_next_attempt_at d \<le> now
     \<and> (dl_lease_until d = None \<or> sql_less (dl_lease_until d) now)"

definition ClaimDelivery ::
  "go_duration \<Rightarrow> string list \<Rightarrow> pg_time \<Rightarrow> proxy_db \<Rightarrow> delivery go_result \<times> proxy_db" where
  "ClaimDelivery lease locked now db =
     (case order_limit dl_created_at 1
             (select_where (\<lambda>d. claimable now d \<and> \<not> contains locked (dl_delivery_id d)) (db_deliveries db)) of
        [] \<Rightarrow> (Inl ErrNoRows, db)
      | d # _ \<Rightarrow>
          (Inr \<lparr>de_ID = dl_delivery_id d, de_Kind = dl_kind d, de_ClientID = dl_client_id d, de_Subject = dl_subject d,
                de_MessageType = dl_message_type d, de_Payload = dl_payload d\<rparr>,
           db\<lparr>db_deliveries := update_where (\<lambda>x. dl_delivery_id x = dl_delivery_id d)
                (\<lambda>x. x\<lparr>dl_lease_until := Some (now + pgInterval lease), dl_attempts := dl_attempts x + 1\<rparr>)
                (db_deliveries db)\<rparr>))"

definition RescheduleDelivery :: "string \<Rightarrow> go_duration \<Rightarrow> pg_time \<Rightarrow> proxy_db \<Rightarrow> unit go_result \<times> proxy_db" where
  "RescheduleDelivery deliveryID after now db =
     (Inr (), db\<lparr>db_deliveries := update_where
        (\<lambda>d. dl_delivery_id d = deliveryID \<and> dl_acknowledged_at d = None)
        (\<lambda>d. d\<lparr>dl_next_attempt_at := now + pgInterval after, dl_lease_until := None\<rparr>) (db_deliveries db)\<rparr>)"

end
