(* ===== verification/Repo_Limits.thy ===== *)
theory Repo_Limits
  imports Proxy_Db
begin

text \<open>
  \<^verbatim>\<open>internal/repository/limits.go\<close>: the limits on requests to one target host, shared by all processes of
  a proxy through the database. A permit is granted when fewer than \<open>concurrency\<close> unexpired permits
  exist, the minimum interval since the last dispatch has passed and fewer than \<open>rps\<close> permits were
  granted in the current second. The advisory lock makes the transactions of one host sequential.
\<close>

text \<open>\<^verbatim>\<open>date_trunc('second', now())\<close> on microseconds\<close>

definition trunc_second :: "pg_time \<Rightarrow> pg_time" where
  "trunc_second t = t - t mod 1000000"

text \<open>The upsert into \<^verbatim>\<open>proxy_host_last_dispatch\<close>; \<open>None\<close> when no row was affected.\<close>

definition touch_last_dispatch ::
  "string \<Rightarrow> go_duration \<Rightarrow> pg_time \<Rightarrow> last_dispatch_row list \<Rightarrow> last_dispatch_row list option" where
  "touch_last_dispatch host minInterval now t =
     (case row_by hd_host host t of
        None \<Rightarrow> Some (insert_row \<lparr>hd_host = host, hd_dispatched_at = now\<rparr> t)
      | Some r \<Rightarrow>
          if hd_dispatched_at r \<le> now - pgInterval minInterval
          then Some (update_where (\<lambda>x. hd_host x = host) (\<lambda>x. x\<lparr>hd_dispatched_at := now\<rparr>) t)
          else None)"

text \<open>The upsert into \<^verbatim>\<open>proxy_host_rate_windows\<close>; \<open>None\<close> when no row was affected.\<close>

abbreviation window_key :: "window_row \<Rightarrow> string \<times> pg_time" where
  "window_key w \<equiv> (hw_host w, hw_window_start w)"

definition use_window :: "string \<Rightarrow> int \<Rightarrow> pg_time \<Rightarrow> window_row list \<Rightarrow> window_row list option" where
  "use_window host rps now t =
     (case row_by window_key (host, trunc_second now) t of
        None \<Rightarrow> Some (insert_row \<lparr>hw_host = host, hw_window_start = trunc_second now, hw_used = 1\<rparr> t)
      | Some w \<Rightarrow>
          if hw_used w < rps
          then Some (update_where (\<lambda>x. window_key x = (host, trunc_second now)) (\<lambda>x. x\<lparr>hw_used := hw_used x + 1\<rparr>) t)
          else None)"

definition AcquireHostPermit ::
  "string \<Rightarrow> int \<Rightarrow> int \<Rightarrow> go_duration \<Rightarrow> go_duration \<Rightarrow> bytes \<Rightarrow> pg_time \<Rightarrow> proxy_db \<Rightarrow> string go_result \<times> proxy_db" where
  "AcquireHostPermit host rps concurrency minInterval lease entropy now db =
     (let permits = delete_where (\<lambda>p. hp_lease_until p < now) (db_permits db);
          active = rows_affected (\<lambda>p. hp_host p = host) permits
      in if concurrency \<le> int active then (Inl ErrNoPermit, db)
         else case (if 0 < minInterval then touch_last_dispatch host minInterval now (db_last_dispatch db)
                    else Some (db_last_dispatch db)) of
                None \<Rightarrow> (Inl ErrNoPermit, db)
              | Some last_dispatch \<Rightarrow>
                  (case use_window host rps now (db_windows db) of
                     None \<Rightarrow> (Inl ErrNoPermit, db)
                   | Some windows \<Rightarrow>
                       let token = randomID entropy
                       in if row_exists (\<lambda>p. hp_token p = token) permits
                          then (Inl (ErrConstraint ''proxy_host_permits_pkey''), db)
                          else (Inr token, db\<lparr>
                            db_permits := insert_row \<lparr>hp_token = token, hp_host = host, hp_lease_until = now + pgInterval lease\<rparr> permits,
                            db_last_dispatch := last_dispatch, db_windows := windows\<rparr>)))"

definition ReleaseHostPermit :: "string \<Rightarrow> proxy_db \<Rightarrow> unit go_result \<times> proxy_db" where
  "ReleaseHostPermit token db =
     (Inr (), db\<lparr>db_permits := delete_where (\<lambda>p. hp_token p = token) (db_permits db)\<rparr>)"

end
