(* ===== verification/Gateway_Config.thy ===== *)
theory Gateway_Config
  imports Go_Encoding
begin

text \<open>
  \<^verbatim>\<open>internal/config/config.go\<close>: the configuration read from the environment and the limits per target
  host. The environment (\<^verbatim>\<open>os.Getenv\<close>, which gives the empty string for an unset variable), the host
  name, \<^verbatim>\<open>time.ParseDuration\<close> and \<^verbatim>\<open>url.Parse\<close> are parameters: the statements hold for every behaviour of
  them. A Go map is a list of its entries; \<^verbatim>\<open>put\<close> assigns an entry.
\<close>

record host_limit =
  hl_RPS :: int
  hl_Concurrency :: int
  hl_MinInterval :: go_duration

record config =
  cf_ProxyID :: string
  cf_InstanceID :: string
  cf_HTTPAddr :: string
  cf_PublicBaseURL :: string
  cf_DatabaseURL :: string
  cf_NATSURL :: string
  cf_NATSCredsFile :: string
  cf_NATSCACert :: string
  cf_NATSClientCert :: string
  cf_NATSClientKey :: string
  cf_SigningPrivateKeyFile :: string
  cf_ClientPublicKeys :: "(string \<times> string) list"
  cf_AllowedClients :: "(string \<times> bool) list"
  cf_RequireSignature :: bool
  cf_AutoMigrate :: bool
  cf_Workers :: int
  cf_DeliveryWorkers :: int
  cf_DBMaxConns :: int
  cf_MaxMessageBytes :: int
  cf_MaxRequestBytes :: int
  cf_MaxResponseBytes :: int
  cf_RequestTimeout :: go_duration
  cf_MaxRequestTimeout :: go_duration
  cf_DeliveryRetry :: go_duration
  cf_DispatchLease :: go_duration
  cf_ShutdownTimeout :: go_duration
  cf_Retention :: go_duration
  cf_CleanupInterval :: go_duration
  cf_DefaultHostLimit :: host_limit
  cf_HostLimits :: "(string \<times> host_limit) list"
  cf_WebhookDefaultMaxBody :: int
  cf_WebhookDefaultTimeout :: go_duration

record parsed_url =
  ur_Scheme :: string
  ur_Host :: string

type_synonym environment = "string \<Rightarrow> string"
type_synonym url_parser = "string \<Rightarrow> parsed_url option"
type_synonym duration_parser = "string \<Rightarrow> go_duration option"

fun put :: "'k \<Rightarrow> 'v \<Rightarrow> ('k \<times> 'v) list \<Rightarrow> ('k \<times> 'v) list" where
  "put k v [] = [(k, v)]"
| "put k v ((k', v') # m) = (if k' = k then (k, v) # m else (k', v') # put k v m)"

lemma map_of_put [simp]: "map_of (put k v m) = (map_of m)(k \<mapsto> v)"
  by (induction m) (auto simp: fun_eq_iff)

lemma keys_put: "fst ` set (put k v m) = insert k (fst ` set m)"
proof (induction m)
  case (Cons e m)
  then show ?case by (cases e) (simp add: insert_commute)
qed simp

lemma set_put: "set (put k v m) \<subseteq> insert (k, v) (set m)"
  by (induction m) (auto split: if_splits)

lemma distinct_put: "distinct (map fst m) \<Longrightarrow> distinct (map fst (put k v m))"
  by (induction m) (auto simp: keys_put)

subsection \<open>Values of variables\<close>

definition env_or :: "environment \<Rightarrow> string \<Rightarrow> string \<Rightarrow> string" where
  "env_or env k d = (if env k \<noteq> [] then env k else d)"

definition intVal :: "environment \<Rightarrow> string \<Rightarrow> int \<Rightarrow> int go_result" where
  "intVal env k d =
     (if env k = [] then Inr d
      else case ParseInt (env k) of None \<Rightarrow> Inl (ErrText (k @ '': invalid syntax'')) | Some n \<Rightarrow> Inr n)"

definition int64Val :: "environment \<Rightarrow> string \<Rightarrow> int \<Rightarrow> int go_result" where
  "int64Val env k d =
     (if env k = [] then Inr d
      else case ParseInt (env k) of None \<Rightarrow> Inl (ErrText (k @ '': invalid syntax'')) | Some n \<Rightarrow> Inr n)"

text \<open>\<^verbatim>\<open>strconv.ParseBool\<close>\<close>

definition ParseBool :: "string \<Rightarrow> bool option" where
  "ParseBool s =
     (if s \<in> {''1'', ''t'', ''T'', ''TRUE'', ''true'', ''True''} then Some True
      else if s \<in> {''0'', ''f'', ''F'', ''FALSE'', ''false'', ''False''} then Some False else None)"

definition boolVal :: "environment \<Rightarrow> string \<Rightarrow> bool \<Rightarrow> bool go_result" where
  "boolVal env k d =
     (if env k = [] then Inr d
      else case ParseBool (env k) of None \<Rightarrow> Inl (ErrText (k @ '': invalid syntax'')) | Some b \<Rightarrow> Inr b)"

definition durationVal :: "duration_parser \<Rightarrow> environment \<Rightarrow> string \<Rightarrow> go_duration \<Rightarrow> go_duration go_result" where
  "durationVal parse_duration env k d =
     (if env k = [] then Inr d
      else case parse_duration (env k) of None \<Rightarrow> Inl (ErrText (k @ '': invalid duration'')) | Some n \<Rightarrow> Inr n)"

fun client_keys_of :: "string list \<Rightarrow> (string \<times> string) list \<Rightarrow> (string \<times> string) list" where
  "client_keys_of [] out = out"
| "client_keys_of (entry # entries) out =
     client_keys_of entries
       (case SplitN2 (TrimSpace entry) (CHR ''='') of
          [k, v] \<Rightarrow> if k \<noteq> [] \<and> v \<noteq> [] then put k v out else out
        | _ \<Rightarrow> out)"

definition clientKeys :: "string \<Rightarrow> (string \<times> string) list" where
  "clientKeys v = client_keys_of (Split v (CHR '';'')) []"

fun set_of :: "string list \<Rightarrow> (string \<times> bool) list \<Rightarrow> (string \<times> bool) list" where
  "set_of [] out = out"
| "set_of (x # xs) out = set_of xs (let y = TrimSpace x in if y \<noteq> [] then put y True out else out)"

definition set_var :: "string \<Rightarrow> (string \<times> bool) list" where
  "set_var v = set_of (Split v (CHR '','')) []"

text \<open>One entry \<^verbatim>\<open>host=rps:concurrency[:interval]\<close> of \<^verbatim>\<open>PROXY_HOST_LIMITS\<close>.\<close>

definition host_limit_entry :: "duration_parser \<Rightarrow> string \<Rightarrow> (string \<times> host_limit) go_result" where
  "host_limit_entry parse_duration entry =
     (let bad = Inl (ErrText (''invalid host limit '' @ entry))
      in case SplitN2 entry (CHR ''='') of
           [host, limits] \<Rightarrow>
             (let limit = (\<lambda>r c interval.
                    case (ParseInt r, ParseInt c) of
                      (Some rps, Some concurrency) \<Rightarrow>
                        if rps < 1 \<or> concurrency < 1 then bad
                        else (case interval of
                                None \<Rightarrow> Inr (ToLower host, \<lparr>hl_RPS = rps, hl_Concurrency = concurrency, hl_MinInterval = 0\<rparr>)
                              | Some text \<Rightarrow>
                                  (case parse_duration text of
                                     None \<Rightarrow> bad
                                   | Some d \<Rightarrow> if d < 0 then bad
                                       else Inr (ToLower host, \<lparr>hl_RPS = rps, hl_Concurrency = concurrency, hl_MinInterval = d\<rparr>)))
                    | _ \<Rightarrow> bad)
              in case Split limits (CHR '':'') of
                   [r, c] \<Rightarrow> limit r c None
                 | [r, c, i] \<Rightarrow> limit r c (Some i)
                 | _ \<Rightarrow> bad)
         | _ \<Rightarrow> bad)"

fun host_limits_of ::
  "duration_parser \<Rightarrow> string list \<Rightarrow> (string \<times> host_limit) list \<Rightarrow> (string \<times> host_limit) list go_result" where
  "host_limits_of parse_duration [] out = Inr out"
| "host_limits_of parse_duration (entry # entries) out =
     (if TrimSpace entry = [] then host_limits_of parse_duration entries out
      else go_try (host_limit_entry parse_duration (TrimSpace entry)) (\<lambda>(host, limit).
             host_limits_of parse_duration entries (put host limit out)))"

definition hostLimits :: "duration_parser \<Rightarrow> string \<Rightarrow> (string \<times> host_limit) list go_result" where
  "hostLimits parse_duration v = host_limits_of parse_duration (Split v (CHR '';'')) []"

definition LimitForHost :: "config \<Rightarrow> string \<Rightarrow> host_limit" where
  "LimitForHost c host = (case map_of (cf_HostLimits c) (ToLower host) of Some v \<Rightarrow> v | None \<Rightarrow> cf_DefaultHostLimit c)"

subsection \<open>Reading and checking the configuration\<close>

definition token_chars :: string where "token_chars = ''.*> ''"

definition single_token :: "string \<Rightarrow> bool" where
  "single_token s \<longleftrightarrow> s \<noteq> [] \<and> \<not> ContainsAny s token_chars"

definition absolute_http :: "url_parser \<Rightarrow> string \<Rightarrow> bool" where
  "absolute_http parse s = (case parse s of None \<Rightarrow> False | Some u \<Rightarrow> ur_Host u \<noteq> [] \<and> (ur_Scheme u = ''http'' \<or> ur_Scheme u = ''https''))"

text \<open>The bytes a message needs for a body in base64 and its envelope, in 64-bit arithmetic.\<close>

definition needed_bytes :: "config \<Rightarrow> int" where
  "needed_bytes c = wrap64 (quot (wrap64 (max (cf_MaxRequestBytes c) (cf_MaxResponseBytes c) * 4)) 3 + 65536)"

fun check_clients :: "config \<Rightarrow> (string \<times> bool) list \<Rightarrow> unit go_result" where
  "check_clients c [] = Inr ()"
| "check_clients c ((clientID, _) # rest) =
     check (single_token clientID) (ErrText (''invalid client ID '' @ clientID))
    (check (cf_RequireSignature c \<longrightarrow> map_of (cf_ClientPublicKeys c) clientID \<noteq> None)
       (ErrText (''allowed client '' @ clientID @ '' has no public key''))
     (check_clients c rest))"

definition validate_config :: "url_parser \<Rightarrow> config \<Rightarrow> config go_result" where
  "validate_config url_parse c =
     check (cf_DatabaseURL c \<noteq> []) (ErrText ''PROXY_DATABASE_URL is required'')
    (check (single_token (cf_ProxyID c)) (ErrText ''PROXY_ID must be a single NATS token'')
    (check (single_token (cf_InstanceID c)) (ErrText ''PROXY_INSTANCE_ID must be a single NATS token'')
    (check (\<not> (cf_Workers c < 1 \<or> cf_DeliveryWorkers c < 1 \<or> cf_DBMaxConns c < 4 \<or> hl_RPS (cf_DefaultHostLimit c) < 1
               \<or> hl_Concurrency (cf_DefaultHostLimit c) < 1 \<or> hl_MinInterval (cf_DefaultHostLimit c) < 0))
       (ErrText ''invalid sizing configuration'')
    (check (\<not> (cf_MaxRequestTimeout c < cf_RequestTimeout c \<or> cf_DispatchLease c \<le> cf_MaxRequestTimeout c))
       (ErrText ''dispatch lease must exceed max request timeout'')
    (check (absolute_http url_parse (cf_PublicBaseURL c)) (ErrText ''PROXY_PUBLIC_BASE_URL: absolute HTTP/HTTPS URL is required'')
    (check (\<not> (cf_RequireSignature c \<and> (cf_SigningPrivateKeyFile c = [] \<or> cf_ClientPublicKeys c = [] \<or> cf_AllowedClients c = [])))
       (ErrText ''signing key, client public keys and allowed clients are required'')
    (go_try (check_clients c (cf_AllowedClients c)) (\<lambda>_.
     check (needed_bytes c \<le> cf_MaxMessageBytes c)
       (ErrText (''PROXY_MAX_MESSAGE_BYTES must be at least '' @ FormatInt (needed_bytes c) @ '' for base64 payloads''))
    (check ((cf_NATSClientCert c = []) = (cf_NATSClientKey c = []))
       (ErrText ''NATS client certificate and key must be configured together'')
     (Inr c))))))))))"

definition Load :: "duration_parser \<Rightarrow> url_parser \<Rightarrow> environment \<Rightarrow> string \<Rightarrow> config go_result" where
  "Load parse_duration url_parse env host =
     (let dur = durationVal parse_duration env in
      go_try (intVal env ''PROXY_WORKERS'' 16) (\<lambda>workers.
      go_try (intVal env ''PROXY_DELIVERY_WORKERS'' 4) (\<lambda>deliveryWorkers.
      go_try (intVal env ''PROXY_DB_MAX_CONNS'' 32) (\<lambda>dbMaxConns.
      go_try (int64Val env ''PROXY_MAX_MESSAGE_BYTES'' 8388608) (\<lambda>maxMessage.
      go_try (int64Val env ''PROXY_MAX_REQUEST_BYTES'' 4194304) (\<lambda>maxRequest.
      go_try (int64Val env ''PROXY_MAX_RESPONSE_BYTES'' 4194304) (\<lambda>maxResponse.
      go_try (int64Val env ''PROXY_WEBHOOK_MAX_BODY_BYTES'' 4194304) (\<lambda>webhookBody.
      go_try (intVal env ''PROXY_DEFAULT_HOST_RPS'' 20) (\<lambda>rps.
      go_try (intVal env ''PROXY_DEFAULT_HOST_CONCURRENCY'' 8) (\<lambda>concurrency.
      go_try (dur ''PROXY_DEFAULT_HOST_MIN_INTERVAL'' 0) (\<lambda>minInterval.
      go_try (hostLimits parse_duration (env ''PROXY_HOST_LIMITS'')) (\<lambda>limits.
      go_try (boolVal env ''PROXY_REQUIRE_SIGNATURE'' True) (\<lambda>requireSignature.
      go_try (boolVal env ''PROXY_AUTO_MIGRATE'' False) (\<lambda>autoMigrate.
      go_try (dur ''PROXY_REQUEST_TIMEOUT'' 30000000000) (\<lambda>requestTimeout.
      go_try (dur ''PROXY_MAX_REQUEST_TIMEOUT'' 120000000000) (\<lambda>maxRequestTimeout.
      go_try (dur ''PROXY_DELIVERY_RETRY'' 1000000000) (\<lambda>deliveryRetry.
      go_try (dur ''PROXY_DISPATCH_LEASE'' 180000000000) (\<lambda>dispatchLease.
      go_try (dur ''PROXY_SHUTDOWN_TIMEOUT'' 30000000000) (\<lambda>shutdownTimeout.
      go_try (dur ''PROXY_RETENTION'' 2592000000000000) (\<lambda>retention.
      go_try (dur ''PROXY_CLEANUP_INTERVAL'' 3600000000000) (\<lambda>cleanupInterval.
      go_try (dur ''PROXY_WEBHOOK_RESPONSE_TIMEOUT'' 10000000000) (\<lambda>webhookTimeout.
        validate_config url_parse
          \<lparr>cf_ProxyID = env_or env ''PROXY_ID'' ''default'', cf_InstanceID = env_or env ''PROXY_INSTANCE_ID'' host,
           cf_HTTPAddr = env_or env ''PROXY_HTTP_ADDR'' '':8080'',
           cf_PublicBaseURL = env_or env ''PROXY_PUBLIC_BASE_URL'' ''http://localhost:8080'',
           cf_DatabaseURL = env ''PROXY_DATABASE_URL'', cf_NATSURL = env_or env ''PROXY_NATS_URL'' ''nats://127.0.0.1:4222'',
           cf_NATSCredsFile = env ''PROXY_NATS_CREDS_FILE'', cf_NATSCACert = env ''PROXY_NATS_CA_CERT'',
           cf_NATSClientCert = env ''PROXY_NATS_CLIENT_CERT'', cf_NATSClientKey = env ''PROXY_NATS_CLIENT_KEY'',
           cf_SigningPrivateKeyFile = env ''PROXY_SIGNING_PRIVATE_KEY_FILE'',
           cf_ClientPublicKeys = clientKeys (env ''PROXY_CLIENT_PUBLIC_KEYS''),
           cf_AllowedClients = set_var (env ''PROXY_ALLOWED_CLIENTS''), cf_RequireSignature = requireSignature,
           cf_AutoMigrate = autoMigrate, cf_Workers = workers, cf_DeliveryWorkers = deliveryWorkers,
           cf_DBMaxConns = dbMaxConns, cf_MaxMessageBytes = maxMessage, cf_MaxRequestBytes = maxRequest,
           cf_MaxResponseBytes = maxResponse, cf_RequestTimeout = requestTimeout, cf_MaxRequestTimeout = maxRequestTimeout,
           cf_DeliveryRetry = deliveryRetry, cf_DispatchLease = dispatchLease, cf_ShutdownTimeout = shutdownTimeout,
           cf_Retention = retention, cf_CleanupInterval = cleanupInterval,
           cf_DefaultHostLimit = \<lparr>hl_RPS = rps, hl_Concurrency = concurrency, hl_MinInterval = minInterval\<rparr>,
           cf_HostLimits = limits, cf_WebhookDefaultMaxBody = webhookBody, cf_WebhookDefaultTimeout = webhookTimeout\<rparr>
      ))))))))))))))))))))))"

subsection \<open>What a loaded configuration guarantees\<close>

definition limit_ok :: "host_limit \<Rightarrow> bool" where
  "limit_ok l \<longleftrightarrow> 1 \<le> hl_RPS l \<and> 1 \<le> hl_Concurrency l \<and> 0 \<le> hl_MinInterval l"

lemma host_limit_entry_ok: "host_limit_entry pd entry = Inr (h, l) \<Longrightarrow> limit_ok l \<and> ToLower h = h"
  unfolding host_limit_entry_def Let_def
  by (auto simp: limit_ok_def split: list.splits option.splits if_splits)

lemma host_limits_of_ok:
  "host_limits_of pd entries out = Inr m \<Longrightarrow> \<forall>(h, l) \<in> set out. limit_ok l \<and> ToLower h = h \<Longrightarrow>
   \<forall>(h, l) \<in> set m. limit_ok l \<and> ToLower h = h"
proof (induction entries arbitrary: out)
  case (Cons entry entries)
  show ?case
  proof (cases "TrimSpace entry = []")
    case True
    then show ?thesis using Cons by simp
  next
    case False
    then obtain h l where hl: "host_limit_entry pd (TrimSpace entry) = Inr (h, l)"
      and rest: "host_limits_of pd entries (put h l out) = Inr m"
      using Cons.prems(1) by (auto simp: go_try_eq_Inr)
    have "\<forall>(h, l) \<in> set (put h l out). limit_ok l \<and> ToLower h = h"
      using set_put [of h l out] Cons.prems(2) host_limit_entry_ok [OF hl] by auto
    then show ?thesis by (rule Cons.IH [OF rest])
  qed
qed simp

lemma hostLimits_ok: "hostLimits pd v = Inr m \<Longrightarrow> (h, l) \<in> set m \<Longrightarrow> limit_ok l"
  using host_limits_of_ok [of pd "Split v (CHR '';'')" "[]" m] by (auto simp: hostLimits_def)

lemma check_clients_ok:
  "check_clients c cs = Inr u \<Longrightarrow> (clientID, b) \<in> set cs \<Longrightarrow>
   single_token clientID \<and> (cf_RequireSignature c \<longrightarrow> map_of (cf_ClientPublicKeys c) clientID \<noteq> None)"
  by (induction cs) (auto simp: check_eq_Inr)

lemma validate_config_ok: "validate_config url_parse c = Inr c' \<longleftrightarrow> c' = c \<and> validate_config url_parse c = Inr c"
  by (auto simp: validate_config_def check_eq_Inr go_try_eq_Inr)

lemma Load_validated:
  assumes "Load pd url_parse env host = Inr c"
  shows "validate_config url_parse c = Inr c \<and> hostLimits pd (env ''PROXY_HOST_LIMITS'') = Inr (cf_HostLimits c)"
proof -
  from assms obtain limits c0 where "hostLimits pd (env ''PROXY_HOST_LIMITS'') = Inr limits"
    "validate_config url_parse c0 = Inr c" "cf_HostLimits c0 = limits"
    unfolding Load_def Let_def go_try_eq_Inr by auto
  then show ?thesis using validate_config_ok [of url_parse c0 c] by auto
qed

lemma LimitForHost_ok:
  assumes "Load pd url_parse env host = Inr c"
  shows "limit_ok (LimitForHost c h)"
proof (cases "map_of (cf_HostLimits c) (ToLower h)")
  case None
  have "limit_ok (cf_DefaultHostLimit c)"
    using Load_validated [OF assms] by (auto simp: validate_config_def check_eq_Inr go_try_eq_Inr limit_ok_def)
  then show ?thesis using None by (simp add: LimitForHost_def)
next
  case (Some l)
  then show ?thesis using hostLimits_ok Load_validated [OF assms] by (auto simp: LimitForHost_def dest: map_of_SomeD)
qed

end
