(* ===== verification/Http_Executor.thy ===== *)
theory Http_Executor
  imports Contracts Gateway_Config "HOL-Library.Char_ord" "HOL-Library.List_Lexorder"
begin

text \<open>
  \<^verbatim>\<open>internal/httpx/executor.go\<close>: building the outgoing HTTP request from a stored one and reading the
  response. The HTTP client and the network behind it are a parameter (\<open>net\<close>), as is the check that
  \<^verbatim>\<open>http.NewRequestWithContext\<close> makes of method and URL (\<open>build\<close>, which gives the host of the URL).

  An \<^verbatim>\<open>http.Header\<close> is a list of its entries: a canonical name and the values added under it.
\<close>

type_synonym http_header = "(string \<times> string list) list"

record http_call =
  hc_Method :: string
  hc_URL :: string
  hc_Host :: string
  hc_ContentLength :: int
  hc_Header :: http_header
  hc_Body :: bytes

text \<open>\<open>hr_broken\<close> says that reading the body fails after the bytes of \<open>hr_Body\<close>.\<close>

record http_response =
  hr_StatusCode :: int
  hr_Header :: http_header
  hr_Body :: bytes
  hr_broken :: bool

subsection \<open>Header names\<close>

definition token_byte :: "char \<Rightarrow> bool" where
  "token_byte c = (let n = (of_char c :: nat) in
     48 \<le> n \<and> n \<le> 57 \<or> 65 \<le> n \<and> n \<le> 90 \<or> 97 \<le> n \<and> n \<le> 122 \<or> c \<in> set ''!#$%&*+-.^_`|~'' \<or> n = 39)"

definition to_upper_char :: "char \<Rightarrow> char" where
  "to_upper_char c = (let n = (of_char c :: nat) in if 97 \<le> n \<and> n \<le> 122 then char_of (n - 32) else c)"

fun canonical_bytes :: "bool \<Rightarrow> string \<Rightarrow> string" where
  "canonical_bytes upper [] = []"
| "canonical_bytes upper (c # cs) =
     (if upper then to_upper_char c else to_lower_char c) # canonical_bytes (c = CHR ''-'') cs"

definition CanonicalMIMEHeaderKey :: "string \<Rightarrow> string" where
  "CanonicalMIMEHeaderKey s = (if list_all token_byte s then canonical_bytes True s else s)"

definition validHeaderName :: "string \<Rightarrow> bool" where
  "validHeaderName v \<longleftrightarrow> v \<noteq> [] \<and> CanonicalMIMEHeaderKey v \<noteq> []"

text \<open>\<^verbatim>\<open>Header.Add\<close> and \<^verbatim>\<open>Header.Values\<close>\<close>

definition header_values :: "http_header \<Rightarrow> string \<Rightarrow> string list" where
  "header_values h k = (case map_of h (CanonicalMIMEHeaderKey k) of None \<Rightarrow> [] | Some vs \<Rightarrow> vs)"

definition header_add :: "string \<Rightarrow> string \<Rightarrow> http_header \<Rightarrow> http_header" where
  "header_add k v h = put (CanonicalMIMEHeaderKey k) (header_values h k @ [v]) h"

definition headerFields :: "http_header \<Rightarrow> header_field list" where
  "headerFields h = concat (map (\<lambda>k. map (\<lambda>v. \<lparr>hf_Name = k, hf_Value = v\<rparr>) (header_values h k)) (sort (map fst h)))"

subsection \<open>One HTTP exchange\<close>

fun set_headers :: "header_field list \<Rightarrow> http_call \<Rightarrow> http_call go_result" where
  "set_headers [] req = Inr req"
| "set_headers (h # hs) req =
     (if \<not> validHeaderName (hf_Name h) \<or> ContainsAny (hf_Value h) [byte_of 13, byte_of 10]
      then Inl (ErrText (''invalid header '' @ hf_Name h))
      else if ToLower (hf_Name h) = ''host'' then set_headers hs (req\<lparr>hc_Host := hf_Value h\<rparr>)
      else if ToLower (hf_Name h) = ''content-length''
      then (case ParseInt (hf_Value h) of
              None \<Rightarrow> Inl (ErrText ''invalid Content-Length'')
            | Some n \<Rightarrow> if n < 0 then Inl (ErrText ''invalid Content-Length'') else set_headers hs (req\<lparr>hc_ContentLength := n\<rparr>))
      else set_headers hs (req\<lparr>hc_Header := header_add (hf_Name h) (hf_Value h) (hc_Header req)\<rparr>))"

definition Do ::
  "(string \<Rightarrow> string \<Rightarrow> string go_result) \<Rightarrow> (http_call \<Rightarrow> http_response go_result) \<Rightarrow> int \<Rightarrow> http_request \<Rightarrow> http_result go_result" where
  "Do build net maxResponse in_req =
     go_try (build (hq_Method in_req) (hq_URL in_req)) (\<lambda>host.
     go_try (set_headers (hq_Headers in_req)
               \<lparr>hc_Method = hq_Method in_req, hc_URL = hq_URL in_req, hc_Host = host,
                hc_ContentLength = int (length (hq_Body in_req)), hc_Header = [], hc_Body = hq_Body in_req\<rparr>) (\<lambda>req.
     go_try (net req) (\<lambda>resp.
       let limit = nat (maxResponse + 1); body = take limit (hr_Body resp)
       in if hr_broken resp \<and> length (hr_Body resp) < limit then Inl (ErrText ''read response: unexpected EOF'')
          else if maxResponse < int (length body) then Inl (ErrText ''response body exceeds configured limit'')
          else Inr (zero_http_result\<lparr>rs_StatusCode := hr_StatusCode resp, rs_Headers := headerFields (hr_Header resp),
                      rs_Body := body\<rparr>))))"

lemma canonical_bytes_Nil [simp]: "canonical_bytes u s = [] \<longleftrightarrow> s = []"
  by (cases s) auto

lemma validHeaderName_iff: "validHeaderName v \<longleftrightarrow> v \<noteq> []"
  by (simp add: validHeaderName_def CanonicalMIMEHeaderKey_def)

lemma Do_result:
  assumes "Do build net maxResponse q = Inr r"
  shows "int (length (rs_Body r)) \<le> maxResponse" and "rs_ResultID r = []"
    and "\<exists>req resp. net req = Inr resp \<and> rs_Body r = hr_Body resp \<and> rs_StatusCode r = hr_StatusCode resp
           \<and> rs_Headers r = headerFields (hr_Header resp) \<and> hc_Body req = hq_Body q"
proof -
  obtain host req resp where req: "set_headers (hq_Headers q)
               \<lparr>hc_Method = hq_Method q, hc_URL = hq_URL q, hc_Host = host,
                hc_ContentLength = int (length (hq_Body q)), hc_Header = [], hc_Body = hq_Body q\<rparr> = Inr req"
    and net: "net req = Inr resp"
    and len: "int (length (take (nat (maxResponse + 1)) (hr_Body resp))) \<le> maxResponse"
    and r: "r = zero_http_result\<lparr>rs_StatusCode := hr_StatusCode resp, rs_Headers := headerFields (hr_Header resp),
                      rs_Body := take (nat (maxResponse + 1)) (hr_Body resp)\<rparr>"
    using assms unfolding Do_def go_try_eq_Inr Let_def by (auto split: if_splits)
  have body: "set_headers hs c = Inr c' \<Longrightarrow> hc_Body c' = hc_Body c" for hs c c'
    by (induction hs arbitrary: c) (auto split: if_splits option.splits)
  have "take (nat (maxResponse + 1)) (hr_Body resp) = hr_Body resp"
    using len by (cases "length (hr_Body resp) \<le> nat (maxResponse + 1)") (auto split: if_splits)
  then show "\<exists>req resp. net req = Inr resp \<and> rs_Body r = hr_Body resp \<and> rs_StatusCode r = hr_StatusCode resp
           \<and> rs_Headers r = headerFields (hr_Header resp) \<and> hc_Body req = hq_Body q"
    using net body [OF req] by (auto simp: r)
  show "int (length (rs_Body r)) \<le> maxResponse" "rs_ResultID r = []"
    using len by (simp_all add: r zero_http_result_def)
qed

end
