(* ===== verification/Worker_Pool.thy ===== *)
theory Worker_Pool
  imports Repo_Limits Repo_Outgoing Http_Executor
begin

text \<open>
  \<^verbatim>\<open>internal/worker/worker.go\<close>: what one worker does with a reserved request. The call is cut where the
  worker touches the database or the network, since other workers, the message handlers and the
  maintenance job run between these points; \<open>worker_state\<close> is the point a worker has reached.

  A call of the database can fail before it takes effect or, when the connection breaks, after it:
  \<open>db_call\<close> with a \<open>fault\<close>.
\<close>

datatype worker_state =
    Idle
  | Reserved operation
  | Permitted operation string
  | Dispatched operation string
  | InFlight operation string
  | Retrying operation string string pg_time
  | Saving operation string http_result
  | Panicked

datatype fault = NoFault | LostCall | LostReply

definition db_call :: "fault \<Rightarrow> ('d \<Rightarrow> 'a go_result \<times> 'd) \<Rightarrow> 'd \<Rightarrow> 'a go_result \<times> 'd" where
  "db_call flt f db =
     (case flt of NoFault \<Rightarrow> f db | LostCall \<Rightarrow> (Inl ErrUnavailable, db) | LostReply \<Rightarrow> (Inl ErrUnavailable, snd (f db)))"

subsection \<open>Retries\<close>

definition safe_method :: "http_request \<Rightarrow> bool" where
  "safe_method req \<longleftrightarrow> hq_Method req = ''GET'' \<or> hq_Method req = ''HEAD'' \<or> hq_Method req = ''OPTIONS'' \<or> rp_Idempotent (hq_Retry req)"

definition canRetry :: "http_request \<Rightarrow> int \<Rightarrow> bool \<Rightarrow> int \<Rightarrow> bool" where
  "canRetry req attempt network status =
     (let max = (if rp_MaxAttempts (hq_Retry req) \<le> 0 then 1 else rp_MaxAttempts (hq_Retry req))
      in if max \<le> attempt then False
         else if \<not> safe_method req then False
         else if network then rp_RetryNetworkFail (hq_Retry req)
         else list_ex (\<lambda>s. s = status) (rp_RetryStatuses (hq_Retry req)))"

text \<open>\<^verbatim>\<open>for i := 1; i < attempt && i < 20; i++ { d *= 2 }\<close> in 64-bit arithmetic\<close>

function backoff_loop :: "int \<Rightarrow> int \<Rightarrow> go_duration \<Rightarrow> go_duration" where
  "backoff_loop i attempt d = (if i < attempt \<and> i < 20 then backoff_loop (i + 1) attempt (wrap64 (d * 2)) else d)"
  by auto
termination by (relation "measure (\<lambda>(i, a, d). nat (20 - i))") auto

declare backoff_loop.simps [simp del]

text \<open>
  \<^verbatim>\<open>rand.Int64N(n)\<close> panics for \<open>n \<le> 0\<close>; the model returns \<open>None\<close> then. \<open>draw n\<close> is the number it returns
  otherwise.
\<close>

definition Int64N :: "(int \<Rightarrow> int) \<Rightarrow> int \<Rightarrow> int option" where
  "Int64N draw n = (if n \<le> 0 then None else Some (draw n))"

definition backoff_base :: "retry_policy \<Rightarrow> int \<Rightarrow> go_duration" where
  "backoff_base policy attempt =
     (let d0 = (if rp_InitialBackoff policy \<le> 0 then 1000000000 else rp_InitialBackoff policy);
          d = backoff_loop 1 attempt d0
      in if 0 < rp_MaxBackoff policy \<and> rp_MaxBackoff policy < d then rp_MaxBackoff policy else d)"

definition backoff :: "(int \<Rightarrow> int) \<Rightarrow> retry_policy \<Rightarrow> int \<Rightarrow> go_duration option" where
  "backoff draw policy attempt =
     (let d = backoff_base policy attempt
      in map_option (\<lambda>j. wrap64 (d + j)) (Int64N draw (wrap64 (quot d 2 + 1))))"

definition mustHost :: "url_parser \<Rightarrow> string \<Rightarrow> string" where
  "mustHost url_parse raw = (case url_parse raw of None \<Rightarrow> raw | Some u \<Rightarrow> ur_Host u)"

definition call_timeout :: "config \<Rightarrow> http_request \<Rightarrow> go_duration" where
  "call_timeout cfg req =
     (let timeout = (if hq_Timeout req \<le> 0 then cf_RequestTimeout cfg else hq_Timeout req)
      in if cf_MaxRequestTimeout cfg < timeout then cf_MaxRequestTimeout cfg else timeout)"

text \<open>\<^verbatim>\<open>Error()\<close> of the sentinel errors; the text of a failed library call is not fixed.\<close>

definition error_text :: "go_error \<Rightarrow> string" where
  "error_text e =
     (case e of
        ErrText s \<Rightarrow> s
      | ErrContextDone \<Rightarrow> ''context deadline exceeded''
      | ErrNoRows \<Rightarrow> ''no rows in result set''
      | ErrRequestConflict \<Rightarrow> ''request_id already belongs to another request''
      | ErrNoPermit \<Rightarrow> ''host limit reached''
      | ErrOperationNotFound \<Rightarrow> ''proxy client operation not found''
      | _ \<Rightarrow> ''error'')"

subsection \<open>The parts of execute\<close>

abbreviation op_rid :: "operation \<Rightarrow> string" where
  "op_rid op \<equiv> hq_RequestID (op_Request op)"

definition execute_acquire ::
  "config \<Rightarrow> url_parser \<Rightarrow> fault \<Rightarrow> fault \<Rightarrow> bytes \<Rightarrow> pg_time \<Rightarrow> operation \<Rightarrow> proxy_db \<Rightarrow> worker_state \<times> proxy_db" where
  "execute_acquire cfg url_parse f1 f2 entropy now op db =
     (let host = ToLower (mustHost url_parse (hq_URL (op_Request op)));
          limit = LimitForHost cfg host
      in case db_call f1 (AcquireHostPermit host (hl_RPS limit) (hl_Concurrency limit) (hl_MinInterval limit)
                            (wrap64 (cf_MaxRequestTimeout cfg + 60000000000)) entropy now) db of
           (Inl _, db1) \<Rightarrow> (Idle, snd (db_call f2 (ReleaseReserved (op_rid op) (op_DispatchToken op) now) db1))
         | (Inr permit, db1) \<Rightarrow> (Permitted op permit, db1))"

text \<open>The deferred release of the permit, on every way out of \<^verbatim>\<open>execute\<close> from here on.\<close>

definition leave :: "fault \<Rightarrow> string \<Rightarrow> proxy_db \<Rightarrow> worker_state \<times> proxy_db" where
  "leave f permit db = (Idle, snd (db_call f (ReleaseHostPermit permit) db))"

definition execute_dispatch ::
  "config \<Rightarrow> fault \<Rightarrow> fault \<Rightarrow> pg_time \<Rightarrow> operation \<Rightarrow> string \<Rightarrow> proxy_db \<Rightarrow> worker_state \<times> proxy_db" where
  "execute_dispatch cfg f1 f2 now op permit db =
     (case db_call f1 (BeginDispatch (op_rid op) (op_DispatchToken op) (cf_DispatchLease cfg) now) db of
        (Inl _, db1) \<Rightarrow> leave f2 permit db1
      | (Inr _, db1) \<Rightarrow> (Dispatched op permit, db1))"

text \<open>What follows the HTTP exchange: \<open>clock\<close> is the process's clock.\<close>

definition final_result :: "config \<Rightarrow> operation \<Rightarrow> go_time \<Rightarrow> http_result \<Rightarrow> http_result" where
  "final_result cfg op clock result =
     result\<lparr>rs_ResultID := ''result_'' @ op_rid op, rs_RequestID := op_rid op, rs_ProxyID := cf_ProxyID cfg,
       rs_Attempts := op_Attempts op + 1, rs_CompletedAt := clock\<rparr>"

definition execute_reply ::
  "config \<Rightarrow> (int \<Rightarrow> int) \<Rightarrow> go_time \<Rightarrow> operation \<Rightarrow> string \<Rightarrow> http_result go_result \<Rightarrow> worker_state" where
  "execute_reply cfg draw clock op permit outcome =
     (let attempt = op_Attempts op + 1;
          retry = (\<lambda>reason. case backoff draw (hq_Retry (op_Request op)) attempt of
                             None \<Rightarrow> Panicked
                           | Some d \<Rightarrow> Retrying op permit reason ((clock + d) div 1000))
      in case outcome of
           Inl e \<Rightarrow>
             if canRetry (op_Request op) attempt True 0 then retry (error_text e)
             else Saving op permit (final_result cfg op clock
                    (zero_http_result\<lparr>rs_State := ''unknown'', rs_ErrorCode := ''http_outcome_unknown'', rs_Error := error_text e\<rparr>))
         | Inr result \<Rightarrow>
             if canRetry (op_Request op) attempt False (rs_StatusCode result)
             then retry (''HTTP '' @ FormatInt (rs_StatusCode result))
             else Saving op permit (final_result cfg op clock (result\<lparr>rs_State := ''http_completed''\<rparr>)))"

definition execute_retry ::
  "fault \<Rightarrow> fault \<Rightarrow> pg_time \<Rightarrow> operation \<Rightarrow> string \<Rightarrow> string \<Rightarrow> pg_time \<Rightarrow> proxy_db \<Rightarrow> worker_state \<times> proxy_db" where
  "execute_retry f1 f2 now op permit reason next_at db =
     leave f2 permit (snd (db_call f1 (ScheduleRetry (op_rid op) (op_DispatchToken op) reason next_at now) db))"

definition results_subject :: "config \<Rightarrow> string \<Rightarrow> string" where
  "results_subject cfg clientID = ''client.'' @ clientID @ ''.proxy.'' @ cf_ProxyID cfg @ ''.results''"

text \<open>One turn of the loop that stores the result; it stays in the loop after an error.\<close>

definition execute_save ::
  "config \<Rightarrow> fault \<Rightarrow> fault \<Rightarrow> pg_time \<Rightarrow> operation \<Rightarrow> string \<Rightarrow> http_result \<Rightarrow> proxy_db \<Rightarrow> worker_state \<times> proxy_db" where
  "execute_save cfg f1 f2 now op permit result db =
     (case db_call f1 (SaveHTTPResult (op_DispatchToken op) (hq_ClientID (op_Request op))
                         (results_subject cfg (hq_ClientID (op_Request op))) result now) db of
        (Inl _, db1) \<Rightarrow> (Saving op permit result, db1)
      | (Inr _, db1) \<Rightarrow> leave f2 permit db1)"

text \<open>The head of the loop in \<^verbatim>\<open>run\<close>.\<close>

definition run_reserve :: "config \<Rightarrow> fault \<Rightarrow> string list \<Rightarrow> bytes \<Rightarrow> pg_time \<Rightarrow> proxy_db \<Rightarrow> worker_state \<times> proxy_db" where
  "run_reserve cfg f locked entropy now db =
     (case db_call f (ReserveRequest (cf_DispatchLease cfg) locked entropy now) db of
        (Inl _, db1) \<Rightarrow> (Idle, db1)
      | (Inr op, db1) \<Rightarrow> (Reserved op, db1))"

end
