(* ===== verification/Transport_Core.thy ===== *)
theory Transport_Core
  imports Message_Envelope Repo_Outgoing Worker_Pool
begin

text \<open>
  \<^verbatim>\<open>internal/transport/core.go\<close>, \<^verbatim>\<open>outgoing.go\<close> and \<^verbatim>\<open>delivery.go\<close>: decoding and authenticating NATS
  messages, publishing, the handlers of outgoing requests and their confirmations, and one turn of
  the loop that sends durable deliveries.

  A handler is a function of the message and the database to the database and the messages it
  publishes. The text form of JSON (\<open>wire_lib\<close>), the clocks, random bytes and failures of the database
  and of NATS (\<open>io\<close>) are arguments.
\<close>

record wire_lib =
  wl_env_parse :: "bytes \<Rightarrow> envelope option"
  wl_env_text :: "envelope \<Rightarrow> bytes"
  wl_parse :: "bytes \<Rightarrow> json option"
  wl_text :: "json \<Rightarrow> bytes"

record io =
  io_now :: pg_time
  io_clock :: go_time
  io_entropy :: bytes
  io_fault :: fault
  io_published :: bool

record nats_msg =
  nm_Subject :: string
  nm_Data :: bytes

record core =
  tc_proxyID :: string
  tc_instanceID :: string
  tc_publicBaseURL :: string
  tc_signer :: bytes
  tc_keys :: "bytes list"
  tc_clientByKeyID :: "(string \<times> string) list"
  tc_allowed :: "(string \<times> bool) list"
  tc_requireSignature :: bool
  tc_deliveryRetry :: go_duration
  tc_maxMessageBytes :: int
  tc_maxRequestBytes :: int

definition new_core :: "config \<Rightarrow> bytes \<Rightarrow> (string \<times> bytes) list \<Rightarrow> (string \<times> string) list \<Rightarrow> core" where
  "new_core cfg signer keys clientByKeyID =
     \<lparr>tc_proxyID = cf_ProxyID cfg, tc_instanceID = cf_InstanceID cfg, tc_publicBaseURL = TrimRight (cf_PublicBaseURL cfg) ''/'',
      tc_signer = signer, tc_keys = map snd keys, tc_clientByKeyID = clientByKeyID, tc_allowed = cf_AllowedClients cfg,
      tc_requireSignature = cf_RequireSignature cfg, tc_deliveryRetry = cf_DeliveryRetry cfg,
      tc_maxMessageBytes = cf_MaxMessageBytes cfg, tc_maxRequestBytes = cf_MaxRequestBytes cfg\<rparr>"

definition clientSubject :: "core \<Rightarrow> string \<Rightarrow> string \<Rightarrow> string" where
  "clientSubject c clientID ending = ''client.'' @ clientID @ ''.proxy.'' @ tc_proxyID c @ ''.'' @ ending"

definition allowedClient :: "core \<Rightarrow> string \<Rightarrow> bool" where
  "allowedClient c clientID \<longleftrightarrow> clientID \<noteq> [] \<and> map_of (tc_allowed c) clientID = Some True"

definition natsKind :: "string \<Rightarrow> string" where
  "natsKind subject =
     (if Contains subject ''webhooks.commands'' then ''callback_registration''
      else if Contains subject ''webhooks'' then ''callback'' else ''regular'')"

definition requestSubject :: "core \<Rightarrow> string" where
  "requestSubject c = ''proxy.'' @ tc_proxyID c @ ''.requests''"

definition acceptedACKSubject :: "core \<Rightarrow> string" where
  "acceptedACKSubject c = ''proxy.'' @ tc_proxyID c @ ''.accepted_acks''"

definition resultACKSubject :: "core \<Rightarrow> string" where
  "resultACKSubject c = ''proxy.'' @ tc_proxyID c @ ''.result_acks''"

subsection \<open>Publishing\<close>

definition PublishRaw ::
  "core \<Rightarrow> crypto_lib \<Rightarrow> wire_lib \<Rightarrow> io \<Rightarrow> string \<Rightarrow> string \<Rightarrow> json \<Rightarrow> unit go_result \<times> nats_msg list" where
  "PublishRaw c lib wl io subject messageType payload =
     (let data = wl_env_text wl (NewEnvelope lib (io_entropy io) (io_clock io) messageType (wl_text wl payload) (tc_signer c))
      in if tc_maxMessageBytes c < int (length data) then (Inl (ErrText ''NATS message exceeds configured limit''), [])
         else if io_published io then (Inr (), [\<lparr>nm_Subject = subject, nm_Data = data\<rparr>])
         else (Inl ErrUnavailable, []))"

definition PublishHTTPResult ::
  "core \<Rightarrow> crypto_lib \<Rightarrow> wire_lib \<Rightarrow> io \<Rightarrow> string \<Rightarrow> http_result \<Rightarrow> unit go_result \<times> nats_msg list" where
  "PublishHTTPResult c lib wl io clientID result =
     PublishRaw c lib wl io (clientSubject c clientID ''results'') TypeHTTPResult (marshal_http_result result)"

text \<open>
  The worker's first publication of a result, before it stores it: the client may persist it first. A
  failure is ignored.
\<close>

definition execute_publish :: "core \<Rightarrow> crypto_lib \<Rightarrow> wire_lib \<Rightarrow> io \<Rightarrow> operation \<Rightarrow> http_result \<Rightarrow> nats_msg list" where
  "execute_publish c lib wl io op result = snd (PublishHTTPResult c lib wl io (hq_ClientID (op_Request op)) result)"

subsection \<open>Decoding and authentication\<close>

text \<open>
  The anonymous struct with the one field \<^verbatim>\<open>client_id\<close>; errors of \<^verbatim>\<open>json.Unmarshal\<close> are ignored, which
  keeps the last string found under that name.
\<close>

fun identity_members :: "(string \<times> json) list \<Rightarrow> string \<Rightarrow> string" where
  "identity_members [] acc = acc"
| "identity_members ((k, v) # ms) acc =
     identity_members ms (if ToLower k = ''client_id'' then (case v of JStr s \<Rightarrow> coerce_utf8 s | _ \<Rightarrow> acc) else acc)"

definition payload_identity :: "wire_lib \<Rightarrow> bytes \<Rightarrow> string" where
  "payload_identity wl payload = (case wl_parse wl payload of Some (JObj ms) \<Rightarrow> identity_members ms [] | _ \<Rightarrow> [])"

definition decodeAny ::
  "core \<Rightarrow> crypto_lib \<Rightarrow> wire_lib \<Rightarrow> go_time \<Rightarrow> bytes \<Rightarrow> (string \<times> bytes \<times> string) go_result" where
  "decodeAny c lib wl clock data =
     (if tc_maxMessageBytes c < int (length data) then Inl (ErrText ''message too large'')
      else case wl_env_parse wl data of
             None \<Rightarrow> Inl ErrJSON
           | Some e \<Rightarrow>
               go_try (if tc_requireSignature c
                       then go_try (VerifyKey lib clock e (tc_keys c) 300000000000)
                              (\<lambda>keyID. Inr (string_at (tc_clientByKeyID c) keyID))
                       else Inr (payload_identity wl (en_Payload e))) (\<lambda>clientID.
               check (allowedClient c clientID) (ErrText ''client is not allowed'')
                 (Inr (clientID, en_Payload e, en_Type e))))"

definition decode ::
  "core \<Rightarrow> crypto_lib \<Rightarrow> wire_lib \<Rightarrow> go_time \<Rightarrow> bytes \<Rightarrow> string \<Rightarrow> (string \<times> bytes) go_result" where
  "decode c lib wl clock data expectedType =
     go_try (decodeAny c lib wl clock data) (\<lambda>(clientID, payload, actualType).
       check (actualType = expectedType) (ErrText (''expected '' @ expectedType @ '', got '' @ actualType))
         (Inr (clientID, payload)))"

definition read_json :: "wire_lib \<Rightarrow> (json \<Rightarrow> 'a option) \<Rightarrow> bytes \<Rightarrow> 'a go_result" where
  "read_json wl unmarshal payload =
     (case wl_parse wl payload of None \<Rightarrow> Inl ErrJSON
      | Some j \<Rightarrow> (case unmarshal j of None \<Rightarrow> Inl ErrJSON | Some a \<Rightarrow> Inr a))"

subsection \<open>Outgoing requests\<close>

definition validateRequest :: "core \<Rightarrow> url_parser \<Rightarrow> http_request \<Rightarrow> string \<Rightarrow> unit go_result" where
  "validateRequest c url_parse request client =
     check (\<not> (hq_RequestID request = [] \<or> hq_ClientID request \<noteq> client \<or> hq_ProxyID request \<noteq> tc_proxyID c))
       (ErrText ''request identity mismatch'')
    (check (allowedClient c client) (ErrText ''client is not allowed on this proxy'')
    (check (int (length (hq_Body request)) \<le> tc_maxRequestBytes c) (ErrText ''request body exceeds NATS contract limit'')
    (check (hq_Method request \<noteq> []) (ErrText ''method is required'')
    (check (absolute_http url_parse (hq_URL request)) (ErrText ''absolute HTTP/HTTPS URL is required'')
    (check (\<not> (rp_MaxAttempts (hq_Retry request) < 0 \<or> 20 < rp_MaxAttempts (hq_Retry request))) (ErrText ''invalid retry attempts'')
     (Inr ()))))))"

definition rejectRequest ::
  "core \<Rightarrow> crypto_lib \<Rightarrow> wire_lib \<Rightarrow> io \<Rightarrow> string \<Rightarrow> string \<Rightarrow> string \<Rightarrow> go_error \<Rightarrow> nats_msg list" where
  "rejectRequest c lib wl io clientID requestID code cause =
     snd (PublishRaw c lib wl io (clientSubject c clientID ''accepted'') TypeAcceptance
       (marshal_acceptance (zero_acceptance\<lparr>ac_RequestID := requestID, ac_ProxyID := tc_proxyID c, ac_Accepted := False,
          ac_ErrorCode := code, ac_Error := error_text cause, ac_AcceptedAt := io_clock io\<rparr>)))"

definition acceptance_for :: "core \<Rightarrow> go_time \<Rightarrow> http_request \<Rightarrow> acceptance" where
  "acceptance_for c clock request =
     zero_acceptance\<lparr>ac_RequestID := hq_RequestID request, ac_DeliveryID := ''accept_'' @ hq_RequestID request,
       ac_ProxyID := tc_proxyID c, ac_Accepted := True, ac_AcceptedAt := clock\<rparr>"

definition handleRequest ::
  "core \<Rightarrow> crypto_lib \<Rightarrow> wire_lib \<Rightarrow> url_parser \<Rightarrow> io \<Rightarrow> bytes \<Rightarrow> proxy_db \<Rightarrow> proxy_db \<times> nats_msg list" where
  "handleRequest c lib wl url_parse io data db =
     (case decode c lib wl (io_clock io) data TypeHTTPRequest of
        Inl _ \<Rightarrow> (db, [])
      | Inr (client, payload) \<Rightarrow>
          (case read_json wl unmarshal_http_request payload of
             Inl _ \<Rightarrow> (db, [])
           | Inr request \<Rightarrow>
               (case validateRequest c url_parse request client of
                  Inl err \<Rightarrow> (db, rejectRequest c lib wl io client (hq_RequestID request) ''invalid_request'' err)
                | Inr _ \<Rightarrow>
                    (case db_call (io_fault io) (AcceptHTTPRequest request (acceptance_for c (io_clock io) request)
                            (clientSubject c client ''accepted'') (io_now io)) db of
                       (Inr _, db') \<Rightarrow> (db', [])
                     | (Inl ErrRequestConflict, db') \<Rightarrow>
                         (db', rejectRequest c lib wl io client (hq_RequestID request) ''request_id_conflict'' ErrRequestConflict)
                     | (Inl _, db') \<Rightarrow> (db', [])))))"

definition ack_confirmed_msg :: "core \<Rightarrow> crypto_lib \<Rightarrow> wire_lib \<Rightarrow> io \<Rightarrow> string \<Rightarrow> string \<Rightarrow> nats_msg list" where
  "ack_confirmed_msg c lib wl io client deliveryID =
     snd (PublishRaw c lib wl io (clientSubject c client ''ack_confirmed'') TypeACKConfirmed
       (marshal_ack_confirmed \<lparr>kc_DeliveryID = deliveryID, kc_ConfirmedAt = io_clock io\<rparr>))"

text \<open>The four handlers of confirmations differ in the message type and the repository operation.\<close>

definition handle_ack ::
  "string \<Rightarrow> (delivery_ack \<Rightarrow> pg_time \<Rightarrow> proxy_db \<Rightarrow> unit go_result \<times> proxy_db) \<Rightarrow>
   core \<Rightarrow> crypto_lib \<Rightarrow> wire_lib \<Rightarrow> io \<Rightarrow> bytes \<Rightarrow> proxy_db \<Rightarrow> proxy_db \<times> nats_msg list" where
  "handle_ack messageType confirm c lib wl io data db =
     (case decode c lib wl (io_clock io) data messageType of
        Inl _ \<Rightarrow> (db, [])
      | Inr (client, payload) \<Rightarrow>
          (case read_json wl unmarshal_delivery_ack payload of
             Inl _ \<Rightarrow> (db, [])
           | Inr ack \<Rightarrow>
               if da_ClientID ack \<noteq> client then (db, [])
               else (case db_call (io_fault io) (confirm ack (io_now io)) db of
                       (Inl _, db') \<Rightarrow> (db', [])
                     | (Inr _, db') \<Rightarrow> (db', ack_confirmed_msg c lib wl io client (da_DeliveryID ack)))))"

definition handleAcceptanceACK ::
  "core \<Rightarrow> crypto_lib \<Rightarrow> wire_lib \<Rightarrow> io \<Rightarrow> bytes \<Rightarrow> proxy_db \<Rightarrow> proxy_db \<times> nats_msg list" where
  "handleAcceptanceACK = handle_ack TypeAcceptanceACK ConfirmAcceptance"

definition handleResultACK ::
  "core \<Rightarrow> crypto_lib \<Rightarrow> wire_lib \<Rightarrow> io \<Rightarrow> bytes \<Rightarrow> proxy_db \<Rightarrow> proxy_db \<times> nats_msg list" where
  "handleResultACK = handle_ack TypeResultACK ConfirmResult"

subsection \<open>Sending deliveries\<close>

definition delivery_turn ::
  "core \<Rightarrow> crypto_lib \<Rightarrow> wire_lib \<Rightarrow> io \<Rightarrow> fault \<Rightarrow> string list \<Rightarrow> pg_time \<Rightarrow> proxy_db \<Rightarrow> proxy_db \<times> nats_msg list" where
  "delivery_turn c lib wl io f2 locked later db =
     (case db_call (io_fault io) (ClaimDelivery 10000000000 locked (io_now io)) db of
        (Inl _, db') \<Rightarrow> (db', [])
      | (Inr d, db') \<Rightarrow>
          (snd (db_call f2 (RescheduleDelivery (de_ID d) (tc_deliveryRetry c) later) db'),
           snd (PublishRaw c lib wl io (de_Subject d) (de_MessageType d) (de_Payload d))))"

end
