(* ===== verification/Repo_Webhook.thy ===== *)
theory Repo_Webhook
  imports Repo_Outgoing
begin

text \<open>
  \<^verbatim>\<open>internal/repository/webhook.go\<close>: callback routes, their subscribers, the commands that change them,
  callback events and their deliveries, and the response of the delegated client.
\<close>

record webhook_route =
  ro_ID :: string
  ro_OwnerClientID :: string
  ro_Name :: string
  ro_Mode :: string
  ro_ResponderClientID :: string
  ro_TokenHash :: bytes
  ro_StaticResponse :: static_http_response
  ro_ResponseTimeout :: go_duration
  ro_MaxBodyBytes :: int
  ro_Enabled :: bool

record control_operation =
  co_CommandID :: string
  co_ClientID :: string
  co_CommandType :: string
  co_Action :: string
  co_WebhookID :: string
  co_SubscriberID :: string
  co_Payload :: json
  co_Result :: webhook_control_result
  co_Route :: webhook_route
  co_Subscribers :: "string list"

text \<open>\<^verbatim>\<open>Duration.Milliseconds\<close>\<close>

definition Milliseconds :: "go_duration \<Rightarrow> int" where
  "Milliseconds d = quot d 1000000"

text \<open>The \<^verbatim>\<open>CHECK\<close> constraints of \<^verbatim>\<open>proxy_webhook_routes\<close>.\<close>

definition route_checks :: "route_row \<Rightarrow> bool" where
  "route_checks r \<longleftrightarrow> (wt_mode r = ''static'' \<or> wt_mode r = ''delegated'') \<and> 0 < wt_response_timeout_ms r
     \<and> 0 < wt_max_body_bytes r \<and> (wt_mode r = ''static'' \<or> wt_responder_client_id r \<noteq> None)"

definition insertWebhookRoute :: "webhook_route \<Rightarrow> pg_time \<Rightarrow> proxy_db \<Rightarrow> proxy_db go_result" where
  "insertWebhookRoute route now db =
     (let row = \<lparr>wt_webhook_id = ro_ID route, wt_owner_client_id = ro_OwnerClientID route, wt_name = ro_Name route,
                 wt_path_token_hash = ro_TokenHash route, wt_mode = ro_Mode route,
                 wt_static_response = marshal_static_response (ro_StaticResponse route),
                 wt_responder_client_id = nullString (ro_ResponderClientID route),
                 wt_response_timeout_ms = Milliseconds (ro_ResponseTimeout route),
                 wt_max_body_bytes = ro_MaxBodyBytes route, wt_enabled = True,
                 wt_created_at = now, wt_updated_at = now\<rparr>
      in if \<not> route_checks row then Inl (ErrConstraint ''proxy_webhook_routes_check'')
         else if row_exists (\<lambda>r. wt_webhook_id r = ro_ID route) (db_routes db)
         then Inl (ErrConstraint ''proxy_webhook_routes_pkey'')
         else Inr (db\<lparr>db_routes := insert_row row (db_routes db)\<rparr>))"

text \<open>\<^verbatim>\<open>INSERT INTO proxy_webhook_subscribers \<dots> ON CONFLICT DO NOTHING\<close>\<close>

definition insert_subscriber :: "string \<Rightarrow> pg_time \<Rightarrow> string \<Rightarrow> proxy_db \<Rightarrow> proxy_db" where
  "insert_subscriber webhookID now clientID db =
     (if row_exists (\<lambda>s. sb_webhook_id s = webhookID \<and> sb_client_id s = clientID) (db_subscribers db) then db
      else db\<lparr>db_subscribers := insert_row
             \<lparr>sb_webhook_id = webhookID, sb_client_id = clientID, sb_created_at = now\<rparr> (db_subscribers db)\<rparr>)"

definition failWebhookControl :: "webhook_control_result \<Rightarrow> webhook_control_result" where
  "failWebhookControl result = result\<lparr>cr_Success := False, cr_ErrorCode := ''webhook_not_found'',
     cr_Error := ''webhook not found or not owned by client''\<rparr>"

text \<open>The switch over the action of a new command: the result to report and the changed tables.\<close>

definition apply_register ::
  "control_operation \<Rightarrow> pg_time \<Rightarrow> proxy_db \<Rightarrow> (webhook_control_result \<times> proxy_db) go_result" where
  "apply_register operation now db =
     (case insertWebhookRoute (co_Route operation) now db of
        Inl e \<Rightarrow> Inl e
      | Inr db' \<Rightarrow> Inr (co_Result operation,
          fold (insert_subscriber (ro_ID (co_Route operation)) now) (co_Subscribers operation) db'))"

definition apply_update ::
  "control_operation \<Rightarrow> pg_time \<Rightarrow> proxy_db \<Rightarrow> (webhook_control_result \<times> proxy_db) go_result" where
  "apply_update operation now db =
     (let route = co_Route operation;
          p = (\<lambda>r. wt_webhook_id r = co_WebhookID operation \<and> wt_owner_client_id r = co_ClientID operation);
          f = (\<lambda>r. r\<lparr>wt_name := ro_Name route, wt_mode := ro_Mode route,
                     wt_static_response := marshal_static_response (ro_StaticResponse route),
                     wt_responder_client_id := nullString (ro_ResponderClientID route),
                     wt_response_timeout_ms := Milliseconds (ro_ResponseTimeout route),
                     wt_max_body_bytes := ro_MaxBodyBytes route, wt_enabled := True, wt_updated_at := now\<rparr>)
      in if rows_affected p (db_routes db) = 0 then Inr (failWebhookControl (co_Result operation), db)
         else if list_ex (\<lambda>r. p r \<and> \<not> route_checks (f r)) (db_routes db)
         then Inl (ErrConstraint ''proxy_webhook_routes_check'')
         else Inr (co_Result operation, db\<lparr>db_routes := update_where p f (db_routes db)\<rparr>))"

definition apply_subscription ::
  "control_operation \<Rightarrow> pg_time \<Rightarrow> proxy_db \<Rightarrow> (webhook_control_result \<times> proxy_db) go_result" where
  "apply_subscription operation now db =
     (let result = (case row_by wt_webhook_id (co_WebhookID operation) (db_routes db) of
                      None \<Rightarrow> failWebhookControl (co_Result operation)
                    | Some r \<Rightarrow> if wt_owner_client_id r \<noteq> co_ClientID operation
                               then failWebhookControl (co_Result operation) else co_Result operation)
      in if \<not> cr_Success result then Inr (result, db)
         else if co_Action operation = ''subscribe''
         then Inr (result, insert_subscriber (co_WebhookID operation) now (co_SubscriberID operation) db)
         else Inr (result, db\<lparr>db_subscribers := delete_where
                (\<lambda>s. sb_webhook_id s = co_WebhookID operation \<and> sb_client_id s = co_SubscriberID operation)
                (db_subscribers db)\<rparr>))"

definition apply_delete ::
  "control_operation \<Rightarrow> pg_time \<Rightarrow> proxy_db \<Rightarrow> (webhook_control_result \<times> proxy_db) go_result" where
  "apply_delete operation now db =
     (let p = (\<lambda>r. wt_webhook_id r = co_WebhookID operation \<and> wt_owner_client_id r = co_ClientID operation)
      in if rows_affected p (db_routes db) = 0 then Inr (failWebhookControl (co_Result operation), db)
         else Inr (co_Result operation,
                db\<lparr>db_routes := update_where p (\<lambda>r. r\<lparr>wt_enabled := False, wt_updated_at := now\<rparr>) (db_routes db)\<rparr>))"

definition apply_action ::
  "control_operation \<Rightarrow> pg_time \<Rightarrow> proxy_db \<Rightarrow> (webhook_control_result \<times> proxy_db) go_result" where
  "apply_action operation now db =
     (if co_Action operation = ''register'' then apply_register operation now db
      else if co_Action operation = ''update'' then apply_update operation now db
      else if co_Action operation = ''subscribe'' \<or> co_Action operation = ''unsubscribe''
      then apply_subscription operation now db
      else if co_Action operation = ''delete'' then apply_delete operation now db
      else if co_Action operation = ''error'' then Inr (co_Result operation, db)
      else Inl (ErrText ''unsupported webhook control action''))"

definition ApplyWebhookControl ::
  "control_operation \<Rightarrow> string \<Rightarrow> pg_time \<Rightarrow> proxy_db \<Rightarrow> webhook_control_result go_result \<times> proxy_db" where
  "ApplyWebhookControl operation subject now db =
     (case row_by cm_command_id (co_CommandID operation) (db_commands db) of
        Some c \<Rightarrow>
          if cm_client_id c \<noteq> co_ClientID operation \<or> cm_command_type c \<noteq> co_CommandType operation
             \<or> \<not> jsonEqual (cm_payload c) (co_Payload operation)
          then (Inl ErrRequestConflict, db)
          else (case unmarshal_control_result (cm_result c) of
                  None \<Rightarrow> (Inl ErrJSON, db)
                | Some result \<Rightarrow> (Inr result, db\<lparr>db_deliveries := update_where
                    (\<lambda>d. sql_eq (dl_command_id d) (co_CommandID operation) \<and> dl_kind d = control_kind)
                    (reopen_delivery now) (db_deliveries db)\<rparr>))
      | None \<Rightarrow>
          (case apply_action operation now db of
             Inl e \<Rightarrow> (Inl e, db)
           | Inr (result, db1) \<Rightarrow>
               let payload = marshal_control_result result;
                   command = \<lparr>cm_command_id = co_CommandID operation, cm_client_id = co_ClientID operation,
                              cm_command_type = co_CommandType operation, cm_payload = co_Payload operation,
                              cm_result = payload, cm_created_at = now\<rparr>;
                   d = new_delivery (cr_DeliveryID result) control_kind (co_ClientID operation) subject
                         TypeWebhookControlResult payload None None (Some (co_CommandID operation)) now
               in if row_exists (\<lambda>x. dl_delivery_id x = dl_delivery_id d) (db_deliveries db1)
                  then (Inl (ErrConstraint ''proxy_deliveries_pkey''), db)
                  else (Inr result, db1\<lparr>db_commands := insert_row command (db_commands db1),
                                        db_deliveries := insert_row d (db_deliveries db1)\<rparr>)))"

subsection \<open>Confirmations of deliveries\<close>

definition confirm_kind ::
  "delivery_kind \<Rightarrow> string \<Rightarrow> delivery_ack \<Rightarrow> pg_time \<Rightarrow> proxy_db \<Rightarrow> unit go_result \<times> proxy_db" where
  "confirm_kind kind msg ack now db =
     (let p = (\<lambda>d. dl_delivery_id d = da_DeliveryID ack \<and> dl_client_id d = da_ClientID ack \<and> dl_kind d = kind);
          db' = db\<lparr>db_deliveries := update_where p (ack_delivery now) (db_deliveries db)\<rparr>
      in if rows_affected p (db_deliveries db) = 0 then (Inl (ErrText msg), db') else (Inr (), db'))"

definition ConfirmWebhookControl :: "delivery_ack \<Rightarrow> pg_time \<Rightarrow> proxy_db \<Rightarrow> unit go_result \<times> proxy_db" where
  "ConfirmWebhookControl = confirm_kind control_kind ''webhook control ACK does not match delivery''"

definition ConfirmWebhook :: "delivery_ack \<Rightarrow> pg_time \<Rightarrow> proxy_db \<Rightarrow> unit go_result \<times> proxy_db" where
  "ConfirmWebhook = confirm_kind webhook_kind ''webhook ACK does not match delivery''"

subsection \<open>Routes and events\<close>

definition GetWebhookRoute :: "string \<Rightarrow> proxy_db \<Rightarrow> webhook_route go_result" where
  "GetWebhookRoute webhookID db =
     (case row_by wt_webhook_id webhookID (db_routes db) of
        None \<Rightarrow> Inl ErrNoRows
      | Some r \<Rightarrow>
          (case unmarshal_static_response (wt_static_response r) of
             None \<Rightarrow> Inl ErrJSON
           | Some response \<Rightarrow> Inr
               \<lparr>ro_ID = wt_webhook_id r, ro_OwnerClientID = wt_owner_client_id r, ro_Name = wt_name r, ro_Mode = wt_mode r,
                ro_ResponderClientID = coalesce (wt_responder_client_id r) [], ro_TokenHash = wt_path_token_hash r,
                ro_StaticResponse = response, ro_ResponseTimeout = wrap64 (wt_response_timeout_ms r * 1000000),
                ro_MaxBodyBytes = wt_max_body_bytes r, ro_Enabled = wt_enabled r\<rparr>))"

text \<open>One delivery per client; \<open>rnd i\<close> are the random bytes drawn for the client at position \<open>i\<close>.\<close>

definition event_delivery ::
  "webhook_event \<Rightarrow> webhook_route \<Rightarrow> (string \<Rightarrow> string) \<Rightarrow> string \<Rightarrow> bytes \<Rightarrow> string \<Rightarrow> delivery" where
  "event_delivery event route subject replySubject entropy clientID =
     (let did = ''wdel_'' @ randomID entropy;
          e = event\<lparr>ev_DeliveryID := did\<rparr>;
          e' = (if clientID = ro_ResponderClientID route \<and> ro_Mode route = ''delegated''
                then e\<lparr>ev_ReplySubject := replySubject\<rparr> else e)
      in \<lparr>de_ID = did, de_Kind = webhook_kind, de_ClientID = clientID, de_Subject = subject clientID,
          de_MessageType = TypeWebhookEvent, de_Payload = marshal_webhook_event e'\<rparr>)"

definition delivery_row_of :: "webhook_event \<Rightarrow> pg_time \<Rightarrow> delivery \<Rightarrow> delivery_row" where
  "delivery_row_of event now d =
     new_delivery (de_ID d) webhook_kind (de_ClientID d) (de_Subject d) (de_MessageType d) (de_Payload d)
       None (Some (ev_EventID event)) None now"

fun insert_event_deliveries ::
  "webhook_event \<Rightarrow> pg_time \<Rightarrow> delivery list \<Rightarrow> proxy_db \<Rightarrow> proxy_db go_result" where
  "insert_event_deliveries event now [] db = Inr db"
| "insert_event_deliveries event now (d # ds) db =
     (if row_exists (\<lambda>x. dl_delivery_id x = de_ID d) (db_deliveries db)
      then Inl (ErrConstraint ''proxy_deliveries_pkey'')
      else insert_event_deliveries event now ds
             (db\<lparr>db_deliveries := insert_row (delivery_row_of event now d) (db_deliveries db)\<rparr>))"

definition event_clients :: "webhook_event \<Rightarrow> webhook_route \<Rightarrow> proxy_db \<Rightarrow> string list" where
  "event_clients event route db =
     (let clientIDs = map sb_client_id (select_where (\<lambda>s. sb_webhook_id s = ev_WebhookID event) (db_subscribers db))
      in if ro_Mode route = ''delegated'' \<and> \<not> contains clientIDs (ro_ResponderClientID route)
         then clientIDs @ [ro_ResponderClientID route] else clientIDs)"

definition SaveWebhookEvent ::
  "webhook_event \<Rightarrow> webhook_route \<Rightarrow> (string \<Rightarrow> string) \<Rightarrow> string \<Rightarrow> (nat \<Rightarrow> bytes) \<Rightarrow> pg_time \<Rightarrow> proxy_db \<Rightarrow>
   delivery list go_result \<times> proxy_db" where
  "SaveWebhookEvent event route subject replySubject rnd now db =
     (let st = (if ro_Mode route = ''delegated'' then awaiting_response else received);
          row = \<lparr>we_event_id = ev_EventID event, we_webhook_id = ev_WebhookID event,
                 we_request = marshal_webhook_event event, we_response = None, we_status = st,
                 we_received_at = now, we_updated_at = now\<rparr>
      in if row_exists (\<lambda>e. we_event_id e = ev_EventID event) (db_events db)
         then (Inl (ErrConstraint ''proxy_webhook_events_pkey''), db)
         else if \<not> row_exists (\<lambda>r. wt_webhook_id r = ev_WebhookID event) (db_routes db)
         then (Inl (ErrConstraint ''proxy_webhook_events_webhook_id_fkey''), db)
         else let clientIDs = event_clients event route db;
                  deliveries = map (\<lambda>(i, c). event_delivery event route subject replySubject (rnd i) c)
                                 (enumerate 0 clientIDs)
              in case insert_event_deliveries event now deliveries (db\<lparr>db_events := insert_row row (db_events db)\<rparr>) of
                   Inl e \<Rightarrow> (Inl e, db)
                 | Inr db' \<Rightarrow> (Inr deliveries, db'))"

subsection \<open>Responses\<close>

text \<open>The join with the event's route that \<^verbatim>\<open>SaveWebhookResponse\<close> and \<^verbatim>\<open>MarkWebhookTimedOut\<close> use.\<close>

definition delegated_to :: "proxy_db \<Rightarrow> string \<Rightarrow> event_row \<Rightarrow> bool" where
  "delegated_to db client e \<longleftrightarrow>
     row_exists (\<lambda>r. wt_webhook_id r = we_webhook_id e \<and> wt_mode r = ''delegated''
                   \<and> sql_eq (wt_responder_client_id r) client) (db_routes db)"

definition SaveWebhookResponse :: "webhook_response \<Rightarrow> pg_time \<Rightarrow> proxy_db \<Rightarrow> unit go_result \<times> proxy_db" where
  "SaveWebhookResponse response now db =
     (let payload = marshal_webhook_response response;
          dp = (\<lambda>d. dl_delivery_id d = wp_DeliveryID response \<and> sql_eq (dl_webhook_event_id d) (wp_EventID response)
                  \<and> dl_client_id d = wp_ClientID response \<and> dl_kind d = webhook_kind);
          ep = (\<lambda>e. we_event_id e = wp_EventID response \<and> delegated_to db (wp_ClientID response) e
                  \<and> we_status e = awaiting_response);
          acked = (\<lambda>x. x\<lparr>db_deliveries := update_where dp (ack_delivery now) (db_deliveries x)\<rparr>)
      in if \<not> row_exists dp (db_deliveries db)
         then (Inl (ErrText ''webhook response does not match its delivery''), db)
         else if rows_affected ep (db_events db) = 0
         then (case select_where (\<lambda>e. we_event_id e = wp_EventID response \<and> delegated_to db (wp_ClientID response) e
                                   \<and> we_status e = responded) (db_events db) of
                 [] \<Rightarrow> (Inl (ErrText ''client is not the delegated webhook responder or response conflicts''), db)
               | e # _ \<Rightarrow>
                   (case we_response e of
                      None \<Rightarrow> (Inl (ErrText ''client is not the delegated webhook responder or response conflicts''), db)
                    | Some existing \<Rightarrow>
                        if jsonEqual existing payload then (Inr (), acked db)
                        else (Inl (ErrText ''client is not the delegated webhook responder or response conflicts''), db)))
         else (Inr (), acked (db\<lparr>db_events := update_where ep
                 (\<lambda>e. e\<lparr>we_response := Some payload, we_status := responded, we_updated_at := now\<rparr>) (db_events db)\<rparr>)))"

definition MarkWebhookTimedOut :: "string \<Rightarrow> pg_time \<Rightarrow> proxy_db \<Rightarrow> unit go_result \<times> proxy_db" where
  "MarkWebhookTimedOut eventID now db =
     (let responder = (\<lambda>d. row_exists (\<lambda>e. we_event_id e = eventID
              \<and> row_exists (\<lambda>r. wt_webhook_id r = we_webhook_id e \<and> sql_eq (wt_responder_client_id r) (dl_client_id d)) (db_routes db))
            (db_events db))
      in (Inr (), db\<lparr>
           db_events := update_where (\<lambda>e. we_event_id e = eventID \<and> we_status e = awaiting_response)
             (\<lambda>e. e\<lparr>we_status := timed_out, we_updated_at := now\<rparr>) (db_events db),
           db_deliveries := update_where (\<lambda>d. sql_eq (dl_webhook_event_id d) eventID \<and> responder d)
             (ack_delivery now) (db_deliveries db)\<rparr>))"

end
