(* ===== verification/Transport_Callback.thy ===== *)
theory Transport_Callback
  imports Transport_Core Repo_Webhook
begin

text \<open>
  \<^verbatim>\<open>internal/transport/callback.go\<close>: the commands that manage callback routes, the confirmations of
  callback deliveries, and the delivery of a public callback to the subscribed clients with an
  optional response of the delegated one. SHA-256 and HMAC (\<open>hash_lib\<close>) are parameters.

  \<^verbatim>\<open>webhookWaiters\<close> maps an event to a channel with room for one response: \<open>Some None\<close> is the empty
  channel of a waiting HTTP handler.
\<close>

record hash_lib =
  hs_sha256 :: "bytes \<Rightarrow> bytes"
  hs_hmac :: "bytes \<Rightarrow> bytes \<Rightarrow> bytes"

type_synonym waiters = "string \<rightharpoonup> webhook_response option"

definition webhookCommandSubject :: "core \<Rightarrow> string" where
  "webhookCommandSubject c = ''proxy.'' @ tc_proxyID c @ ''.webhooks.commands''"

definition webhookACKSubject :: "core \<Rightarrow> string" where
  "webhookACKSubject c = ''proxy.'' @ tc_proxyID c @ ''.webhooks.acks''"

definition webhookControlACKSubject :: "core \<Rightarrow> string" where
  "webhookControlACKSubject c = ''proxy.'' @ tc_proxyID c @ ''.webhooks.control_acks''"

definition webhookResponseSubject :: "core \<Rightarrow> string" where
  "webhookResponseSubject c = ''proxy.'' @ tc_proxyID c @ ''.instance.'' @ tc_instanceID c @ ''.webhooks.responses''"

definition tokenHash :: "hash_lib \<Rightarrow> string \<Rightarrow> bytes" where
  "tokenHash h v = hs_sha256 h v"

definition stableID :: "hash_lib \<Rightarrow> string \<Rightarrow> string" where
  "stableID h v = hex_EncodeToString (take 12 (hs_sha256 h v))"

definition webhookToken :: "hash_lib \<Rightarrow> core \<Rightarrow> string \<Rightarrow> string \<Rightarrow> string" where
  "webhookToken h c clientID commandID =
     (let key = (if length (tc_signer c) = 0 then ''insecure-development-key'' else tc_signer c)
      in hex_EncodeToString (hs_hmac h key (clientID @ newline @ commandID)))"

fun dedupe_from :: "string list \<Rightarrow> string list \<Rightarrow> string list" where
  "dedupe_from seen [] = []"
| "dedupe_from seen (v # vs) =
     (if v \<noteq> [] \<and> \<not> contains seen v then v # dedupe_from (v # seen) vs else dedupe_from seen vs)"

definition dedupe :: "string list \<Rightarrow> string list" where
  "dedupe vs = dedupe_from [] vs"

definition applyWebhookDefaults :: "webhook_route \<Rightarrow> webhook_route" where
  "applyWebhookDefaults route =
     (let r1 = (if sr_StatusCode (ro_StaticResponse route) = 0
                then route\<lparr>ro_StaticResponse := (ro_StaticResponse route)\<lparr>sr_StatusCode := 200\<rparr>\<rparr> else route);
          r2 = (if ro_ResponseTimeout r1 \<le> 0 then r1\<lparr>ro_ResponseTimeout := 10000000000\<rparr> else r1)
      in if ro_MaxBodyBytes r2 \<le> 0 then r2\<lparr>ro_MaxBodyBytes := 4194304\<rparr> else r2)"

subsection \<open>Commands\<close>

definition zero_route :: webhook_route where
  "zero_route = \<lparr>ro_ID = [], ro_OwnerClientID = [], ro_Name = [], ro_Mode = [], ro_ResponderClientID = [], ro_TokenHash = [],
     ro_StaticResponse = zero_static_response, ro_ResponseTimeout = 0, ro_MaxBodyBytes = 0, ro_Enabled = False\<rparr>"

definition base_operation :: "string \<Rightarrow> string \<Rightarrow> json \<Rightarrow> control_operation" where
  "base_operation clientID messageType payload =
     \<lparr>co_CommandID = [], co_ClientID = clientID, co_CommandType = messageType, co_Action = [], co_WebhookID = [],
      co_SubscriberID = [], co_Payload = payload, co_Result = zero_control_result, co_Route = zero_route, co_Subscribers = []\<rparr>"

definition invalid_command ::
  "control_operation \<Rightarrow> string \<Rightarrow> string \<Rightarrow> string \<Rightarrow> string \<Rightarrow> control_operation go_result" where
  "invalid_command operation commandID action code cause =
     (if commandID = [] then Inl (ErrText cause)
      else Inr (operation\<lparr>co_CommandID := commandID, co_Action := ''error'',
             co_Result := zero_control_result\<lparr>cr_CommandID := commandID, cr_DeliveryID := ''control_'' @ commandID,
               cr_Action := action, cr_Success := False, cr_ErrorCode := code, cr_Error := cause\<rparr>\<rparr>))"

definition control_success :: "string \<Rightarrow> string \<Rightarrow> string \<Rightarrow> string \<Rightarrow> webhook_control_result" where
  "control_success commandID action webhookID url =
     zero_control_result\<lparr>cr_CommandID := commandID, cr_DeliveryID := ''control_'' @ commandID, cr_Action := action,
       cr_Success := True, cr_WebhookID := webhookID, cr_URL := url\<rparr>"

definition register_operation ::
  "core \<Rightarrow> hash_lib \<Rightarrow> string \<Rightarrow> control_operation \<Rightarrow> webhook_register \<Rightarrow> control_operation go_result" where
  "register_operation c h clientID operation command =
     (let cid = wr_CommandID command in
      if wr_ClientID command \<noteq> clientID \<or> cid = []
      then invalid_command operation cid ''register'' ''invalid_identity'' ''command identity mismatch''
      else if wr_Mode command \<noteq> ''static'' \<and> wr_Mode command \<noteq> ''delegated''
      then invalid_command operation cid ''register'' ''invalid_mode'' ''mode must be static or delegated''
      else let responder = (if wr_Mode command = ''delegated'' \<and> wr_ResponderID command = [] then clientID else wr_ResponderID command)
           in if list_ex (\<lambda>s. s \<noteq> [] \<and> \<not> allowedClient c s) (wr_SubscriberIDs command @ [responder])
              then invalid_command operation cid ''register'' ''subscriber_not_allowed'' ''subscriber is not allowed''
              else let token = webhookToken h c clientID cid;
                       route = applyWebhookDefaults
                         \<lparr>ro_ID = ''wh_'' @ stableID h (clientID @ newline @ cid), ro_OwnerClientID = clientID,
                          ro_Name = wr_Name command, ro_Mode = wr_Mode command, ro_ResponderClientID = responder,
                          ro_TokenHash = tokenHash h token, ro_StaticResponse = wr_StaticResponse command,
                          ro_ResponseTimeout = wr_ResponseTimeout command, ro_MaxBodyBytes = wr_MaxBodyBytes command,
                          ro_Enabled = True\<rparr>
                   in Inr (operation\<lparr>co_CommandID := cid, co_Action := ''register'', co_Route := route,
                        co_Subscribers := dedupe (wr_SubscriberIDs command @ [clientID]),
                        co_Result := control_success cid ''register'' (ro_ID route)
                          (tc_publicBaseURL c @ ''/v1/webhooks/'' @ ro_ID route @ ''/'' @ token)\<rparr>))"

definition update_operation ::
  "core \<Rightarrow> string \<Rightarrow> control_operation \<Rightarrow> webhook_update \<Rightarrow> control_operation go_result" where
  "update_operation c clientID operation command =
     (let cid = wu_CommandID command in
      if wu_ClientID command \<noteq> clientID \<or> cid = [] \<or> wu_WebhookID command = []
      then invalid_command operation cid ''update'' ''invalid_identity'' ''command identity mismatch''
      else if wu_Mode command \<noteq> ''static'' \<and> wu_Mode command \<noteq> ''delegated''
      then invalid_command operation cid ''update'' ''invalid_mode'' ''mode must be static or delegated''
      else let responder = (if wu_Mode command = ''delegated'' \<and> wu_ResponderID command = [] then clientID else wu_ResponderID command)
           in if responder \<noteq> [] \<and> \<not> allowedClient c responder
              then invalid_command operation cid ''update'' ''responder_not_allowed'' ''responder is not allowed''
              else let route = applyWebhookDefaults
                         (zero_route\<lparr>ro_ID := wu_WebhookID command, ro_OwnerClientID := clientID, ro_Name := wu_Name command,
                          ro_Mode := wu_Mode command, ro_ResponderClientID := responder,
                          ro_StaticResponse := wu_StaticResponse command, ro_ResponseTimeout := wu_ResponseTimeout command,
                          ro_MaxBodyBytes := wu_MaxBodyBytes command, ro_Enabled := True\<rparr>)
                   in Inr (operation\<lparr>co_CommandID := cid, co_Action := ''update'', co_WebhookID := wu_WebhookID command,
                        co_Route := route, co_Result := control_success cid ''update'' (wu_WebhookID command) []\<rparr>))"

definition subscribe_operation ::
  "core \<Rightarrow> string \<Rightarrow> string \<Rightarrow> control_operation \<Rightarrow> webhook_subscribe \<Rightarrow> control_operation go_result" where
  "subscribe_operation c clientID messageType operation command =
     (let cid = ws_CommandID command;
          action = (if messageType = TypeWebhookUnsubscribe then ''unsubscribe'' else ''subscribe'')
      in if ws_ClientID command \<noteq> clientID \<or> cid = [] \<or> ws_WebhookID command = []
         then invalid_command operation cid action ''invalid_identity'' ''command identity mismatch''
         else if action = ''subscribe'' \<and> \<not> allowedClient c (ws_SubscriberID command)
         then invalid_command operation cid action ''subscriber_not_allowed'' ''subscriber is not allowed''
         else Inr (operation\<lparr>co_CommandID := cid, co_Action := action, co_WebhookID := ws_WebhookID command,
                co_SubscriberID := ws_SubscriberID command, co_Result := control_success cid action (ws_WebhookID command) []\<rparr>))"

definition delete_operation :: "string \<Rightarrow> control_operation \<Rightarrow> webhook_delete \<Rightarrow> control_operation go_result" where
  "delete_operation clientID operation command =
     (let cid = wd_CommandID command in
      if wd_ClientID command \<noteq> clientID \<or> cid = [] \<or> wd_WebhookID command = []
      then invalid_command operation cid ''delete'' ''invalid_identity'' ''command identity mismatch''
      else Inr (operation\<lparr>co_CommandID := cid, co_Action := ''delete'', co_WebhookID := wd_WebhookID command,
             co_Result := control_success cid ''delete'' (wd_WebhookID command) []\<rparr>))"

definition webhookControlOperation ::
  "core \<Rightarrow> hash_lib \<Rightarrow> wire_lib \<Rightarrow> string \<Rightarrow> string \<Rightarrow> bytes \<Rightarrow> control_operation go_result" where
  "webhookControlOperation c h wl clientID messageType payload =
     (let operation = (\<lambda>_. base_operation clientID messageType (case wl_parse wl payload of None \<Rightarrow> JNull | Some j \<Rightarrow> j))
      in if messageType = TypeWebhookRegister
         then go_try (read_json wl unmarshal_webhook_register payload) (register_operation c h clientID (operation ()))
         else if messageType = TypeWebhookUpdate
         then go_try (read_json wl unmarshal_webhook_update payload) (update_operation c clientID (operation ()))
         else if messageType = TypeWebhookSubscribe \<or> messageType = TypeWebhookUnsubscribe
         then go_try (read_json wl unmarshal_webhook_subscribe payload) (subscribe_operation c clientID messageType (operation ()))
         else if messageType = TypeWebhookDelete
         then go_try (read_json wl unmarshal_webhook_delete payload) (delete_operation clientID (operation ()))
         else Inl (ErrText ''unsupported webhook command type''))"

definition handleWebhookCommand ::
  "core \<Rightarrow> crypto_lib \<Rightarrow> wire_lib \<Rightarrow> hash_lib \<Rightarrow> io \<Rightarrow> bytes \<Rightarrow> proxy_db \<Rightarrow> proxy_db" where
  "handleWebhookCommand c lib wl h io data db =
     (case decodeAny c lib wl (io_clock io) data of
        Inl _ \<Rightarrow> db
      | Inr (clientID, payload, messageType) \<Rightarrow>
          (case webhookControlOperation c h wl clientID messageType payload of
             Inl _ \<Rightarrow> db
           | Inr operation \<Rightarrow>
               snd (db_call (io_fault io) (ApplyWebhookControl operation (clientSubject c clientID ''webhooks.control_results'')
                      (io_now io)) db)))"

definition handleWebhookControlACK ::
  "core \<Rightarrow> crypto_lib \<Rightarrow> wire_lib \<Rightarrow> io \<Rightarrow> bytes \<Rightarrow> proxy_db \<Rightarrow> proxy_db \<times> nats_msg list" where
  "handleWebhookControlACK = handle_ack TypeWebhookControlACK ConfirmWebhookControl"

definition handleWebhookACK ::
  "core \<Rightarrow> crypto_lib \<Rightarrow> wire_lib \<Rightarrow> io \<Rightarrow> bytes \<Rightarrow> proxy_db \<Rightarrow> proxy_db \<times> nats_msg list" where
  "handleWebhookACK = handle_ack TypeWebhookEventACK ConfirmWebhook"

subsection \<open>Callback events and delegated responses\<close>

definition offer :: "webhook_response \<Rightarrow> waiters \<Rightarrow> waiters" where
  "offer response ws =
     (case ws (wp_EventID response) of
        Some None \<Rightarrow> ws(wp_EventID response \<mapsto> Some response)
      | _ \<Rightarrow> ws)"

definition handleWebhookResponse ::
  "core \<Rightarrow> crypto_lib \<Rightarrow> wire_lib \<Rightarrow> io \<Rightarrow> bytes \<Rightarrow> proxy_db \<Rightarrow> waiters \<Rightarrow> proxy_db \<times> waiters \<times> nats_msg list" where
  "handleWebhookResponse c lib wl io data db ws =
     (case decode c lib wl (io_clock io) data TypeWebhookDelegatedResponse of
        Inl _ \<Rightarrow> (db, ws, [])
      | Inr (clientID, payload) \<Rightarrow>
          (case read_json wl unmarshal_webhook_response payload of
             Inl _ \<Rightarrow> (db, ws, [])
           | Inr response \<Rightarrow>
               if wp_ClientID response \<noteq> clientID then (db, ws, [])
               else (case db_call (io_fault io) (SaveWebhookResponse response (io_now io)) db of
                       (Inl _, db') \<Rightarrow> (db', ws, [])
                     | (Inr _, db') \<Rightarrow>
                         (db', offer response ws, ack_confirmed_msg c lib wl io clientID (wp_DeliveryID response)))))"

text \<open>
  \<^verbatim>\<open>DeliverWebhook\<close> up to its \<^verbatim>\<open>select\<close>: \<open>None\<close> when the caller waits for the delegated response, otherwise
  the value returned at once.
\<close>

definition deliver_start ::
  "core \<Rightarrow> crypto_lib \<Rightarrow> wire_lib \<Rightarrow> io \<Rightarrow> (nat \<Rightarrow> bytes) \<Rightarrow> webhook_event \<Rightarrow> webhook_route \<Rightarrow> proxy_db \<Rightarrow> waiters \<Rightarrow>
   webhook_response go_result option \<times> proxy_db \<times> waiters \<times> nats_msg list" where
  "deliver_start c lib wl io rnd event route db ws =
     (let e = event\<lparr>ev_ProxyID := tc_proxyID c\<rparr>;
          ws1 = (if ro_Mode route = ''delegated'' then ws(ev_EventID e \<mapsto> None) else ws)
      in case db_call (io_fault io) (SaveWebhookEvent e route (\<lambda>clientID. clientSubject c clientID ''webhooks.events'')
                 (webhookResponseSubject c) rnd (io_now io)) db of
           (Inl err, db') \<Rightarrow> (Some (Inl err), db', if ro_Mode route = ''delegated'' then ws1(ev_EventID e := None) else ws1, [])
         | (Inr deliveries, db') \<Rightarrow>
             if ro_Mode route \<noteq> ''delegated'' then (Some (Inr zero_webhook_response), db', ws1, [])
             else (None, db', ws1,
                   (case find (\<lambda>d. de_ClientID d = ro_ResponderClientID route) deliveries of
                      None \<Rightarrow> []
                    | Some d \<Rightarrow> snd (PublishRaw c lib wl io (de_Subject d) (de_MessageType d) (de_Payload d)))))"

definition deliver_receive :: "string \<Rightarrow> waiters \<Rightarrow> webhook_response option \<times> waiters" where
  "deliver_receive eventID ws =
     (case ws eventID of Some (Some response) \<Rightarrow> (Some response, ws(eventID := None)) | _ \<Rightarrow> (None, ws))"

definition deliver_timeout :: "fault \<Rightarrow> pg_time \<Rightarrow> string \<Rightarrow> proxy_db \<Rightarrow> waiters \<Rightarrow> proxy_db \<times> waiters" where
  "deliver_timeout f now eventID db ws = (snd (db_call f (MarkWebhookTimedOut eventID now) db), ws(eventID := None))"

lemma dedupe_from_set: "set (dedupe_from seen vs) = {v \<in> set vs. v \<noteq> [] \<and> v \<notin> set seen}"
  by (induction vs arbitrary: seen) auto

lemma dedupe_from_distinct: "distinct (dedupe_from seen vs)"
  by (induction vs arbitrary: seen) (auto simp: dedupe_from_set)

text \<open>What every accepted command carries into the repository.\<close>

definition well_addressed :: "string \<Rightarrow> string \<Rightarrow> control_operation \<Rightarrow> bool" where
  "well_addressed clientID messageType operation \<longleftrightarrow>
     cr_DeliveryID (co_Result operation) = ''control_'' @ co_CommandID operation
     \<and> cr_CommandID (co_Result operation) = co_CommandID operation
     \<and> co_CommandID operation \<noteq> [] \<and> co_ClientID operation = clientID \<and> co_CommandType operation = messageType"

lemma invalid_command_addressed:
  "invalid_command (base_operation clientID messageType j) cid action code cause = Inr operation \<Longrightarrow>
   well_addressed clientID messageType operation"
  by (auto simp: invalid_command_def base_operation_def well_addressed_def split: if_splits)

lemma register_addressed:
  assumes "register_operation c h clientID (base_operation clientID mt j) command = Inr operation"
  shows "well_addressed clientID mt operation"
  using assms unfolding register_operation_def Let_def
  by (simp split: if_splits add: invalid_command_addressed)
    (auto simp: well_addressed_def base_operation_def control_success_def)

lemma update_addressed:
  assumes "update_operation c clientID (base_operation clientID mt j) command = Inr operation"
  shows "well_addressed clientID mt operation"
  using assms unfolding update_operation_def Let_def
  by (simp split: if_splits add: invalid_command_addressed)
    (auto simp: well_addressed_def base_operation_def control_success_def)

lemma subscribe_addressed:
  assumes "subscribe_operation c clientID mt (base_operation clientID mt j) command = Inr operation"
  shows "well_addressed clientID mt operation"
  using assms unfolding subscribe_operation_def Let_def
  by (simp split: if_splits add: invalid_command_addressed)
    (auto simp: well_addressed_def base_operation_def control_success_def)

lemma delete_addressed:
  assumes "delete_operation clientID (base_operation clientID mt j) command = Inr operation"
  shows "well_addressed clientID mt operation"
  using assms unfolding delete_operation_def Let_def
  by (simp split: if_splits add: invalid_command_addressed)
    (auto simp: well_addressed_def base_operation_def control_success_def)

lemma webhookControlOperation_addressed:
  assumes "webhookControlOperation c h wl clientID messageType payload = Inr operation"
  shows "well_addressed clientID messageType operation"
  using assms unfolding webhookControlOperation_def Let_def
  by (simp split: if_splits add: go_try_eq_Inr)
    (blast intro: register_addressed update_addressed subscribe_addressed delete_addressed)+

end
