(* ===== verification/Repo_Maintenance.thy ===== *)
theory Repo_Maintenance
  imports Repo_Outgoing
begin

text \<open>
  \<^verbatim>\<open>internal/repository/maintenance.go\<close>: returning expired reservations to the queue, closing expired
  dispatches with the result \<^verbatim>\<open>unknown\<close>, removing finished records after the retention time, and the
  counts for the metrics endpoint. \<open>clock\<close> is the process's clock as read for each recovered request.
\<close>

definition unknown_result :: "go_time \<Rightarrow> request_row \<Rightarrow> http_result" where
  "unknown_result completedAt r =
     zero_http_result\<lparr>rs_ResultID := ''result_'' @ rq_request_id r, rs_RequestID := rq_request_id r,
       rs_ProxyID := rq_proxy_id r, rs_State := ''unknown'', rs_ErrorCode := ''proxy_restarted_during_http'',
       rs_Error := ''HTTP outcome could not be recovered'', rs_Attempts := rq_attempts r,
       rs_CompletedAt := completedAt\<rparr>"

definition recover_dispatch :: "(string \<Rightarrow> go_time) \<Rightarrow> pg_time \<Rightarrow> request_row \<Rightarrow> proxy_db \<Rightarrow> proxy_db" where
  "recover_dispatch clock now r db =
     (let result = unknown_result (clock (rq_request_id r)) r;
          payload = marshal_http_result result;
          subject = ''client.'' @ rq_client_id r @ ''.proxy.'' @ rq_proxy_id r @ ''.results''
      in insert_delivery
           (new_delivery (rs_ResultID result) result_kind (rq_client_id r) subject TypeHTTPResult payload
              (Some (rq_request_id r)) None None now)
           (db\<lparr>db_requests := update_where (\<lambda>x. rq_request_id x = rq_request_id r)
                 (\<lambda>x. x\<lparr>rq_status := unknown, rq_result := Some payload, rq_last_error := Some (rs_Error result),
                        rq_dispatch_token := None, rq_lease_until := None, rq_updated_at := now\<rparr>)
                 (db_requests db)\<rparr>))"

definition expired :: "request_status \<Rightarrow> pg_time \<Rightarrow> request_row \<Rightarrow> bool" where
  "expired st now r \<longleftrightarrow> rq_status r = st \<and> sql_less (rq_lease_until r) now"

definition release_expired :: "pg_time \<Rightarrow> proxy_db \<Rightarrow> proxy_db" where
  "release_expired now db =
     db\<lparr>db_requests := update_where (expired reserved now)
       (\<lambda>r. r\<lparr>rq_status := ready, rq_dispatch_token := None, rq_lease_until := None, rq_updated_at := now\<rparr>)
       (db_requests db)\<rparr>"

definition RecoverExpiredDispatches ::
  "(string \<Rightarrow> go_time) \<Rightarrow> pg_time \<Rightarrow> proxy_db \<Rightarrow> int go_result \<times> proxy_db" where
  "RecoverExpiredDispatches clock now db =
     (let db1 = release_expired now db;
          stale = select_where (expired dispatching now) (db_requests db1)
      in (Inr (int (rows_affected (expired reserved now) (db_requests db)) + int (length stale)),
          fold (recover_dispatch clock now) stale db1))"

subsection \<open>Retention\<close>

definition finished :: "pg_time \<Rightarrow> request_row \<Rightarrow> bool" where
  "finished before r \<longleftrightarrow>
     (rq_status r = result_delivered \<or> rq_status r = failed \<or> rq_status r = canceled) \<and> rq_updated_at r < before"

definition cleanup_requests :: "pg_time \<Rightarrow> nat \<Rightarrow> proxy_db \<Rightarrow> proxy_db" where
  "cleanup_requests before batch db =
     (let doomed = map rq_request_id (order_limit rq_updated_at batch (select_where (finished before) (db_requests db)))
      in db\<lparr>db_deliveries := delete_where (\<lambda>d. list_ex (\<lambda>rid. sql_eq (dl_request_id d) rid) doomed) (db_deliveries db),
            db_requests := delete_where (\<lambda>r. contains doomed (rq_request_id r)) (db_requests db)\<rparr>)"

definition cleanup_limits :: "pg_time \<Rightarrow> proxy_db \<Rightarrow> proxy_db" where
  "cleanup_limits now db =
     db\<lparr>db_windows := delete_where (\<lambda>w. hw_window_start w < now - 3600000000) (db_windows db),
        db_last_dispatch := delete_where (\<lambda>h. hd_dispatched_at h < now - 86400000000) (db_last_dispatch db)\<rparr>"

definition cleanup_events :: "pg_time \<Rightarrow> nat \<Rightarrow> proxy_db \<Rightarrow> proxy_db" where
  "cleanup_events before batch db =
     (let old = map we_event_id (order_limit we_updated_at batch (select_where
                  (\<lambda>e. we_updated_at e < before
                     \<and> \<not> row_exists (\<lambda>d. sql_eq (dl_webhook_event_id d) (we_event_id e) \<and> dl_acknowledged_at d = None)
                           (db_deliveries db)) (db_events db)))
      in db\<lparr>db_deliveries := delete_where (\<lambda>d. list_ex (\<lambda>eid. sql_eq (dl_webhook_event_id d) eid) old) (db_deliveries db),
            db_events := delete_where (\<lambda>e. contains old (we_event_id e)) (db_events db)\<rparr>)"

definition cleanup_commands :: "pg_time \<Rightarrow> nat \<Rightarrow> proxy_db \<Rightarrow> proxy_db" where
  "cleanup_commands before batch db =
     (let old = map cm_command_id (order_limit cm_created_at batch (select_where
                  (\<lambda>c. cm_created_at c < before
                     \<and> \<not> row_exists (\<lambda>d. sql_eq (dl_command_id d) (cm_command_id c) \<and> dl_acknowledged_at d = None)
                           (db_deliveries db)) (db_commands db)))
      in db\<lparr>db_deliveries := delete_where (\<lambda>d. list_ex (\<lambda>cid. sql_eq (dl_command_id d) cid) old) (db_deliveries db),
            db_commands := delete_where (\<lambda>c. contains old (cm_command_id c)) (db_commands db)\<rparr>)"

text \<open>Deleting a route deletes its subscribers (\<^verbatim>\<open>ON DELETE CASCADE\<close>).\<close>

definition cleanup_routes :: "pg_time \<Rightarrow> proxy_db \<Rightarrow> proxy_db" where
  "cleanup_routes before db =
     (let doomed = (\<lambda>r. \<not> wt_enabled r \<and> wt_updated_at r < before
                       \<and> \<not> row_exists (\<lambda>e. we_webhook_id e = wt_webhook_id r) (db_events db));
          ids = map wt_webhook_id (select_where doomed (db_routes db))
      in db\<lparr>db_routes := delete_where doomed (db_routes db),
            db_subscribers := delete_where (\<lambda>s. contains ids (sb_webhook_id s)) (db_subscribers db)\<rparr>)"

definition Cleanup :: "pg_time \<Rightarrow> nat \<Rightarrow> pg_time \<Rightarrow> proxy_db \<Rightarrow> int go_result \<times> proxy_db" where
  "Cleanup before batch now db =
     (Inr (int (length (order_limit rq_updated_at batch (select_where (finished before) (db_requests db))))),
      cleanup_routes before (cleanup_commands before batch (cleanup_events before batch
        (cleanup_limits now (cleanup_requests before batch db)))))"

subsection \<open>Counts\<close>

record stats =
  st_AwaitingACK :: nat
  st_Ready :: nat
  st_Dispatching :: nat
  st_Completed :: nat
  st_Unknown :: nat
  st_Deliveries :: nat

definition Stats :: "proxy_db \<Rightarrow> stats" where
  "Stats db =
     (let count = (\<lambda>p. rows_affected p (db_requests db))
      in \<lparr>st_AwaitingACK = count (\<lambda>r. rq_status r = awaiting_acceptance_ack),
          st_Ready = count (\<lambda>r. rq_status r = ready \<or> rq_status r = reserved \<or> rq_status r = retry_wait),
          st_Dispatching = count (\<lambda>r. rq_status r = dispatching),
          st_Completed = count (\<lambda>r. rq_status r = http_completed \<or> rq_status r = result_delivered),
          st_Unknown = count (\<lambda>r. rq_status r = unknown),
          st_Deliveries = rows_affected (\<lambda>d. dl_acknowledged_at d = None) (db_deliveries db)\<rparr>)"

end
