(* ===== verification/Request_Lifecycle.thy ===== *)
theory Request_Lifecycle
  imports Repo_Maintenance Repo_Webhook
begin

text \<open>
  The abstract specification of an outgoing request's life, and the invariant of the proxy's
  database that ties the request table to the delivery table.

  \<open>advances\<close> is the specification of one row: its identity never changes, and its status follows the
  edges of \<open>lifecycle_edge\<close>, of which only the one into \<open>dispatching\<close> counts an attempt. \<open>repo_inv\<close>
  says that keys are unique, that a stored request can be read back, that a request waiting for its
  acceptance handshake or its result handshake has the open delivery that drives it, and that
  deliveries belong to the requests they name.
\<close>

fun lifecycle_edge :: "request_status \<Rightarrow> request_status \<Rightarrow> bool" where
  "lifecycle_edge awaiting_acceptance_ack s = (s = ready)"
| "lifecycle_edge ready s = (s = reserved)"
| "lifecycle_edge retry_wait s = (s = reserved)"
| "lifecycle_edge reserved s = (s = ready \<or> s = dispatching)"
| "lifecycle_edge dispatching s = (s = retry_wait \<or> s = http_completed \<or> s = unknown)"
| "lifecycle_edge http_completed s = (s = result_delivered)"
| "lifecycle_edge unknown s = (s = result_delivered)"
| "lifecycle_edge _ s = False"

definition same_identity :: "request_row \<Rightarrow> request_row \<Rightarrow> bool" where
  "same_identity r r' \<longleftrightarrow> rq_request_id r' = rq_request_id r \<and> rq_client_id r' = rq_client_id r
     \<and> rq_proxy_id r' = rq_proxy_id r \<and> rq_request r' = rq_request r \<and> rq_created_at r' = rq_created_at r"

definition advances :: "request_row \<Rightarrow> request_row \<Rightarrow> bool" where
  "advances r r' \<longleftrightarrow> same_identity r r' \<and>
     (rq_status r' = rq_status r \<and> rq_attempts r' = rq_attempts r
      \<or> lifecycle_edge (rq_status r) (rq_status r')
        \<and> rq_attempts r' = rq_attempts r + (if rq_status r' = dispatching then 1 else 0))"

definition fresh_request :: "request_row \<Rightarrow> bool" where
  "fresh_request r \<longleftrightarrow> rq_status r = awaiting_acceptance_ack \<and> rq_attempts r = 0"

definition removable :: "request_row \<Rightarrow> bool" where
  "removable r \<longleftrightarrow> rq_status r \<in> {result_delivered, failed, canceled}"

text \<open>What one operation may do to the requests, seen through the request identifiers.\<close>

definition requests_refine :: "proxy_db \<Rightarrow> proxy_db \<Rightarrow> bool" where
  "requests_refine db db' \<longleftrightarrow> (\<forall>rid.
     case request_of rid db of
       None \<Rightarrow> (case request_of rid db' of None \<Rightarrow> True | Some r' \<Rightarrow> fresh_request r')
     | Some r \<Rightarrow> (case request_of rid db' of None \<Rightarrow> removable r | Some r' \<Rightarrow> advances r r'))"

definition accept_id :: "string \<Rightarrow> string" where
  "accept_id rid = ''accept_'' @ rid"

definition result_id :: "string \<Rightarrow> string" where
  "result_id rid = ''result_'' @ rid"

abbreviation has_result :: "request_row \<Rightarrow> bool" where
  "has_result r \<equiv> rq_status r \<in> {http_completed, unknown, result_delivered}"

definition stored_ok :: "request_row \<Rightarrow> bool" where
  "stored_ok r \<longleftrightarrow> (\<exists>q. wf_http_request q \<and> canon_http_request q = q \<and> rq_request r = marshal_http_request q
     \<and> rq_request_id r = hq_RequestID q \<and> rq_client_id r = hq_ClientID q \<and> rq_proxy_id r = hq_ProxyID q)"

definition drives :: "delivery_kind \<Rightarrow> delivery_row \<Rightarrow> request_row \<Rightarrow> bool" where
  "drives kind d r \<longleftrightarrow> dl_kind d = kind \<and> dl_request_id d = Some (rq_request_id r) \<and> dl_client_id d = rq_client_id r
     \<and> dl_webhook_event_id d = None \<and> dl_command_id d = None"

definition handshake_open :: "proxy_db \<Rightarrow> request_row \<Rightarrow> bool" where
  "handshake_open db r \<longleftrightarrow>
     (rq_status r = awaiting_acceptance_ack \<longrightarrow>
        (\<exists>d. delivery_of (accept_id (rq_request_id r)) db = Some d \<and> drives acceptance_kind d r \<and> dl_acknowledged_at d = None))
     \<and> (has_result r \<longrightarrow>
        (\<exists>d. delivery_of (result_id (rq_request_id r)) db = Some d \<and> drives result_kind d r
           \<and> (rq_status r \<noteq> result_delivered \<longrightarrow> dl_acknowledged_at d = None)))"

definition delivery_ok :: "proxy_db \<Rightarrow> delivery_row \<Rightarrow> bool" where
  "delivery_ok db d \<longleftrightarrow>
     (case dl_kind d of
        acceptance_kind \<Rightarrow> (\<exists>rid r. dl_delivery_id d = accept_id rid \<and> request_of rid db = Some r \<and> drives acceptance_kind d r)
      | result_kind \<Rightarrow> (\<exists>rid r. dl_delivery_id d = result_id rid \<and> request_of rid db = Some r \<and> drives result_kind d r
                              \<and> has_result r)
      | _ \<Rightarrow> dl_request_id d = None \<and> (\<forall>rid. dl_delivery_id d \<noteq> accept_id rid \<and> dl_delivery_id d \<noteq> result_id rid))"

definition repo_inv :: "proxy_db \<Rightarrow> bool" where
  "repo_inv db \<longleftrightarrow> unique_by rq_request_id (db_requests db) \<and> unique_by dl_delivery_id (db_deliveries db)
     \<and> (\<forall>rid r. request_of rid db = Some r \<longrightarrow> stored_ok r \<and> handshake_open db r)
     \<and> (\<forall>did d. delivery_of did db = Some d \<longrightarrow> delivery_ok db d)"

subsection \<open>Lookups after the elementary statements\<close>

lemma request_of_update:
  "(\<And>r. rq_request_id (f r) = rq_request_id r) \<Longrightarrow>
   request_of rid (db\<lparr>db_requests := update_where p f (db_requests db)\<rparr>)
     = map_option (\<lambda>r. if p r then f r else r) (request_of rid db)"
  by (simp add: row_by_update)

lemma row_by_key [dest]: "row_by key k t = Some r \<Longrightarrow> key r = k"
  by (auto dest: row_by_Some_mem)

lemma ack_delivery_simps [simp]:
  "dl_delivery_id (ack_delivery now d) = dl_delivery_id d" "dl_kind (ack_delivery now d) = dl_kind d"
  "dl_request_id (ack_delivery now d) = dl_request_id d" "dl_client_id (ack_delivery now d) = dl_client_id d"
  "dl_acknowledged_at (ack_delivery now d) = Some (coalesce (dl_acknowledged_at d) now)"
  "dl_webhook_event_id (ack_delivery now d) = dl_webhook_event_id d" "dl_command_id (ack_delivery now d) = dl_command_id d"
  by (simp_all add: ack_delivery_def)

lemma reopen_delivery_simps [simp]:
  "dl_delivery_id (reopen_delivery now d) = dl_delivery_id d" "dl_kind (reopen_delivery now d) = dl_kind d"
  "dl_request_id (reopen_delivery now d) = dl_request_id d" "dl_client_id (reopen_delivery now d) = dl_client_id d"
  "dl_acknowledged_at (reopen_delivery now d) = None"
  "dl_webhook_event_id (reopen_delivery now d) = dl_webhook_event_id d" "dl_command_id (reopen_delivery now d) = dl_command_id d"
  by (simp_all add: reopen_delivery_def)

lemma new_delivery_simps [simp]:
  "dl_delivery_id (new_delivery did kind client subject mtype payload rid eid cid now) = did"
  "dl_kind (new_delivery did kind client subject mtype payload rid eid cid now) = kind"
  "dl_client_id (new_delivery did kind client subject mtype payload rid eid cid now) = client"
  "dl_request_id (new_delivery did kind client subject mtype payload rid eid cid now) = rid"
  "dl_acknowledged_at (new_delivery did kind client subject mtype payload rid eid cid now) = None"
  "dl_webhook_event_id (new_delivery did kind client subject mtype payload rid eid cid now) = eid"
  "dl_command_id (new_delivery did kind client subject mtype payload rid eid cid now) = cid"
  by (simp_all add: new_delivery_def)

lemma new_request_simps [simp]:
  "rq_request_id (new_request q now) = hq_RequestID q" "rq_client_id (new_request q now) = hq_ClientID q"
  "rq_proxy_id (new_request q now) = hq_ProxyID q" "rq_request (new_request q now) = marshal_http_request q"
  "rq_status (new_request q now) = awaiting_acceptance_ack" "rq_attempts (new_request q now) = 0"
  by (simp_all add: new_request_def)

lemma insert_delivery_requests [simp]: "db_requests (insert_delivery d db) = db_requests db"
  by (simp add: insert_delivery_def)

lemma delivery_of_insert:
  "delivery_of did (insert_delivery d db) =
     (case delivery_of (dl_delivery_id d) db of
        None \<Rightarrow> if did = dl_delivery_id d then Some d else delivery_of did db
      | Some _ \<Rightarrow> delivery_of did db)"
proof (cases "delivery_of (dl_delivery_id d) db")
  case None
  then have "\<not> row_exists (\<lambda>r. dl_delivery_id r = dl_delivery_id d) (db_deliveries db)"
    by (auto simp: row_by_None_iff row_exists_iff)
  with None show ?thesis by (simp add: insert_delivery_def row_by_insert)
next
  case (Some e)
  then have "row_exists (\<lambda>r. dl_delivery_id r = dl_delivery_id d) (db_deliveries db)"
    by (auto simp: row_exists_iff dest: row_by_Some_mem)
  with Some show ?thesis by (simp add: insert_delivery_def)
qed

lemma unique_insert_delivery:
  "unique_by dl_delivery_id (db_deliveries db) \<Longrightarrow> unique_by dl_delivery_id (db_deliveries (insert_delivery d db))"
  by (auto simp: insert_delivery_def row_exists_iff row_by_None_iff intro: unique_by_insert)

lemma accept_id_inj [simp]: "accept_id a = accept_id b \<longleftrightarrow> a = b"
  by (simp add: accept_id_def)

lemma result_id_inj [simp]: "result_id a = result_id b \<longleftrightarrow> a = b"
  by (simp add: result_id_def)

lemma accept_result_id [simp]: "accept_id a \<noteq> result_id b" "result_id b \<noteq> accept_id a"
  by (simp_all add: accept_id_def result_id_def)

subsection \<open>The invariant, its introduction and what it gives\<close>

lemma repo_invI:
  assumes "unique_by rq_request_id (db_requests db)" and "unique_by dl_delivery_id (db_deliveries db)"
    and "\<And>rid r. request_of rid db = Some r \<Longrightarrow> stored_ok r \<and> handshake_open db r"
    and "\<And>did d. delivery_of did db = Some d \<Longrightarrow> delivery_ok db d"
  shows "repo_inv db"
  using assms by (simp add: repo_inv_def)

lemma repo_invD:
  assumes "repo_inv db"
  shows "unique_by rq_request_id (db_requests db)" and "unique_by dl_delivery_id (db_deliveries db)"
    and "request_of rid db = Some r \<Longrightarrow> stored_ok r"
    and "request_of rid db = Some r \<Longrightarrow> handshake_open db r"
    and "delivery_of did db = Some d \<Longrightarrow> delivery_ok db d"
  using assms by (simp_all add: repo_inv_def)

lemma repo_inv_empty: "repo_inv empty_db"
  by (simp add: repo_inv_def empty_db_def)

lemma no_acceptance_without_request:
  "repo_inv db \<Longrightarrow> request_of rid db = None \<Longrightarrow> delivery_of (accept_id rid) db = None"
  using repo_invD(5) [of db "accept_id rid"]
  by (cases "delivery_of (accept_id rid) db") (fastforce simp: delivery_ok_def split: delivery_kind.splits)+

lemma no_result_before_end:
  "repo_inv db \<Longrightarrow> (\<And>r. request_of rid db = Some r \<Longrightarrow> \<not> has_result r) \<Longrightarrow> delivery_of (result_id rid) db = None"
  using repo_invD(5) [of db "result_id rid"]
  by (cases "delivery_of (result_id rid) db") (fastforce simp: delivery_ok_def split: delivery_kind.splits)+

text \<open>Reading a stored request back gives the request that was stored.\<close>

lemma stored_request:
  assumes "stored_ok r"
  obtains q where "wf_http_request q" "canon_http_request q = q" "rq_request r = marshal_http_request q"
    "unmarshal_struct http_request_fields (rq_request r) (zero_http_request\<lparr>hq_RequestID := rid\<rparr>) = Some q"
    "rq_request_id r = hq_RequestID q" "rq_client_id r = hq_ClientID q" "rq_proxy_id r = hq_ProxyID q"
proof -
  obtain q where q: "wf_http_request q" "canon_http_request q = q" "rq_request r = marshal_http_request q"
    "rq_request_id r = hq_RequestID q" "rq_client_id r = hq_ClientID q" "rq_proxy_id r = hq_ProxyID q"
    using assms unfolding stored_ok_def by blast
  have "unmarshal_struct http_request_fields (marshal_http_request q) (zero_http_request\<lparr>hq_RequestID := rid\<rparr>)
      = Some (canon_http_request q)"
    using q(1) by (simp add: marshal_http_request_def unmarshal_marshal)
      (simp add: http_request_fields_def zero_http_request_def jsteps jstep_headers jstep_retry
        wf_http_request_def canon_http_request_def)
  then show ?thesis using q by (intro that [of q]) simp_all
qed

end
