(* ===== verification/Outgoing_Invariants.thy ===== *)
theory Outgoing_Invariants
  imports Request_Lifecycle
begin

text \<open>
  Every operation on outgoing requests and deliveries keeps the invariant \<open>repo_inv\<close> and moves the
  requests only along the specification \<open>requests_refine\<close>.
\<close>

subsection \<open>Updates of rows\<close>

definition keeps_owner :: "(delivery_row \<Rightarrow> delivery_row) \<Rightarrow> bool" where
  "keeps_owner g \<longleftrightarrow> (\<forall>d. dl_delivery_id (g d) = dl_delivery_id d \<and> dl_kind (g d) = dl_kind d
     \<and> dl_request_id (g d) = dl_request_id d \<and> dl_client_id (g d) = dl_client_id d
     \<and> dl_webhook_event_id (g d) = dl_webhook_event_id d \<and> dl_command_id (g d) = dl_command_id d)"

lemma keeps_owner_simps [simp]:
  "keeps_owner (ack_delivery now)" "keeps_owner (reopen_delivery now)" "keeps_owner (\<lambda>d. d)"
  by (simp_all add: keeps_owner_def)

lemma keeps_owner_drives: "keeps_owner g \<Longrightarrow> drives kind (g d) r = drives kind d r"
  by (simp add: keeps_owner_def drives_def)

lemma keeps_owner_id: "keeps_owner g \<Longrightarrow> dl_delivery_id (g d) = dl_delivery_id d"
  by (simp add: keeps_owner_def)

lemma keeps_owner_ok: "keeps_owner g \<Longrightarrow> delivery_ok db (g d) = delivery_ok db d"
  by (cases "dl_kind d") (simp_all add: delivery_ok_def keeps_owner_def drives_def)

lemma same_identity_drives: "same_identity r r' \<Longrightarrow> drives kind d r' = drives kind d r"
  by (simp add: same_identity_def drives_def)

lemma same_identity_stored: "same_identity r r' \<Longrightarrow> stored_ok r' = stored_ok r"
  by (simp add: same_identity_def stored_ok_def)

lemma same_identity_refl [simp]: "same_identity r r"
  by (simp add: same_identity_def)

lemma delivery_ok_mono:
  assumes ok: "delivery_ok db d"
    and keep: "\<And>k r. request_of k db = Some r \<Longrightarrow>
        \<exists>r'. request_of k db' = Some r' \<and> same_identity r r' \<and> (has_result r \<longrightarrow> has_result r')"
  shows "delivery_ok db' d"
proof (cases "dl_kind d")
  case acceptance_kind
  with ok obtain rid r where r: "dl_delivery_id d = accept_id rid" "request_of rid db = Some r" "drives acceptance_kind d r"
    by (auto simp: delivery_ok_def)
  then obtain r' where "request_of rid db' = Some r'" "drives acceptance_kind d r'"
    using keep [of rid r] same_identity_drives by blast
  then show ?thesis using r(1) acceptance_kind by (simp add: delivery_ok_def)
next
  case result_kind
  with ok obtain rid r where r: "dl_delivery_id d = result_id rid" "request_of rid db = Some r" "drives result_kind d r" "has_result r"
    by (auto simp: delivery_ok_def)
  then obtain r' where "request_of rid db' = Some r'" "drives result_kind d r'" "has_result r'"
    using keep [of rid r] same_identity_drives by blast
  then show ?thesis using r(1) result_kind by (simp add: delivery_ok_def)
qed (use ok in \<open>simp_all add: delivery_ok_def\<close>)

text \<open>
  Rows of both tables updated in place: the invariant is kept when the rows keep their owners, no
  result appears or disappears, and a handshake that stays open keeps an unacknowledged delivery.
\<close>

lemma inv_update_both:
  assumes inv: "repo_inv db"
    and id: "\<And>r. same_identity r (f r)" and own: "keeps_owner g"
    and acc: "\<And>rid r d. request_of rid db = Some r \<Longrightarrow> rq_status (if p r then f r else r) = awaiting_acceptance_ack \<Longrightarrow>
        rq_status r = awaiting_acceptance_ack \<and>
        (delivery_of (accept_id rid) db = Some d \<longrightarrow> drives acceptance_kind d r \<longrightarrow> dl_acknowledged_at d = None \<longrightarrow> q d \<longrightarrow> dl_acknowledged_at (g d) = None)"
    and res: "\<And>rid r. request_of rid db = Some r \<Longrightarrow> has_result (if p r then f r else r) = has_result r"
    and opn: "\<And>rid r d. request_of rid db = Some r \<Longrightarrow> has_result r \<Longrightarrow> rq_status (if p r then f r else r) \<noteq> result_delivered \<Longrightarrow>
        rq_status r \<noteq> result_delivered \<and>
        (delivery_of (result_id rid) db = Some d \<longrightarrow> drives result_kind d r \<longrightarrow> dl_acknowledged_at d = None \<longrightarrow> q d \<longrightarrow> dl_acknowledged_at (g d) = None)"
    and db': "db_requests db' = update_where p f (db_requests db)" "db_deliveries db' = update_where q g (db_deliveries db)"
  shows "repo_inv db'"
proof (rule repo_invI)
  have idk: "rq_request_id (f r) = rq_request_id r" for r using id [of r] by (simp add: same_identity_def)
  have R: "request_of rid db' = map_option (\<lambda>r. if p r then f r else r) (request_of rid db)" for rid
    using idk by (simp add: db' row_by_update)
  have D: "delivery_of did db' = map_option (\<lambda>d. if q d then g d else d) (delivery_of did db)" for did
    using own by (simp add: db' row_by_update keeps_owner_id)
  show "unique_by rq_request_id (db_requests db')"
    using repo_invD(1) [OF inv] idk by (simp add: db' unique_by_update)
  show "unique_by dl_delivery_id (db_deliveries db')"
    using repo_invD(2) [OF inv] own by (simp add: db' unique_by_update keeps_owner_id)
  show "stored_ok r' \<and> handshake_open db' r'" if r': "request_of rid db' = Some r'" for rid r'
  proof -
    from r' obtain r where r: "request_of rid db = Some r" and r'_eq: "r' = (if p r then f r else r)"
      by (auto simp: R)
    have same: "same_identity r r'" using id by (simp add: r'_eq)
    have rid: "rq_request_id r = rid" "rq_request_id r' = rid" using r same by (auto simp: same_identity_def)
    have ho: "handshake_open db r" by (rule repo_invD(4) [OF inv r])
    have "handshake_open db' r'"
      unfolding handshake_open_def
    proof (intro conjI impI)
      assume st: "rq_status r' = awaiting_acceptance_ack"
      then have st0: "rq_status r = awaiting_acceptance_ack" using acc [OF r] by (simp add: r'_eq)
      then obtain d where d: "delivery_of (accept_id rid) db = Some d" "drives acceptance_kind d r" "dl_acknowledged_at d = None"
        using ho rid by (auto simp: handshake_open_def)
      then have "dl_acknowledged_at (if q d then g d else d) = None" using acc [OF r, of d] st by (simp add: r'_eq)
      then show "\<exists>d. delivery_of (accept_id (rq_request_id r')) db' = Some d \<and> drives acceptance_kind d r' \<and> dl_acknowledged_at d = None"
        using d rid by (simp add: D keeps_owner_drives [OF own] same_identity_drives [OF same])
    next
      assume st: "has_result r'"
      then have st0: "has_result r" using res [OF r] by (simp add: r'_eq)
      then obtain d where d: "delivery_of (result_id rid) db = Some d" "drives result_kind d r"
        "rq_status r \<noteq> result_delivered \<longrightarrow> dl_acknowledged_at d = None"
        using ho rid by (auto simp: handshake_open_def)
      then have "rq_status r' \<noteq> result_delivered \<longrightarrow> dl_acknowledged_at (if q d then g d else d) = None"
        using opn [OF r st0, of d] by (simp add: r'_eq)
      then show "\<exists>d. delivery_of (result_id (rq_request_id r')) db' = Some d \<and> drives result_kind d r'
          \<and> (rq_status r' \<noteq> result_delivered \<longrightarrow> dl_acknowledged_at d = None)"
        using d rid by (simp add: D keeps_owner_drives [OF own] same_identity_drives [OF same])
    qed
    then show ?thesis using repo_invD(3) [OF inv r] same_identity_stored [OF same] by simp
  qed
  show "delivery_ok db' d'" if d': "delivery_of did db' = Some d'" for did d'
  proof -
    from d' obtain d where d: "delivery_of did db = Some d" and d'_eq: "d' = (if q d then g d else d)"
      by (auto simp: D)
    have "delivery_ok db d'"
      using repo_invD(5) [OF inv d] by (simp add: d'_eq keeps_owner_ok [OF own])
    then show ?thesis
      by (rule delivery_ok_mono) (use res id in \<open>simp add: R\<close>)
  qed
qed


lemma update_where_id [simp]: "update_where p (\<lambda>x. x) t = t"
  by (simp add: update_where_def)

text \<open>A request changes its state outside the two handshakes.\<close>

lemma inv_update_requests:
  assumes inv: "repo_inv db" and id: "\<And>r. same_identity r (f r)"
    and st: "\<And>r. p r \<Longrightarrow> \<not> has_result r \<and> \<not> has_result (f r) \<and> rq_status (f r) \<noteq> awaiting_acceptance_ack"
    and db': "db_requests db' = update_where p f (db_requests db)" "db_deliveries db' = db_deliveries db"
  shows "repo_inv db'"
proof (rule inv_update_both [OF inv id, where g = "\<lambda>d. d" and q = "\<lambda>d. True" and p = p])
  show "rq_status r = awaiting_acceptance_ack \<and> (delivery_of (accept_id rid) db = Some d \<longrightarrow>
      drives acceptance_kind d r \<longrightarrow> dl_acknowledged_at d = None \<longrightarrow> True \<longrightarrow> dl_acknowledged_at d = None)"
    if "rq_status (if p r then f r else r) = awaiting_acceptance_ack" for rid r d
    using that st [of r] by (auto split: if_splits)
  show "has_result (if p r then f r else r) = has_result r" for r using st [of r] by (simp split: if_splits)
  show "rq_status r \<noteq> result_delivered \<and> (delivery_of (result_id rid) db = Some d \<longrightarrow>
      drives result_kind d r \<longrightarrow> dl_acknowledged_at d = None \<longrightarrow> True \<longrightarrow> dl_acknowledged_at d = None)"
    if "has_result r" "rq_status (if p r then f r else r) \<noteq> result_delivered" for rid r d
    using that st [of r] by (auto split: if_splits)
qed (simp_all add: db')

text \<open>Deliveries are rescheduled, leased or opened again, or acknowledged outside the handshakes of requests.\<close>

lemma inv_update_deliveries:
  assumes inv: "repo_inv db" and own: "keeps_owner g"
    and ack: "\<And>d. q d \<Longrightarrow> dl_request_id d \<noteq> None \<Longrightarrow> dl_webhook_event_id d = None \<Longrightarrow> dl_command_id d = None \<Longrightarrow>
        dl_kind d = acceptance_kind \<or> dl_kind d = result_kind \<Longrightarrow>
        dl_acknowledged_at d = None \<Longrightarrow> dl_acknowledged_at (g d) = None"
    and db': "db_requests db' = db_requests db" "db_deliveries db' = update_where q g (db_deliveries db)"
  shows "repo_inv db'"
  by (rule inv_update_both [OF inv _ own, where f = "\<lambda>r. r" and p = "\<lambda>r. True" and q = q])
    (use ack in \<open>auto simp: db' drives_def\<close>)

lemma refine_refl: "db_requests db' = db_requests db \<Longrightarrow> requests_refine db db'"
  by (simp add: requests_refine_def advances_def split: option.split)

lemma refine_update:
  assumes "\<And>r. p r \<Longrightarrow> advances r (f r)" and id: "\<And>r. rq_request_id (f r) = rq_request_id r"
    and "db_requests db' = update_where p f (db_requests db)"
  shows "requests_refine db db'"
  using assms(1) by (simp add: requests_refine_def assms(3) row_by_update [where key = rq_request_id, OF id] advances_def split: option.split)

subsection \<open>New deliveries\<close>

lemma inv_insert_delivery:
  assumes inv: "repo_inv db" and d: "delivery_ok db d"
  shows "repo_inv (insert_delivery d db)"
proof (cases "delivery_of (dl_delivery_id d) db")
  case (Some e)
  then have "insert_delivery d db = db"
    by (auto simp: insert_delivery_def row_exists_iff dest: row_by_Some_mem)
  then show ?thesis using inv by simp
next
  case None
  note D = delivery_of_insert [of _ d db, unfolded None option.case]
  show ?thesis
  proof (rule repo_invI)
    show "unique_by rq_request_id (db_requests (insert_delivery d db))" using repo_invD(1) [OF inv] by simp
    show "unique_by dl_delivery_id (db_deliveries (insert_delivery d db))"
      by (rule unique_insert_delivery) (rule repo_invD(2) [OF inv])
    show "stored_ok r \<and> handshake_open (insert_delivery d db) r" if "request_of rid (insert_delivery d db) = Some r" for rid r
    proof -
      have r: "request_of rid db = Some r" using that by simp
      have "delivery_of k (insert_delivery d db) = Some e" if "delivery_of k db = Some e" for k e
        using that None by (auto simp: D)
      then show ?thesis using repo_invD(3,4) [OF inv r] unfolding handshake_open_def by blast
    qed
    show "delivery_ok (insert_delivery d db) e" if "delivery_of k (insert_delivery d db) = Some e" for k e
    proof -
      have "delivery_ok db e" using that d repo_invD(5) [OF inv] by (auto simp: D split: if_splits)
      then show ?thesis by (rule delivery_ok_mono) simp
    qed
  qed
qed

text \<open>A dispatched request ends: its row gets a result and the delivery of the result is created.\<close>

lemma inv_complete:
  assumes inv: "repo_inv db" and r: "request_of rid db = Some r" "rq_status r = dispatching"
    and p: "\<And>x. request_of (rq_request_id x) db = Some x \<Longrightarrow> p x \<longleftrightarrow> x = r"
    and id: "\<And>x. same_identity x (f x)"
    and st: "rq_status (f r) = http_completed \<or> rq_status (f r) = unknown"
    and d: "dl_delivery_id d = result_id rid" "drives result_kind d r" "dl_acknowledged_at d = None"
  shows "repo_inv (insert_delivery d (db\<lparr>db_requests := update_where p f (db_requests db)\<rparr>))" (is "repo_inv ?db'")
proof (rule repo_invI)
  have idk: "rq_request_id (f x) = rq_request_id x" for x using id [of x] by (simp add: same_identity_def)
  have rid: "rq_request_id r = rid" using r by auto
  have none: "delivery_of (result_id rid) db = None" by (rule no_result_before_end [OF inv]) (use r in simp)
  have R: "row_by rq_request_id k (update_where p f (db_requests db)) = (if k = rid then Some (f r) else request_of k db)" for k
  proof (cases "request_of k db")
    case (Some x)
    then have "p x \<longleftrightarrow> k = rid" using p [of x] r rid by (metis option.sel row_by_key)
    then show ?thesis using Some r by (auto simp: row_by_update [where key = rq_request_id, OF idk])
  qed (use r in \<open>auto simp: row_by_update [where key = rq_request_id, OF idk]\<close>)
  have D: "delivery_of k ?db' = (if k = result_id rid then Some d else delivery_of k db)" for k
    using none d(1) by (simp add: delivery_of_insert)
  show "unique_by rq_request_id (db_requests ?db')" using repo_invD(1) [OF inv] by (simp add: unique_by_update [where key = rq_request_id, OF idk])
  show "unique_by dl_delivery_id (db_deliveries ?db')"
    by (rule unique_insert_delivery) (simp add: repo_invD(2) [OF inv])
  show "stored_ok x \<and> handshake_open ?db' x" if "request_of k ?db' = Some x" for k x
  proof (cases "k = rid")
    case True
    then have "x = f r" using that by (simp add: R)
    then show ?thesis using repo_invD(3) [OF inv r(1)] st d(2,3) same_identity_drives [OF id] same_identity_stored [OF id] rid idk
      by (simp add: handshake_open_def D) (metis request_status.distinct)
  next
    case False
    then have x: "request_of k db = Some x" using that by (simp add: R)
    then have "rq_request_id x \<noteq> rid" using False by auto
    then show ?thesis using repo_invD(3,4) [OF inv x] by (simp add: handshake_open_def D)
  qed
  show "delivery_ok ?db' e" if e: "delivery_of k ?db' = Some e" for k e
  proof (cases "k = result_id rid")
    case True
    then have "e = d" using e by (simp add: D)
    moreover have "dl_kind d = result_kind" using d(2) by (simp add: drives_def)
    ultimately show ?thesis using d(1,2) st same_identity_drives [OF id, of result_kind d r]
      by (auto simp: delivery_ok_def R)
  next
    case False
    then have "delivery_of k db = Some e" using e by (simp add: D)
    then show ?thesis
      by (rule delivery_ok_mono [OF repo_invD(5) [OF inv]]) (use r id st in \<open>auto simp: R\<close>)
  qed
qed


subsection \<open>The worker's operations\<close>

lemma ReserveRequest_found:
  assumes inv: "repo_inv db" and res: "ReserveRequest lease locked entropy now db = (Inr op, db')"
  obtains r where "request_of (rq_request_id r) db = Some r" "reservable now r" "rq_request_id r \<notin> set locked"
    "wf_http_request (op_Request op)" "canon_http_request (op_Request op) = op_Request op"
    "rq_request r = marshal_http_request (op_Request op)" "hq_RequestID (op_Request op) = rq_request_id r"
    "hq_ClientID (op_Request op) = rq_client_id r" "hq_ProxyID (op_Request op) = rq_proxy_id r"
    "op_Attempts op = rq_attempts r" "op_DispatchToken op = randomID entropy"
    "db' = db\<lparr>db_requests := update_where (\<lambda>x. rq_request_id x = rq_request_id r)
       (\<lambda>x. x\<lparr>rq_status := reserved, rq_dispatch_token := Some (randomID entropy),
              rq_lease_until := Some (now + pgInterval lease), rq_updated_at := now\<rparr>) (db_requests db)\<rparr>"
    "\<And>s. s \<in> set (db_requests db) \<Longrightarrow> reservable now s \<Longrightarrow> rq_request_id s \<notin> set locked \<Longrightarrow> rq_created_at r \<le> rq_created_at s"
proof -
  let ?t = "select_where (\<lambda>r. reservable now r \<and> \<not> contains locked (rq_request_id r)) (db_requests db)"
  obtain r where r: "order_limit rq_created_at 1 ?t = [r]"
    using order_limit_1_cases [of rq_created_at ?t] res by (auto simp: ReserveRequest_def)
  then have mem: "r \<in> set ?t" "\<forall>s\<in>set ?t. rq_created_at r \<le> rq_created_at s"
    using order_limit_1_least [of rq_created_at ?t r] by auto
  then have rdb: "request_of (rq_request_id r) db = Some r" using row_by_of_mem [OF repo_invD(1) [OF inv]] by (auto simp: sql_simps)
  obtain q where q: "wf_http_request q" "canon_http_request q = q" "rq_request r = marshal_http_request q"
    "unmarshal_struct http_request_fields (rq_request r) (zero_http_request\<lparr>hq_RequestID := rq_request_id r\<rparr>) = Some q"
    "rq_request_id r = hq_RequestID q" "rq_client_id r = hq_ClientID q" "rq_proxy_id r = hq_ProxyID q"
    by (rule stored_request [OF repo_invD(3) [OF inv rdb], of "rq_request_id r"])
  have eq: "op = \<lparr>op_Request = q, op_Attempts = rq_attempts r, op_DispatchToken = randomID entropy\<rparr>"
    "db' = db\<lparr>db_requests := update_where (\<lambda>x. rq_request_id x = rq_request_id r)
       (\<lambda>x. x\<lparr>rq_status := reserved, rq_dispatch_token := Some (randomID entropy),
              rq_lease_until := Some (now + pgInterval lease), rq_updated_at := now\<rparr>) (db_requests db)\<rparr>"
    using res r q(4) by (auto simp: ReserveRequest_def q(5) Let_def)
  show ?thesis
    by (rule that [of r]) (use mem rdb q eq in \<open>auto simp: sql_simps\<close>)
qed

lemma ReserveRequest_error: "ReserveRequest lease locked entropy now db = (Inl e, db') \<Longrightarrow> db' = db"
  by (auto simp: ReserveRequest_def Let_def split: list.splits option.splits)

text \<open>An update of the single row with a given key.\<close>

lemma refine_update_key:
  assumes "unique_by rq_request_id (db_requests db)" and r: "request_of rid db = Some r" and adv: "advances r (f r)"
    and id: "\<And>x. rq_request_id (f x) = rq_request_id x"
    and db': "db_requests db' = update_where (\<lambda>x. rq_request_id x = rid) f (db_requests db)"
  shows "requests_refine db db'"
proof -
  have "request_of k db' = (if k = rid then Some (f r) else request_of k db)" for k
    using r by (cases "request_of k db") (auto simp: db' row_by_update [where key = rq_request_id, OF id])
  then show ?thesis using r adv by (simp add: requests_refine_def advances_def split: option.split)
qed

lemma inv_update_key:
  assumes inv: "repo_inv db" and r: "request_of rid db = Some r"
    and st: "\<not> has_result r" "\<not> has_result (f r)" "rq_status (f r) \<noteq> awaiting_acceptance_ack"
    and id: "\<And>x. same_identity x (f x)"
    and db': "db_requests db' = update_where (\<lambda>x. rq_request_id x = rid) f (db_requests db)" "db_deliveries db' = db_deliveries db"
  shows "repo_inv db'"
proof (rule inv_update_requests [OF inv, where p = "\<lambda>x. x = r" and f = f])
  have "x = r \<longleftrightarrow> rq_request_id x = rid" if x: "x \<in> set (db_requests db)" for x
  proof
    assume "x = r"
    then show "rq_request_id x = rid" using row_by_key [OF r] by simp
  next
    assume "rq_request_id x = rid"
    then have "request_of rid db = Some x" using row_by_of_mem [OF repo_invD(1) [OF inv] x] by simp
    then show "x = r" using r by simp
  qed
  then show "db_requests db' = update_where (\<lambda>x. x = r) f (db_requests db)"
    by (simp add: db' update_where_def)
qed (use st id db' in auto)


text \<open>What every operation promises: the invariant is kept and the requests follow the specification.\<close>

definition lawful :: "proxy_db \<Rightarrow> proxy_db \<Rightarrow> bool" where
  "lawful db db' \<longleftrightarrow> (repo_inv db \<longrightarrow> repo_inv db' \<and> requests_refine db db')"

lemma lawfulI: "(repo_inv db \<Longrightarrow> repo_inv db') \<Longrightarrow> (repo_inv db \<Longrightarrow> requests_refine db db') \<Longrightarrow> lawful db db'"
  by (simp add: lawful_def)

lemma lawful_refl [simp]: "lawful db db"
  by (simp add: lawful_def refine_refl)

lemma lawful_requests:
  assumes "\<And>r. p r \<Longrightarrow> advances r (f r) \<and> \<not> has_result r \<and> \<not> has_result (f r) \<and> rq_status (f r) \<noteq> awaiting_acceptance_ack"
    and id: "\<And>r. same_identity r (f r)"
    and db': "db_requests db' = update_where p f (db_requests db)" "db_deliveries db' = db_deliveries db"
  shows "lawful db db'"
proof (rule lawfulI)
  show "repo_inv db'" if "repo_inv db"
    by (rule inv_update_requests [OF that id _ db']) (use assms(1) in auto)
  show "requests_refine db db'"
    by (rule refine_update [OF _ _ db'(1)]) (use assms(1) id in \<open>auto simp: same_identity_def\<close>)
qed

lemma lawful_deliveries:
  assumes "keeps_owner g"
    and "\<And>d. q d \<Longrightarrow> dl_request_id d \<noteq> None \<Longrightarrow> dl_webhook_event_id d = None \<Longrightarrow> dl_command_id d = None \<Longrightarrow>
        dl_kind d = acceptance_kind \<or> dl_kind d = result_kind \<Longrightarrow>
        dl_acknowledged_at d = None \<Longrightarrow> dl_acknowledged_at (g d) = None"
    and "db_requests db' = db_requests db" "db_deliveries db' = update_where q g (db_deliveries db)"
  shows "lawful db db'"
  using assms by (auto intro!: lawfulI refine_refl inv_update_deliveries [of db g q db'])

lemma lawful_frame:
  "db_requests db' = db_requests db \<Longrightarrow> db_deliveries db' = db_deliveries db \<Longrightarrow> lawful db db'"
  by (rule lawful_deliveries [where g = "\<lambda>d. d" and q = "\<lambda>d. True"]) simp_all

lemma lawful_touch:
  assumes "keeps_owner g" and "\<And>d. dl_acknowledged_at d = None \<Longrightarrow> dl_acknowledged_at (g d) = None"
  shows "lawful db (db\<lparr>db_deliveries := update_where q g (db_deliveries db)\<rparr>)"
  using assms by (intro lawful_deliveries [where g = g and q = q]) auto

lemma ReserveRequest_lawful: "lawful db (snd (ReserveRequest lease locked entropy now db))"
proof (cases "ReserveRequest lease locked entropy now db")
  case (Pair res db')
  show ?thesis
  proof (cases res)
    case (Inl e)
    then show ?thesis using Pair ReserveRequest_error [of lease locked entropy now db e db'] by simp
  next
    case (Inr op)
    show ?thesis unfolding Pair snd_conv lawful_def
    proof
      assume inv: "repo_inv db"
      let ?f = "\<lambda>x. x\<lparr>rq_status := reserved, rq_dispatch_token := Some (randomID entropy),
                rq_lease_until := Some (now + pgInterval lease), rq_updated_at := now\<rparr>"
      from ReserveRequest_found [OF inv Pair [unfolded Inr]] obtain r
        where r: "request_of (rq_request_id r) db = Some r" "reservable now r"
          and db': "db' = db\<lparr>db_requests := update_where (\<lambda>x. rq_request_id x = rq_request_id r) ?f (db_requests db)\<rparr>"
        by blast
      have "repo_inv db'"
        by (rule inv_update_key [OF inv r(1), where f = ?f]) (use r(2) db' in \<open>auto simp: reservable_def same_identity_def\<close>)
      moreover have "requests_refine db db'"
        by (rule refine_update_key [OF repo_invD(1) [OF inv] r(1), where f = ?f])
          (use r(2) db' in \<open>auto simp: reservable_def advances_def same_identity_def\<close>)
      ultimately show "repo_inv db' \<and> requests_refine db db'" ..
    qed
  qed
qed

lemma BeginDispatch_lawful: "lawful db (snd (BeginDispatch requestID token lease now db))"
  by (rule lawful_requests [where p = "owned requestID reserved token" and f = "\<lambda>r. r\<lparr>rq_status := dispatching,
        rq_attempts := rq_attempts r + 1, rq_lease_until := Some (now + pgInterval lease), rq_updated_at := now\<rparr>"])
    (auto simp: BeginDispatch_def Let_def owned_def advances_def same_identity_def)

lemma ReleaseReserved_lawful: "lawful db (snd (ReleaseReserved requestID token now db))"
  by (rule lawful_requests [where p = "owned requestID reserved token" and f = "\<lambda>r. r\<lparr>rq_status := ready,
        rq_dispatch_token := None, rq_lease_until := None, rq_updated_at := now\<rparr>"])
    (auto simp: ReleaseReserved_def owned_def advances_def same_identity_def)

lemma ScheduleRetry_lawful: "lawful db (snd (ScheduleRetry requestID token reason next_at now db))"
  by (rule lawful_requests [where p = "owned requestID dispatching token" and f = "\<lambda>r. r\<lparr>rq_status := retry_wait,
        rq_last_error := Some reason, rq_next_attempt_at := next_at, rq_dispatch_token := None, rq_lease_until := None,
        rq_updated_at := now\<rparr>"])
    (auto simp: ScheduleRetry_def Let_def owned_def advances_def same_identity_def)

lemma ClaimDelivery_lawful: "lawful db (snd (ClaimDelivery lease locked now db))"
  by (auto simp: ClaimDelivery_def keeps_owner_def split: list.split intro!: lawful_touch)

lemma RescheduleDelivery_lawful: "lawful db (snd (RescheduleDelivery deliveryID after now db))"
  by (auto simp: RescheduleDelivery_def keeps_owner_def intro!: lawful_touch)

subsection \<open>The two handshakes\<close>

lemma AcceptHTTPRequest_new:
  assumes inv: "repo_inv db" and none: "request_of (hq_RequestID q) db = None"
    and q: "wf_http_request q" "canon_http_request q = q" and acc: "ac_DeliveryID acc = accept_id (hq_RequestID q)"
  shows "repo_inv (snd (AcceptHTTPRequest q acc subject now db))"
proof -
  let ?rid = "hq_RequestID q"
  define d where "d = new_delivery (accept_id ?rid) acceptance_kind (hq_ClientID q) subject TypeAcceptance
                (marshal_acceptance acc) (Some ?rid) None None now"
  define db' where "db' = insert_delivery d (db\<lparr>db_requests := insert_row (new_request q now) (db_requests db)\<rparr>)"
  have eq: "snd (AcceptHTTPRequest q acc subject now db) = db'"
    using none acc by (simp add: AcceptHTTPRequest_def Let_def db'_def d_def)
  have d: "dl_delivery_id d = accept_id ?rid" "drives acceptance_kind d (new_request q now)" "dl_acknowledged_at d = None"
    "dl_kind d = acceptance_kind"
    by (simp_all add: d_def drives_def)
  have R: "request_of k db' = (if k = ?rid then Some (new_request q now) else request_of k db)" for k
    using none row_by_insert [of rq_request_id "new_request q now" "db_requests db" k] by (simp add: db'_def)
  have D: "delivery_of k db' = (if k = accept_id ?rid then Some d else delivery_of k db)" for k
    using no_acceptance_without_request [OF inv none] d(1) by (simp add: db'_def delivery_of_insert)
  have "repo_inv db'"
  proof (rule repo_invI)
    show "unique_by rq_request_id (db_requests db')"
      using repo_invD(1) [OF inv] none by (simp add: db'_def unique_by_insert)
    show "unique_by dl_delivery_id (db_deliveries db')"
      unfolding db'_def by (rule unique_insert_delivery) (simp add: repo_invD(2) [OF inv])
    show "stored_ok r \<and> handshake_open db' r" if r: "request_of k db' = Some r" for k r
    proof (cases "k = ?rid")
      case True
      then have "r = new_request q now" using r by (simp add: R)
      then show ?thesis using d q by (auto simp: handshake_open_def D stored_ok_def)
    next
      case False
      then have x: "request_of k db = Some r" using r by (simp add: R)
      then have "rq_request_id r \<noteq> ?rid" using False by auto
      then show ?thesis using repo_invD(3,4) [OF inv x] by (simp add: handshake_open_def D)
    qed
    show "delivery_ok db' e" if e: "delivery_of k db' = Some e" for k e
    proof (cases "k = accept_id ?rid")
      case True
      then show ?thesis using e d by (auto simp: D R delivery_ok_def)
    next
      case False
      then have "delivery_of k db = Some e" using e by (simp add: D)
      then show ?thesis
        by (rule delivery_ok_mono [OF repo_invD(5) [OF inv]]) (use none in \<open>auto simp: R\<close>)
    qed
  qed
  then show ?thesis by (simp add: eq)
qed

lemma AcceptHTTPRequest_lawful:
  assumes q: "wf_http_request q" "canon_http_request q = q" and acc: "ac_DeliveryID acc = accept_id (hq_RequestID q)"
  shows "lawful db (snd (AcceptHTTPRequest q acc subject now db))"
proof (cases "request_of (hq_RequestID q) db")
  case None
  have "requests_refine db (snd (AcceptHTTPRequest q acc subject now db))"
    using None row_by_insert [of rq_request_id "new_request q now" "db_requests db"]
    by (simp add: AcceptHTTPRequest_def Let_def requests_refine_def advances_def fresh_request_def split: option.split)
  then show ?thesis using AcceptHTTPRequest_new [OF _ None q acc] by (simp add: lawful_def)
next
  case (Some r)
  let ?db1 = "db\<lparr>db_deliveries := update_where
      (\<lambda>x. sql_eq (dl_request_id x) (hq_RequestID q) \<and> (dl_kind x = acceptance_kind \<or> dl_kind x = result_kind))
      (reopen_delivery now) (db_deliveries db)\<rparr>"
  let ?d = "new_delivery (accept_id (hq_RequestID q)) acceptance_kind (hq_ClientID q) subject TypeAcceptance
      (marshal_acceptance acc) (Some (hq_RequestID q)) None None now"
  have law1: "lawful db ?db1" by (rule lawful_touch) simp_all
  show ?thesis
  proof (cases "rq_client_id r \<noteq> hq_ClientID q \<or> rq_proxy_id r \<noteq> hq_ProxyID q \<or> \<not> sameHTTPRequest (rq_request r) q")
    case True
    then have "snd (AcceptHTTPRequest q acc subject now db) = db" using Some by (auto simp: AcceptHTTPRequest_def)
    then show ?thesis by simp
  next
    case False
    then have eq: "snd (AcceptHTTPRequest q acc subject now db) = insert_delivery ?d ?db1"
      using Some acc by (simp add: AcceptHTTPRequest_def Let_def)
    have "repo_inv (insert_delivery ?d ?db1)" if "repo_inv db"
    proof -
      have inv1: "repo_inv ?db1" using law1 that by (simp add: lawful_def)
      have "drives acceptance_kind ?d r" using Some False by (auto simp: drives_def)
      then show ?thesis using Some by (intro inv_insert_delivery [OF inv1]) (auto simp: delivery_ok_def)
    qed
    then show ?thesis unfolding eq by (intro lawfulI refine_refl) simp_all
  qed
qed


text \<open>A delivery of an acceptance or a result is the one of the request it names.\<close>

lemma acceptance_delivery:
  assumes "repo_inv db" "delivery_of did db = Some d" "dl_kind d = acceptance_kind" "dl_request_id d = Some rid"
  obtains r where "did = accept_id rid" "request_of rid db = Some r" "dl_client_id d = rq_client_id r"
proof -
  obtain k r where "dl_delivery_id d = accept_id k" "request_of k db = Some r" "drives acceptance_kind d r"
    using repo_invD(5) [OF assms(1,2)] assms(3) by (auto simp: delivery_ok_def)
  moreover from this assms(2,4) have "rq_request_id r = k" "dl_delivery_id d = did" "rq_request_id r = rid"
    by (auto simp: drives_def)
  ultimately show ?thesis using that [of r] by (simp add: drives_def)
qed

lemma result_delivery:
  assumes "repo_inv db" "delivery_of did db = Some d" "dl_kind d = result_kind" "dl_request_id d = Some rid"
  obtains r where "did = result_id rid" "request_of rid db = Some r" "dl_client_id d = rq_client_id r" "has_result r"
proof -
  obtain k r where "dl_delivery_id d = result_id k" "request_of k db = Some r" "drives result_kind d r" "has_result r"
    using repo_invD(5) [OF assms(1,2)] assms(3) by (auto simp: delivery_ok_def)
  moreover from this assms(2,4) have "rq_request_id r = k" "dl_delivery_id d = did" "rq_request_id r = rid"
    by (auto simp: drives_def)
  ultimately show ?thesis using that [of r] by (simp add: drives_def)
qed

lemma ConfirmAcceptance_cases:
  obtains (error) e where "ConfirmAcceptance ack now db = (Inl e, db)"
  | (ok) d where "delivery_of (da_DeliveryID ack) db = Some d" "dl_request_id d = Some (da_RequestID ack)"
      "dl_kind d = acceptance_kind" "dl_client_id d = da_ClientID ack"
      "ConfirmAcceptance ack now db = (Inr (), db\<lparr>
         db_deliveries := update_where (\<lambda>x. dl_delivery_id x = da_DeliveryID ack) (ack_delivery now) (db_deliveries db),
         db_requests := update_where (\<lambda>r. rq_request_id r = da_RequestID ack \<and> rq_status r = awaiting_acceptance_ack)
           (\<lambda>r. r\<lparr>rq_status := ready, rq_updated_at := now\<rparr>) (db_requests db)\<rparr>)"
proof (cases "\<exists>e. ConfirmAcceptance ack now db = (Inl e, db)")
  case True
  then show ?thesis using error by blast
next
  case False
  then obtain d where "delivery_of (da_DeliveryID ack) db = Some d" "dl_request_id d = Some (da_RequestID ack)"
      "dl_kind d = acceptance_kind" "dl_client_id d = da_ClientID ack"
    by (auto simp: ConfirmAcceptance_def split: option.splits if_splits)
  then show ?thesis by (intro ok [of d]) (simp_all add: ConfirmAcceptance_def)
qed

lemma ConfirmResult_cases:
  obtains (error) e where "ConfirmResult ack now db = (Inl e, db)"
  | (ok) d where "delivery_of (da_DeliveryID ack) db = Some d" "dl_request_id d = Some (da_RequestID ack)"
      "dl_kind d = result_kind" "dl_client_id d = da_ClientID ack"
      "ConfirmResult ack now db = (Inr (), db\<lparr>
         db_deliveries := update_where (\<lambda>x. dl_delivery_id x = da_DeliveryID ack) (ack_delivery now) (db_deliveries db),
         db_requests := update_where (\<lambda>r. rq_request_id r = da_RequestID ack \<and> (rq_status r = http_completed \<or> rq_status r = unknown))
           (\<lambda>r. r\<lparr>rq_status := result_delivered, rq_updated_at := now\<rparr>) (db_requests db)\<rparr>)"
proof (cases "\<exists>e. ConfirmResult ack now db = (Inl e, db)")
  case True
  then show ?thesis using error by blast
next
  case False
  then obtain d where "delivery_of (da_DeliveryID ack) db = Some d" "dl_request_id d = Some (da_RequestID ack)"
      "dl_kind d = result_kind" "dl_client_id d = da_ClientID ack"
    by (auto simp: ConfirmResult_def split: option.splits if_splits)
  then show ?thesis by (intro ok [of d]) (simp_all add: ConfirmResult_def)
qed

lemma ConfirmAcceptance_lawful: "lawful db (snd (ConfirmAcceptance ack now db))"
proof (cases rule: ConfirmAcceptance_cases [of ack now db])
  case (ok d)
  let ?p = "\<lambda>r. rq_request_id r = da_RequestID ack \<and> rq_status r = awaiting_acceptance_ack"
  let ?f = "\<lambda>r. r\<lparr>rq_status := ready, rq_updated_at := now\<rparr>"
  show ?thesis
  proof (rule lawfulI)
    assume inv: "repo_inv db"
    obtain r where did: "da_DeliveryID ack = accept_id (da_RequestID ack)"
      using acceptance_delivery [OF inv ok(1,3,2)] by blast
    show "repo_inv (snd (ConfirmAcceptance ack now db))"
      by (rule inv_update_both [OF inv, where p = ?p and f = ?f and g = "ack_delivery now"
            and q = "\<lambda>x. dl_delivery_id x = da_DeliveryID ack"])
        (use row_by_key in \<open>fastforce simp: ok(5) did same_identity_def split: if_splits\<close>)+
  next
    show "requests_refine db (snd (ConfirmAcceptance ack now db))"
      by (rule refine_update [where p = ?p and f = ?f]) (auto simp: ok(5) advances_def same_identity_def)
  qed
qed simp

lemma ConfirmResult_lawful: "lawful db (snd (ConfirmResult ack now db))"
proof (cases rule: ConfirmResult_cases [of ack now db])
  case (ok d)
  let ?p = "\<lambda>r. rq_request_id r = da_RequestID ack \<and> (rq_status r = http_completed \<or> rq_status r = unknown)"
  let ?f = "\<lambda>r. r\<lparr>rq_status := result_delivered, rq_updated_at := now\<rparr>"
  show ?thesis
  proof (rule lawfulI)
    assume inv: "repo_inv db"
    obtain r where did: "da_DeliveryID ack = result_id (da_RequestID ack)"
      using result_delivery [OF inv ok(1,3,2)] by blast
    show "repo_inv (snd (ConfirmResult ack now db))"
      by (rule inv_update_both [OF inv, where p = ?p and f = ?f and g = "ack_delivery now"
            and q = "\<lambda>x. dl_delivery_id x = da_DeliveryID ack"])
        (use row_by_key in \<open>fastforce simp: ok(5) did same_identity_def split: if_splits\<close>)+
  next
    show "requests_refine db (snd (ConfirmResult ack now db))"
      by (rule refine_update [where p = ?p and f = ?f]) (auto simp: ok(5) advances_def same_identity_def)
  qed
qed simp

end
