(* ===== verification/Repository_Safety.thy ===== *)
theory Repository_Safety
  imports Outgoing_Invariants Repo_Limits
begin

text \<open>
  The operations that end a request or work on several rows at once, shown lawful: saving a result,
  recovering expired dispatches, the retention job, and the operations on callbacks, which share the
  table of deliveries with the requests.
\<close>

subsection \<open>Saving a result\<close>

lemma owned_request:
  assumes "repo_inv db" "rows_affected (owned rid st token) (db_requests db) \<noteq> 0"
  obtains r where "request_of rid db = Some r" "rq_status r = st" "rq_dispatch_token r = Some token"
    "\<And>x. request_of (rq_request_id x) db = Some x \<Longrightarrow> owned rid st token x \<longleftrightarrow> x = r"
proof -
  obtain r where r: "r \<in> set (db_requests db)" "owned rid st token r"
    using assms(2) by (auto simp: rows_affected_eq_0)
  then have rdb: "request_of rid db = Some r"
    using row_by_of_mem [OF repo_invD(1) [OF assms(1)] r(1)] by (simp add: owned_def)
  have "owned rid st token x \<longleftrightarrow> x = r" if "request_of (rq_request_id x) db = Some x" for x
    using that r(2) rdb by (metis option.inject owned_def)
  then show ?thesis using that [OF rdb] r(2) by (simp add: owned_def sql_eq_iff)
qed

lemma refine_complete:
  assumes r: "request_of rid db = Some r" "rq_status r = dispatching"
    and p: "\<And>x. request_of (rq_request_id x) db = Some x \<Longrightarrow> p x \<longleftrightarrow> x = r"
    and id: "\<And>x. same_identity x (f x)" and adv: "advances r (f r)"
    and db': "db_requests db' = update_where p f (db_requests db)"
  shows "requests_refine db db'"
proof -
  have idk: "rq_request_id (f x) = rq_request_id x" for x using id [of x] by (simp add: same_identity_def)
  have "request_of k db' = (if k = rid then Some (f r) else request_of k db)" for k
  proof (cases "request_of k db")
    case (Some x)
    then have "p x \<longleftrightarrow> k = rid" using p [of x] r by (metis option.sel row_by_key)
    then show ?thesis using Some r by (auto simp: db' row_by_update [where key = rq_request_id, OF idk])
  qed (use r in \<open>auto simp: db' row_by_update [where key = rq_request_id, OF idk]\<close>)
  then show ?thesis using r adv by (simp add: requests_refine_def advances_def split: option.split)
qed

text \<open>
  The result's identifier is the one derived from its request, and the caller passes the client of the
  request it owns.
\<close>

lemma SaveHTTPResult_lawful:
  assumes rid: "rs_ResultID result = result_id (rs_RequestID result)"
    and client: "\<And>r. request_of (rs_RequestID result) db = Some r \<Longrightarrow> owned (rs_RequestID result) dispatching token r \<Longrightarrow>
        rq_client_id r = clientID"
  shows "lawful db (snd (SaveHTTPResult token clientID subject result now db))"
  unfolding lawful_def
proof
  assume inv: "repo_inv db"
  let ?rid = "rs_RequestID result"
  let ?p = "owned ?rid dispatching token"
  let ?f = "\<lambda>r. r\<lparr>rq_status := (if rs_State result = ''unknown'' then unknown else http_completed),
      rq_result := Some (marshal_http_result result), rq_dispatch_token := None, rq_lease_until := None, rq_updated_at := now\<rparr>"
  let ?d = "new_delivery (result_id ?rid) result_kind clientID subject TypeHTTPResult (marshal_http_result result) (Some ?rid) None None now"
  let ?db1 = "db\<lparr>db_requests := update_where ?p ?f (db_requests db)\<rparr>"
  let ?db' = "snd (SaveHTTPResult token clientID subject result now db)"
  show "repo_inv ?db' \<and> requests_refine db ?db'"
  proof (cases "rows_affected ?p (db_requests db) = 0")
    case True
    then have same: "?db1 = db" by (simp add: update_where_none)
    show ?thesis
    proof (cases "\<exists>r. request_of ?rid db = Some r \<and> has_result r")
      case True
      then obtain r where r: "request_of ?rid db = Some r" "has_result r" by blast
      then have eq: "?db' = insert_delivery ?d ?db1"
        using \<open>rows_affected ?p (db_requests db) = 0\<close> rid by (auto simp: SaveHTTPResult_def Let_def)
      have "delivery_of (result_id ?rid) db \<noteq> None"
        using repo_invD(4) [OF inv r(1)] r(2) row_by_key [OF r(1)] by (auto simp: handshake_open_def)
      then have "insert_delivery ?d db = db"
        by (auto simp: insert_delivery_def row_exists_iff dest: row_by_Some_mem)
      then show ?thesis unfolding eq same using inv by (simp add: refine_refl)
    next
      case False
      then have "?db' = db"
        using \<open>rows_affected ?p (db_requests db) = 0\<close> by (auto simp: SaveHTTPResult_def Let_def split: option.split)
      then show ?thesis using inv by (simp add: refine_refl)
    qed
  next
    case False
    then have eq: "?db' = insert_delivery ?d ?db1" using rid by (simp add: SaveHTTPResult_def Let_def)
    from owned_request [OF inv False] obtain r where r: "request_of ?rid db = Some r" "rq_status r = dispatching"
      and p: "\<And>x. request_of (rq_request_id x) db = Some x \<Longrightarrow> ?p x \<longleftrightarrow> x = r" by blast
    have "repo_inv ?db'" unfolding eq
      by (rule inv_complete [OF inv r p]) (use client [OF r(1)] p [of r] r(1) row_by_key [OF r(1)] in \<open>auto simp: same_identity_def drives_def\<close>)
    moreover have "requests_refine db ?db'"
      by (rule refine_complete [OF r p, where f = ?f]) (use r in \<open>auto simp: eq same_identity_def advances_def\<close>)
    ultimately show ?thesis ..
  qed
qed


subsection \<open>Recovery of expired work\<close>

definition released :: "pg_time \<Rightarrow> request_row \<Rightarrow> request_row" where
  "released now r = r\<lparr>rq_status := ready, rq_dispatch_token := None, rq_lease_until := None, rq_updated_at := now\<rparr>"

definition recovered :: "(string \<Rightarrow> go_time) \<Rightarrow> pg_time \<Rightarrow> request_row \<Rightarrow> request_row" where
  "recovered clock now r =
     r\<lparr>rq_status := unknown, rq_result := Some (marshal_http_result (unknown_result (clock (rq_request_id r)) r)),
       rq_last_error := Some ''HTTP outcome could not be recovered'',
       rq_dispatch_token := None, rq_lease_until := None, rq_updated_at := now\<rparr>"

lemma released_simps [simp]: "rq_request_id (released now r) = rq_request_id r" "rq_status (released now r) = ready"
  "rq_attempts (released now r) = rq_attempts r" "same_identity r (released now r)"
  by (simp_all add: released_def same_identity_def)

lemma recovered_simps [simp]: "rq_request_id (recovered clock now r) = rq_request_id r" "rq_status (recovered clock now r) = unknown"
  "rq_attempts (recovered clock now r) = rq_attempts r" "same_identity r (recovered clock now r)"
  by (simp_all add: recovered_def same_identity_def)

lemma release_expired_request:
  "request_of k (release_expired now db)
     = map_option (\<lambda>r. if expired reserved now r then released now r else r) (request_of k db)"
  by (cases "request_of k db") (simp_all add: release_expired_def row_by_update released_def)

lemma release_expired_lawful: "lawful db (release_expired now db)"
  by (rule lawful_requests [where p = "expired reserved now" and f = "released now"])
    (auto simp: release_expired_def released_def [abs_def] expired_def advances_def same_identity_def)

lemma recover_dispatch_request:
  assumes r: "request_of (rq_request_id r) db = Some r"
  shows "request_of k (recover_dispatch clock now r db)
    = (if k = rq_request_id r then Some (recovered clock now r) else request_of k db)"
  using r by (cases "request_of k db")
    (auto simp: recover_dispatch_def Let_def row_by_update recovered_def unknown_result_def)

lemma recover_dispatch_inv:
  assumes inv: "repo_inv db" and r: "request_of (rq_request_id r) db = Some r" "rq_status r = dispatching"
  shows "repo_inv (recover_dispatch clock now r db)"
  unfolding recover_dispatch_def Let_def
proof (rule inv_complete [OF inv r])
  show "(rq_request_id x = rq_request_id r) = (x = r)" if "request_of (rq_request_id x) db = Some x" for x
    using that r by (metis option.inject)
qed (simp_all add: same_identity_def unknown_result_def result_id_def drives_def)

lemma recover_all:
  assumes "repo_inv db" and "distinct (map rq_request_id rs)"
    and "\<And>r. r \<in> set rs \<Longrightarrow> request_of (rq_request_id r) db = Some r \<and> rq_status r = dispatching"
  shows "repo_inv (fold (recover_dispatch clock now) rs db)
    \<and> request_of k (fold (recover_dispatch clock now) rs db)
       = map_option (\<lambda>r. if r \<in> set rs then recovered clock now r else r) (request_of k db)"
  using assms
proof (induction rs arbitrary: db)
  case Nil
  then show ?case by (simp add: option.map_ident)
next
  case (Cons r rs)
  let ?db1 = "recover_dispatch clock now r db"
  have r: "request_of (rq_request_id r) db = Some r" "rq_status r = dispatching" using Cons.prems(3) by simp_all
  have "request_of (rq_request_id x) ?db1 = Some x \<and> rq_status x = dispatching" if "x \<in> set rs" for x
    using Cons.prems(2) Cons.prems(3) [of x] that by (auto simp: recover_dispatch_request [OF r(1)] image_iff)
  then have IH: "repo_inv (fold (recover_dispatch clock now) rs ?db1)
    \<and> request_of k (fold (recover_dispatch clock now) rs ?db1)
       = map_option (\<lambda>r. if r \<in> set rs then recovered clock now r else r) (request_of k ?db1)"
    using Cons.IH [of ?db1] recover_dispatch_inv [OF Cons.prems(1) r] Cons.prems(2) by simp
  have nr: "r \<notin> set rs" "recovered clock now r \<notin> set rs" using Cons.prems(2)
    by (auto, metis image_eqI recovered_simps(1))
  show ?case
  proof (cases "request_of k db")
    case None
    then show ?thesis using IH r by (auto simp: recover_dispatch_request [OF r(1)])
  next
    case (Some x)
    then have "k = rq_request_id r \<longleftrightarrow> x = r" using r by (metis option.inject row_by_key)
    then show ?thesis using IH Some nr by (auto simp: recover_dispatch_request [OF r(1)])
  qed
qed

text \<open>What recovery does to each request.\<close>

lemma RecoverExpiredDispatches_effect:
  assumes inv: "repo_inv db"
  shows "repo_inv (snd (RecoverExpiredDispatches clock now db))
    \<and> request_of k (snd (RecoverExpiredDispatches clock now db))
       = map_option (\<lambda>r. if expired reserved now r then released now r
                         else if expired dispatching now r then recovered clock now r else r) (request_of k db)"
proof -
  let ?db1 = "release_expired now db"
  let ?rs = "select_where (expired dispatching now) (db_requests ?db1)"
  have inv1: "repo_inv ?db1" using release_expired_lawful [of db now] inv by (simp add: lawful_def)
  have uniq: "unique_by rq_request_id (db_requests ?db1)" by (rule repo_invD(1) [OF inv1])
  have "distinct (map rq_request_id ?rs)"
    using uniq by (simp add: unique_by_def select_where_def distinct_map_filter_key)
  moreover have "request_of (rq_request_id r) ?db1 = Some r \<and> rq_status r = dispatching" if "r \<in> set ?rs" for r
    using that row_by_of_mem [OF uniq, of r] by (auto simp: sql_simps expired_def)
  ultimately have *: "repo_inv (fold (recover_dispatch clock now) ?rs ?db1)
    \<and> request_of k (fold (recover_dispatch clock now) ?rs ?db1)
       = map_option (\<lambda>r. if r \<in> set ?rs then recovered clock now r else r) (request_of k ?db1)"
    by (rule recover_all [OF inv1])
  have mem: "request_of k ?db1 = Some r \<Longrightarrow> r \<in> set ?rs \<longleftrightarrow> expired dispatching now r" for r
    by (auto simp: sql_simps dest: row_by_Some_mem)
  show ?thesis
  proof (cases "request_of k db")
    case None
    then show ?thesis using * by (simp add: RecoverExpiredDispatches_def Let_def release_expired_request)
  next
    case (Some r)
    let ?r1 = "if expired reserved now r then released now r else r"
    have "request_of k ?db1 = Some ?r1" using Some by (simp add: release_expired_request)
    then show ?thesis using * mem [of ?r1] Some
      by (auto simp: RecoverExpiredDispatches_def Let_def expired_def)
  qed
qed

lemma RecoverExpiredDispatches_lawful: "lawful db (snd (RecoverExpiredDispatches clock now db))"
  unfolding lawful_def
proof
  assume inv: "repo_inv db"
  note eff = RecoverExpiredDispatches_effect [OF inv, of clock now]
  have "requests_refine db (snd (RecoverExpiredDispatches clock now db))"
    using eff by (auto simp: requests_refine_def advances_def expired_def split: option.split)
  then show "repo_inv (snd (RecoverExpiredDispatches clock now db)) \<and>
      requests_refine db (snd (RecoverExpiredDispatches clock now db))" using eff by blast
qed


subsection \<open>Retention\<close>

lemma row_by_delete:
  assumes "unique_by key t"
  shows "row_by key k (delete_where p t)
    = (case row_by key k t of None \<Rightarrow> None | Some r \<Rightarrow> if p r then None else Some r)"
proof (cases "row_by key k t")
  case None
  then have "row_by key k (delete_where p t) = None" by (auto simp: row_by_None_iff sql_simps)
  then show ?thesis using None by simp
next
  case (Some r)
  have "row_by key k (delete_where p t) = Some x \<longleftrightarrow> x = r \<and> \<not> p r" for x
    using Some distinct_map_eq_elem [OF assms [unfolded unique_by_def], of x r]
    by (auto simp: row_by_iff [OF unique_by_delete [OF assms]] row_by_iff [OF assms] sql_simps)
  then show ?thesis using Some by (cases "row_by key k (delete_where p t)") auto
qed

text \<open>Rows are deleted: a request only together with its deliveries, a delivery of a remaining request never.\<close>

lemma lawful_delete:
  assumes rem: "\<And>r. request_of (rq_request_id r) db = Some r \<Longrightarrow> p r \<Longrightarrow> removable r"
    and own: "\<And>r d kind. request_of (rq_request_id r) db = Some r \<Longrightarrow> drives kind d r \<Longrightarrow>
        kind = acceptance_kind \<or> kind = result_kind \<Longrightarrow> q d = p r"
    and db': "db_requests db' = delete_where p (db_requests db)" "db_deliveries db' = delete_where q (db_deliveries db)"
  shows "lawful db db'"
  unfolding lawful_def
proof (intro impI conjI)
  assume inv: "repo_inv db"
  note R = row_by_delete [OF repo_invD(1) [OF inv], of _ p, folded db']
  note D = row_by_delete [OF repo_invD(2) [OF inv], of _ q, folded db']
  show "requests_refine db db'"
    using rem by (auto simp: requests_refine_def R advances_def split: option.split)
  show "repo_inv db'"
  proof (rule repo_invI)
    show "unique_by rq_request_id (db_requests db')" "unique_by dl_delivery_id (db_deliveries db')"
      using repo_invD(1,2) [OF inv] by (simp_all add: db' unique_by_delete)
    show "stored_ok r \<and> handshake_open db' r" if "request_of k db' = Some r" for k r
    proof -
      have r: "request_of k db = Some r" "\<not> p r" using that by (auto simp: R split: option.splits if_splits)
      then have rr: "request_of (rq_request_id r) db = Some r" by (metis row_by_key)
      have "delivery_of j db' = Some d"
        if "delivery_of j db = Some d" "drives kind d r" "kind = acceptance_kind \<or> kind = result_kind" for j d kind
        using that own [OF rr that(2)] r(2) by (simp add: D)
      then show ?thesis using repo_invD(3,4) [OF inv r(1)] unfolding handshake_open_def by blast
    qed
    show "delivery_ok db' d" if "delivery_of k db' = Some d" for k d
    proof -
      have d: "delivery_of k db = Some d" "\<not> q d" using that by (auto simp: D split: option.splits if_splits)
      have keep: "request_of j db' = Some r" if "request_of j db = Some r" "drives kind d r" "kind = acceptance_kind \<or> kind = result_kind" for j r kind
        using that own [of r kind d] d(2) row_by_key [OF that(1)] by (auto simp: R)
      show ?thesis using repo_invD(5) [OF inv d(1)] keep
        unfolding delivery_ok_def by (cases "dl_kind d") (simp_all, blast+)
    qed
  qed
qed

lemma cleanup_requests_lawful: "lawful db (cleanup_requests before batch db)"
proof -
  define rows where "rows = order_limit rq_updated_at batch (select_where (finished before) (db_requests db))"
  define doomed where "doomed = map rq_request_id rows"
  have eq: "cleanup_requests before batch db =
      db\<lparr>db_deliveries := delete_where (\<lambda>d. list_ex (\<lambda>rid. sql_eq (dl_request_id d) rid) doomed) (db_deliveries db),
         db_requests := delete_where (\<lambda>r. contains doomed (rq_request_id r)) (db_requests db)\<rparr>"
    by (simp add: cleanup_requests_def doomed_def rows_def Let_def)
  have rows: "x \<in> set rows \<Longrightarrow> x \<in> set (db_requests db) \<and> finished before x" for x
    using order_limit_subset [of rq_updated_at batch "select_where (finished before) (db_requests db)"]
    by (auto simp: rows_def sql_simps)
  show ?thesis unfolding lawful_def
  proof
    assume inv: "repo_inv db"
    have "lawful db (cleanup_requests before batch db)"
    proof (rule lawful_delete)
      show "removable r" if r: "request_of (rq_request_id r) db = Some r" "contains doomed (rq_request_id r)" for r
      proof -
        from r(2) obtain x where "x \<in> set rows" "rq_request_id x = rq_request_id r" by (auto simp: doomed_def)
        then have "finished before r"
          using rows [of x] r(1) row_by_of_mem [OF repo_invD(1) [OF inv], of x] by simp
        then show ?thesis by (auto simp: finished_def removable_def)
      qed
    qed (auto simp: eq drives_def list_ex_iff)
    then show "repo_inv (cleanup_requests before batch db) \<and> requests_refine db (cleanup_requests before batch db)"
      using inv by (simp add: lawful_def)
  qed
qed


lemma refine_cong: "db_requests db2 = db_requests db1 \<Longrightarrow> requests_refine db db1 \<Longrightarrow> requests_refine db db2"
  unfolding requests_refine_def by (erule ssubst)

lemma lawful_trans_frame:
  "lawful db db1 \<Longrightarrow> lawful db1 db2 \<Longrightarrow> db_requests db2 = db_requests db1 \<Longrightarrow> lawful db db2"
  using refine_cong [of db2 db1 db] by (simp add: lawful_def)

lemma lawful_delete_deliveries:
  assumes "\<And>d. q d \<Longrightarrow> dl_webhook_event_id d \<noteq> None \<or> dl_command_id d \<noteq> None"
    and "db_requests db' = db_requests db" "db_deliveries db' = delete_where q (db_deliveries db)"
  shows "lawful db db'"
proof (rule lawful_delete [where p = "\<lambda>r. False" and q = q])
  show "q d = False" if "drives kind d r" for kind d r
    using that assms(1) [of d] by (auto simp: drives_def)
qed (use assms(2,3) in \<open>auto simp: delete_where_def\<close>)

lemma cleanup_events_lawful: "lawful db (cleanup_events before batch db)"
  by (rule lawful_delete_deliveries) (auto simp: cleanup_events_def Let_def list_ex_iff sql_eq_iff)

lemma cleanup_commands_lawful: "lawful db (cleanup_commands before batch db)"
  by (rule lawful_delete_deliveries) (auto simp: cleanup_commands_def Let_def list_ex_iff sql_eq_iff)

lemma Cleanup_lawful: "lawful db (snd (Cleanup before batch now db))"
proof -
  let ?db1 = "cleanup_requests before batch db"
  let ?db2 = "cleanup_limits now ?db1"
  let ?db3 = "cleanup_events before batch ?db2"
  let ?db4 = "cleanup_commands before batch ?db3"
  have "lawful db ?db2"
    by (rule lawful_trans_frame [OF cleanup_requests_lawful]) (simp_all add: cleanup_limits_def lawful_frame)
  then have "lawful db ?db3"
    by (rule lawful_trans_frame [OF _ cleanup_events_lawful]) (simp add: cleanup_events_def Let_def)
  then have "lawful db ?db4"
    by (rule lawful_trans_frame [OF _ cleanup_commands_lawful]) (simp add: cleanup_commands_def Let_def)
  then show ?thesis unfolding Cleanup_def snd_conv
    by (rule lawful_trans_frame) (simp_all add: cleanup_routes_def Let_def lawful_frame)
qed

subsection \<open>Callbacks and limits\<close>

definition foreign_id :: "string \<Rightarrow> bool" where
  "foreign_id did \<longleftrightarrow> (\<forall>rid. did \<noteq> accept_id rid \<and> did \<noteq> result_id rid)"

lemma foreign_idI: "take 7 did \<noteq> ''accept_'' \<Longrightarrow> take 7 did \<noteq> ''result_'' \<Longrightarrow> foreign_id did"
  by (auto simp: foreign_id_def accept_id_def result_id_def)

lemma lawful_insert_other:
  assumes "foreign_id (dl_delivery_id d)" "dl_kind d = webhook_kind \<or> dl_kind d = control_kind" "dl_request_id d = None"
    and "delivery_of (dl_delivery_id d) db = None"
  shows "lawful db (db\<lparr>db_deliveries := insert_row d (db_deliveries db)\<rparr>)"
proof -
  have "db\<lparr>db_deliveries := insert_row d (db_deliveries db)\<rparr> = insert_delivery d db"
    using assms(4) by (auto simp: insert_delivery_def row_exists_iff row_by_None_iff)
  moreover have "delivery_ok db d" using assms(1-3) by (auto simp: delivery_ok_def foreign_id_def)
  ultimately show ?thesis by (auto intro!: lawfulI inv_insert_delivery refine_refl)
qed

lemma insert_subscribers_frame [simp]:
  "db_requests (fold (insert_subscriber w now) cs db) = db_requests db"
  "db_deliveries (fold (insert_subscriber w now) cs db) = db_deliveries db"
  by (induction cs arbitrary: db) (simp_all add: insert_subscriber_def)

lemma insert_subscriber_frame [simp]:
  "db_requests (insert_subscriber w now c db) = db_requests db"
  "db_deliveries (insert_subscriber w now c db) = db_deliveries db"
  by (simp_all add: insert_subscriber_def)

lemma insertWebhookRoute_frame:
  "insertWebhookRoute route now db = Inr db' \<Longrightarrow> db_requests db' = db_requests db \<and> db_deliveries db' = db_deliveries db"
  by (auto simp: insertWebhookRoute_def Let_def split: if_splits)

lemmas apply_defs = apply_action_def apply_register_def apply_update_def apply_subscription_def apply_delete_def

lemma apply_action_frame:
  assumes "apply_action operation now db = Inr (result, db')"
  shows "db_requests db' = db_requests db \<and> db_deliveries db' = db_deliveries db
    \<and> cr_DeliveryID result = cr_DeliveryID (co_Result operation)"
  using assms unfolding apply_defs Let_def failWebhookControl_def
  by (auto split: if_splits sum.splits option.splits dest!: insertWebhookRoute_frame)

lemma ApplyWebhookControl_lawful:
  assumes f: "foreign_id (cr_DeliveryID (co_Result operation))"
  shows "lawful db (snd (ApplyWebhookControl operation subject now db))"
proof (cases "row_by cm_command_id (co_CommandID operation) (db_commands db)")
  case (Some c)
  then show ?thesis
    by (auto simp: ApplyWebhookControl_def split: option.splits intro!: lawful_touch)
next
  case None
  show ?thesis
  proof (cases "apply_action operation now db")
    case (Inl e)
    then show ?thesis using None by (simp add: ApplyWebhookControl_def)
  next
    case (Inr res)
    obtain result db1 where res: "res = (result, db1)" by (cases res)
    note fr = apply_action_frame [OF Inr [unfolded res]]
    let ?d = "new_delivery (cr_DeliveryID result) control_kind (co_ClientID operation) subject
        TypeWebhookControlResult (marshal_control_result result) None None (Some (co_CommandID operation)) now"
    show ?thesis
    proof (cases "delivery_of (cr_DeliveryID result) db")
      case (Some e)
      then have "row_exists (\<lambda>x. dl_delivery_id x = cr_DeliveryID result) (db_deliveries db1)"
        using fr by (auto simp: row_exists_iff dest: row_by_Some_mem)
      then show ?thesis using None Inr res by (simp add: ApplyWebhookControl_def Let_def)
    next
      case free: None
      then have "\<not> row_exists (\<lambda>x. dl_delivery_id x = cr_DeliveryID result) (db_deliveries db1)"
        using fr by (auto simp: row_exists_iff row_by_None_iff)
      then have "db_requests (snd (ApplyWebhookControl operation subject now db)) = db_requests db"
        "db_deliveries (snd (ApplyWebhookControl operation subject now db)) = insert_row ?d (db_deliveries db)"
        using None Inr res fr by (simp_all add: ApplyWebhookControl_def Let_def)
      moreover have "lawful db (db\<lparr>db_deliveries := insert_row ?d (db_deliveries db)\<rparr>)"
        by (rule lawful_insert_other) (use f fr free in simp_all)
      ultimately show ?thesis
        using lawful_trans_frame [OF _ lawful_frame] by fastforce
    qed
  qed
qed

lemma confirm_kind_lawful:
  "kind = webhook_kind \<or> kind = control_kind \<Longrightarrow> lawful db (snd (confirm_kind kind msg ack now db))"
  by (rule lawful_deliveries [where g = "ack_delivery now" and q = "\<lambda>d. dl_delivery_id d = da_DeliveryID ack
        \<and> dl_client_id d = da_ClientID ack \<and> dl_kind d = kind"]) (auto simp: confirm_kind_def Let_def)

lemma insert_event_deliveries_lawful:
  assumes "insert_event_deliveries event now ds db = Inr db'" and "\<And>d. d \<in> set ds \<Longrightarrow> foreign_id (de_ID d)"
  shows "lawful db db' \<and> db_requests db' = db_requests db"
  using assms
proof (induction ds arbitrary: db)
  case (Cons d ds)
  let ?db1 = "db\<lparr>db_deliveries := insert_row (delivery_row_of event now d) (db_deliveries db)\<rparr>"
  have free: "\<not> row_exists (\<lambda>x. dl_delivery_id x = de_ID d) (db_deliveries db)"
    and rest: "insert_event_deliveries event now ds ?db1 = Inr db'"
    using Cons.prems(1) by (auto split: if_splits)
  have "lawful db ?db1"
    by (rule lawful_insert_other) (use free Cons.prems(2) in \<open>auto simp: delivery_row_of_def row_exists_iff row_by_None_iff\<close>)
  moreover have "lawful ?db1 db' \<and> db_requests db' = db_requests ?db1" using Cons.IH [OF rest] Cons.prems(2) by simp
  ultimately show ?case by (auto intro: lawful_trans_frame)
qed simp

definition event_row_of :: "webhook_event \<Rightarrow> webhook_route \<Rightarrow> pg_time \<Rightarrow> event_row" where
  "event_row_of event route now =
     \<lparr>we_event_id = ev_EventID event, we_webhook_id = ev_WebhookID event, we_request = marshal_webhook_event event,
      we_response = None, we_status = (if ro_Mode route = ''delegated'' then awaiting_response else received),
      we_received_at = now, we_updated_at = now\<rparr>"

lemma SaveWebhookEvent_ok:
  assumes "SaveWebhookEvent event route subject replySubject rnd now db = (Inr ds, db')"
  shows "insert_event_deliveries event now ds (db\<lparr>db_events := insert_row (event_row_of event route now) (db_events db)\<rparr>) = Inr db'"
    and "ds = map (\<lambda>(i, c). event_delivery event route subject replySubject (rnd i) c) (enumerate 0 (event_clients event route db))"
    and "\<not> row_exists (\<lambda>e. we_event_id e = ev_EventID event) (db_events db)"
    and "row_exists (\<lambda>r. wt_webhook_id r = ev_WebhookID event) (db_routes db)"
  using assms unfolding SaveWebhookEvent_def Let_def event_row_of_def
  by (simp_all split: if_splits sum.splits)

lemma SaveWebhookEvent_error: "SaveWebhookEvent event route subject replySubject rnd now db = (Inl e, db') \<Longrightarrow> db' = db"
  unfolding SaveWebhookEvent_def Let_def by (simp split: if_splits sum.splits)

lemma SaveWebhookEvent_lawful: "lawful db (snd (SaveWebhookEvent event route subject replySubject rnd now db))"
proof (cases "SaveWebhookEvent event route subject replySubject rnd now db")
  case (Pair res db')
  show ?thesis
  proof (cases res)
    case (Inl e)
    then show ?thesis using SaveWebhookEvent_error [of event route subject replySubject rnd now db e db'] Pair by simp
  next
    case (Inr ds)
    note ok = SaveWebhookEvent_ok [OF Pair [unfolded Inr]]
    have "foreign_id (de_ID d)" if "d \<in> set ds" for d
      using that by (auto simp: ok(2) event_delivery_def Let_def intro!: foreign_idI)
    note law = insert_event_deliveries_lawful [OF ok(1) this]
    have "lawful db (db\<lparr>db_events := insert_row (event_row_of event route now) (db_events db)\<rparr>)" by (simp add: lawful_frame)
    from lawful_trans_frame [OF this law [THEN conjunct1] law [THEN conjunct2]] show ?thesis using Pair by simp
  qed
qed

lemma SaveWebhookResponse_lawful: "lawful db (snd (SaveWebhookResponse response now db))"
proof -
  have "lawful db (db1\<lparr>db_deliveries := update_where (\<lambda>d. dl_delivery_id d = wp_DeliveryID response
      \<and> sql_eq (dl_webhook_event_id d) (wp_EventID response) \<and> dl_client_id d = wp_ClientID response \<and> dl_kind d = webhook_kind)
      (ack_delivery now) (db_deliveries db)\<rparr>)" if "db_requests db1 = db_requests db" for db1
    by (rule lawful_deliveries [where g = "ack_delivery now" and q = "\<lambda>d. dl_delivery_id d = wp_DeliveryID response
      \<and> sql_eq (dl_webhook_event_id d) (wp_EventID response) \<and> dl_client_id d = wp_ClientID response \<and> dl_kind d = webhook_kind"])
      (auto simp: that)
  then show ?thesis
    by (auto simp: SaveWebhookResponse_def Let_def split: list.split option.split)
qed

lemma MarkWebhookTimedOut_lawful: "lawful db (snd (MarkWebhookTimedOut eventID now db))"
  unfolding MarkWebhookTimedOut_def Let_def snd_conv
  by (rule lawful_deliveries [where g = "ack_delivery now"]) (auto simp: sql_eq_iff)

lemma AcquireHostPermit_frame:
  "db_requests (snd (AcquireHostPermit host rps concurrency minInterval lease entropy now db)) = db_requests db"
  "db_deliveries (snd (AcquireHostPermit host rps concurrency minInterval lease entropy now db)) = db_deliveries db"
  by (simp_all add: AcquireHostPermit_def Let_def split: option.split)

end
