(* ===== verification/Transition_System.thy ===== *)
theory Transition_System
  imports Main
begin

text \<open>
  Reachable states of a step relation, and the contract under which a predicate holds in all of them.
\<close>

inductive reach :: "('s \<Rightarrow> bool) \<Rightarrow> ('s \<Rightarrow> 's \<Rightarrow> bool) \<Rightarrow> 's \<Rightarrow> bool"
  for I T
where
  start: "I s \<Longrightarrow> reach I T s"
| step: "reach I T s \<Longrightarrow> T s s' \<Longrightarrow> reach I T s'"

locale inductive_invariant =
  fixes initial :: "'s \<Rightarrow> bool"
    and trans :: "'s \<Rightarrow> 's \<Rightarrow> bool"
    and inv :: "'s \<Rightarrow> bool"
  assumes initially: "initial s \<Longrightarrow> inv s"
    and preserved: "inv s \<Longrightarrow> trans s s' \<Longrightarrow> inv s'"
begin

lemma always: "reach initial trans s \<Longrightarrow> inv s"
  by (induction rule: reach.induct) (auto intro: initially preserved)

lemma steps: "inv s \<Longrightarrow> trans\<^sup>*\<^sup>* s s' \<Longrightarrow> inv s'"
  by (rotate_tac 1, induction rule: rtranclp_induct) (auto intro: preserved)

end

lemma reach_steps: "reach I T s \<Longrightarrow> T\<^sup>*\<^sup>* s s' \<Longrightarrow> reach I T s'"
  by (rotate_tac 1, induction rule: rtranclp_induct) (auto intro: reach.step)

end
