(* ===== verification/Outgoing_System.thy ===== *)
theory Outgoing_System
  imports Transport_Callback Repository_Safety Transition_System
begin

text \<open>
  The proxy's outgoing side as a whole: any number of workers of any number of processes on one
  database, the message handlers, the delivery loop, the maintenance job, callbacks and crashes, in
  every interleaving. \<open>sys_waiters\<close> are the callback handlers of each process that wait for a response.

  \<open>sys_tokens\<close> are the dispatch tokens drawn so far, \<open>sys_begun\<close> the dispatches committed (request and
  token) and \<open>sys_calls\<close> the HTTP requests that left the proxy, both as far as their request is stored;
  the program has none of the three, they serve to state what it does.
\<close>

record sys =
  sys_db :: proxy_db
  sys_workers :: "nat \<Rightarrow> worker_state"
  sys_waiters :: "nat \<Rightarrow> waiters"
  sys_tokens :: "string set"
  sys_begun :: "(string \<times> string) list"
  sys_calls :: "(string \<times> string) list"

definition calls_of :: "sys \<Rightarrow> string \<Rightarrow> nat" where
  "calls_of s rid = length (filter (\<lambda>x. fst x = rid) (sys_calls s))"

definition sys_init :: "sys \<Rightarrow> bool" where
  "sys_init s \<longleftrightarrow> sys_db s = empty_db \<and> (\<forall>w. sys_workers s w = Idle) \<and> (\<forall>p. sys_waiters s p = Map.empty)
     \<and> sys_tokens s = {} \<and> sys_begun s = [] \<and> sys_calls s = []"

definition set_worker :: "nat \<Rightarrow> worker_state \<times> proxy_db \<Rightarrow> sys \<Rightarrow> sys" where
  "set_worker w r s = s\<lparr>sys_db := snd r, sys_workers := (sys_workers s)(w := fst r)\<rparr>"

text \<open>The operation a worker is engaged in.\<close>

fun engaged :: "worker_state \<Rightarrow> operation option" where
  "engaged (Reserved op) = Some op"
| "engaged (Permitted op p) = Some op"
| "engaged (Dispatched op p) = Some op"
| "engaged (InFlight op p) = Some op"
| "engaged (Retrying op p r t) = Some op"
| "engaged (Saving op p res) = Some op"
| "engaged _ = None"

text \<open>
  One step; a worker that is shut down while it stores a result gives up (\<open>stop\<close>). Random dispatch tokens are new (16 random bytes), and the retention time is longer than
  a worker takes from committing a dispatch to sending the HTTP request.
\<close>

definition stored_only :: "proxy_db \<Rightarrow> (string \<times> string) list \<Rightarrow> (string \<times> string) list" where
  "stored_only db xs = filter (\<lambda>x. request_of (fst x) db \<noteq> None) xs"

text \<open>
  What a step shows outside: a message that process \<open>p\<close> has handled, with the messages it has published
  upon it, other publications, or the outcome of the HTTP call of a worker.
\<close>

datatype sys_event =
    Internal
  | Handled nat io bytes "nats_msg list"
  | Published "nats_msg list"
  | Answered operation "http_result go_result"

inductive sys_event_step ::
  "config \<Rightarrow> (nat \<Rightarrow> core) \<Rightarrow> crypto_lib \<Rightarrow> wire_lib \<Rightarrow> hash_lib \<Rightarrow> url_parser \<Rightarrow> sys \<Rightarrow> sys_event \<Rightarrow> sys \<Rightarrow> bool"
  for cfg cores lib wl h url_parse
where
  request: "sys_event_step cfg cores lib wl h url_parse s (Handled p io data (snd (handleRequest (cores p) lib wl url_parse io data (sys_db s))))
    (s\<lparr>sys_db := fst (handleRequest (cores p) lib wl url_parse io data (sys_db s))\<rparr>)"
| accepted_ack: "sys_event_step cfg cores lib wl h url_parse s (Handled p io data (snd (handleAcceptanceACK (cores p) lib wl io data (sys_db s))))
    (s\<lparr>sys_db := fst (handleAcceptanceACK (cores p) lib wl io data (sys_db s))\<rparr>)"
| result_ack: "sys_event_step cfg cores lib wl h url_parse s (Handled p io data (snd (handleResultACK (cores p) lib wl io data (sys_db s))))
    (s\<lparr>sys_db := fst (handleResultACK (cores p) lib wl io data (sys_db s))\<rparr>)"
| deliver: "sys_event_step cfg cores lib wl h url_parse s (Published (snd (delivery_turn (cores p) lib wl io f2 locked later (sys_db s))))
    (s\<lparr>sys_db := fst (delivery_turn (cores p) lib wl io f2 locked later (sys_db s))\<rparr>)"
| reserve: "sys_workers s w = Idle \<Longrightarrow> randomID entropy \<notin> sys_tokens s \<Longrightarrow>
    sys_event_step cfg cores lib wl h url_parse s Internal
      (set_worker w (run_reserve cfg f locked entropy now (sys_db s)) (s\<lparr>sys_tokens := insert (randomID entropy) (sys_tokens s)\<rparr>))"
| acquire: "sys_workers s w = Reserved op \<Longrightarrow>
    sys_event_step cfg cores lib wl h url_parse s Internal (set_worker w (execute_acquire cfg url_parse f1 f2 entropy now op (sys_db s)) s)"
| dispatch: "sys_workers s w = Permitted op permit \<Longrightarrow>
    r = execute_dispatch cfg f1 f2 now op permit (sys_db s) \<Longrightarrow>
    sys_event_step cfg cores lib wl h url_parse s Internal
      (set_worker w r (if fst r = Dispatched op permit
         then s\<lparr>sys_begun := (op_rid op, op_DispatchToken op) # sys_begun s\<rparr> else s))"
| send: "sys_workers s w = Dispatched op permit \<Longrightarrow>
    sys_event_step cfg cores lib wl h url_parse s Internal
      (s\<lparr>sys_workers := (sys_workers s)(w := InFlight op permit),
         sys_calls := (op_rid op, op_DispatchToken op) # sys_calls s\<rparr>)"
| unsent: "sys_workers s w = Dispatched op permit \<Longrightarrow>
    (\<And>net. Do build net (cf_MaxResponseBytes cfg) (op_Request op) = Inl e) \<Longrightarrow>
    sys_event_step cfg cores lib wl h url_parse s (Answered op (Inl e))
      (s\<lparr>sys_workers := (sys_workers s)(w := execute_reply cfg draw clock op permit (Inl e))\<rparr>)"
| reply: "sys_workers s w = InFlight op permit \<Longrightarrow>
    sys_event_step cfg cores lib wl h url_parse s (Answered op (Do build net (cf_MaxResponseBytes cfg) (op_Request op)))
      (s\<lparr>sys_workers := (sys_workers s)(w := execute_reply cfg draw clock op permit
           (Do build net (cf_MaxResponseBytes cfg) (op_Request op)))\<rparr>)"
| publish: "sys_workers s w = Saving op permit result \<Longrightarrow>
    sys_event_step cfg cores lib wl h url_parse s (Published (execute_publish (cores p) lib wl io op result)) s"
| retry: "sys_workers s w = Retrying op permit reason next_at \<Longrightarrow>
    sys_event_step cfg cores lib wl h url_parse s Internal (set_worker w (execute_retry f1 f2 now op permit reason next_at (sys_db s)) s)"
| save: "sys_workers s w = Saving op permit result \<Longrightarrow>
    sys_event_step cfg cores lib wl h url_parse s Internal (set_worker w (execute_save cfg f1 f2 now op permit result (sys_db s)) s)"
| stop: "sys_workers s w = Saving op permit result \<Longrightarrow>
    sys_event_step cfg cores lib wl h url_parse s Internal (set_worker w (leave f permit (sys_db s)) s)"
| crash: "sys_event_step cfg cores lib wl h url_parse s Internal
    (s\<lparr>sys_workers := (sys_workers s)(w := Idle), sys_waiters := (sys_waiters s)(p := Map.empty)\<rparr>)"
| recover: "sys_event_step cfg cores lib wl h url_parse s Internal
    (s\<lparr>sys_db := snd (db_call f (RecoverExpiredDispatches recover_clock now) (sys_db s))\<rparr>)"
| cleanup: "db' = snd (db_call f (Cleanup before batch now) (sys_db s)) \<Longrightarrow>
    (\<And>w op permit. sys_workers s w = Dispatched op permit \<Longrightarrow> request_of (op_rid op) (sys_db s) \<noteq> None \<Longrightarrow>
       request_of (op_rid op) db' \<noteq> None) \<Longrightarrow>
    sys_event_step cfg cores lib wl h url_parse s Internal
      (s\<lparr>sys_db := db', sys_begun := stored_only db' (sys_begun s), sys_calls := stored_only db' (sys_calls s)\<rparr>)"
| webhook_command: "sys_event_step cfg cores lib wl h url_parse s (Handled p io data [])
    (s\<lparr>sys_db := handleWebhookCommand (cores p) lib wl h io data (sys_db s)\<rparr>)"
| control_ack: "sys_event_step cfg cores lib wl h url_parse s (Handled p io data (snd (handleWebhookControlACK (cores p) lib wl io data (sys_db s))))
    (s\<lparr>sys_db := fst (handleWebhookControlACK (cores p) lib wl io data (sys_db s))\<rparr>)"
| webhook_ack: "sys_event_step cfg cores lib wl h url_parse s (Handled p io data (snd (handleWebhookACK (cores p) lib wl io data (sys_db s))))
    (s\<lparr>sys_db := fst (handleWebhookACK (cores p) lib wl io data (sys_db s))\<rparr>)"
| webhook_response: "handleWebhookResponse (cores p) lib wl io data (sys_db s) (sys_waiters s p) = (db', ws', msgs) \<Longrightarrow>
    sys_event_step cfg cores lib wl h url_parse s (Handled p io data msgs) (s\<lparr>sys_db := db', sys_waiters := (sys_waiters s)(p := ws')\<rparr>)"
| webhook_event: "sys_waiters s p (ev_EventID event) = None \<Longrightarrow>
    deliver_start (cores p) lib wl io rnd event route (sys_db s) (sys_waiters s p) = (res, db', ws', msgs) \<Longrightarrow>
    sys_event_step cfg cores lib wl h url_parse s (Published msgs) (s\<lparr>sys_db := db', sys_waiters := (sys_waiters s)(p := ws')\<rparr>)"
| webhook_received: "deliver_receive eventID (sys_waiters s p) = (Some response, ws') \<Longrightarrow>
    sys_event_step cfg cores lib wl h url_parse s Internal (s\<lparr>sys_waiters := (sys_waiters s)(p := ws')\<rparr>)"
| webhook_timeout: "deliver_timeout f now eventID (sys_db s) (sys_waiters s p) = (db', ws') \<Longrightarrow>
    sys_event_step cfg cores lib wl h url_parse s Internal (s\<lparr>sys_db := db', sys_waiters := (sys_waiters s)(p := ws')\<rparr>)"

text \<open>A step, whatever it shows.\<close>

definition sys_step ::
  "config \<Rightarrow> (nat \<Rightarrow> core) \<Rightarrow> crypto_lib \<Rightarrow> wire_lib \<Rightarrow> hash_lib \<Rightarrow> url_parser \<Rightarrow> sys \<Rightarrow> sys \<Rightarrow> bool" where
  "sys_step cfg cores lib wl h url_parse s s' \<longleftrightarrow> (\<exists>e. sys_event_step cfg cores lib wl h url_parse s e s')"

lemma sys_stepI: "sys_event_step cfg cores lib wl h url_parse s e s' \<Longrightarrow> sys_step cfg cores lib wl h url_parse s s'"
  by (auto simp: sys_step_def)

end
