(* ===== verification/Outgoing_Safety.thy ===== *)
theory Outgoing_Safety
  imports Outgoing_System
begin

text \<open>
  The invariant of the outgoing system, and that every step keeps it.

  The database operations are sorted by what they do to the ownership of requests: most are \<open>quiet\<close>
  (they can only take a request away from its worker), the others are the three that the workers use
  to reserve a request, to commit a dispatch and to give it back for a retry.
\<close>

subsection \<open>Operations and the ownership of requests\<close>

definition tok_ok :: "request_row \<Rightarrow> bool" where
  "tok_ok r \<longleftrightarrow> (rq_dispatch_token r \<noteq> None \<longrightarrow> rq_status r = reserved \<or> rq_status r = dispatching)"

definition settled :: "request_row \<Rightarrow> request_row \<Rightarrow> bool" where
  "settled r r' \<longleftrightarrow> (tok_ok r \<longrightarrow>
     (rq_dispatch_token r' = None
      \<or> rq_dispatch_token r' = rq_dispatch_token r \<and> rq_status r' = rq_status r \<and> rq_attempts r' = rq_attempts r)
     \<and> (rq_status r' = retry_wait \<longrightarrow> rq_status r = retry_wait))"

definition settles :: "proxy_db \<Rightarrow> proxy_db \<Rightarrow> bool" where
  "settles db db' \<longleftrightarrow> (\<forall>rid r'. request_of rid db' = Some r' \<longrightarrow>
     (case request_of rid db of None \<Rightarrow> rq_dispatch_token r' = None | Some r \<Rightarrow> settled r r'))"

definition kept :: "proxy_db \<Rightarrow> proxy_db \<Rightarrow> bool" where
  "kept db db' \<longleftrightarrow> (\<forall>rid. request_of rid db \<noteq> None \<longrightarrow> request_of rid db' \<noteq> None)"

definition quiet :: "proxy_db \<Rightarrow> proxy_db \<Rightarrow> bool" where
  "quiet db db' \<longleftrightarrow> lawful db db' \<and> (repo_inv db \<longrightarrow> settles db db' \<and> kept db db')"

lemma settled_refl [simp]: "settled r r"
  by (simp add: settled_def)

lemma settles_update:
  assumes "\<And>r. p r \<Longrightarrow> settled r (f r)" and id: "\<And>r. rq_request_id (f r) = rq_request_id r"
    and "db_requests db' = update_where p f (db_requests db)"
  shows "settles db db'" and "kept db db'"
  using assms(1) by (auto simp: settles_def kept_def assms(3) row_by_update [where key = rq_request_id, OF id] split: option.splits)

lemma quiet_frame: "lawful db db' \<Longrightarrow> db_requests db' = db_requests db \<Longrightarrow> quiet db db'"
  using settles_update [of "\<lambda>_. False" "\<lambda>r. r" db' db] by (simp add: quiet_def update_where_def)

lemma quiet_update:
  assumes "lawful db db'" and "\<And>r. p r \<Longrightarrow> settled r (f r)" and "\<And>r. rq_request_id (f r) = rq_request_id r"
    and "db_requests db' = update_where p f (db_requests db)"
  shows "quiet db db'"
  using settles_update [OF assms(2-4)] assms(1) by (simp add: quiet_def)

lemma quiet_refl [simp]: "quiet db db"
  by (rule quiet_frame) simp_all

lemma quiet_frame_trans: "quiet db db1 \<Longrightarrow> lawful db1 db2 \<Longrightarrow> db_requests db2 = db_requests db1 \<Longrightarrow> quiet db db2"
  unfolding quiet_def settles_def kept_def using lawful_trans_frame [of db db1 db2] by simp

lemma AcceptHTTPRequest_quiet:
  assumes "wf_http_request q" "canon_http_request q = q" "ac_DeliveryID acc = accept_id (hq_RequestID q)"
  shows "quiet db (snd (AcceptHTTPRequest q acc subject now db))"
proof (cases "request_of (hq_RequestID q) db")
  case None
  then have eq: "db_requests (snd (AcceptHTTPRequest q acc subject now db)) = insert_row (new_request q now) (db_requests db)"
    by (simp add: AcceptHTTPRequest_def Let_def)
  have "request_of k (snd (AcceptHTTPRequest q acc subject now db)) = (if k = hq_RequestID q then Some (new_request q now) else request_of k db)" for k
    unfolding eq using row_by_insert [of rq_request_id "new_request q now" "db_requests db" k] None by simp
  then have "settles db (snd (AcceptHTTPRequest q acc subject now db))" "kept db (snd (AcceptHTTPRequest q acc subject now db))"
    using None by (auto simp: settles_def kept_def new_request_def split: option.split)
  then show ?thesis using AcceptHTTPRequest_lawful [OF assms] by (simp add: quiet_def)
next
  case (Some r)
  then show ?thesis by (intro quiet_frame AcceptHTTPRequest_lawful assms) (simp add: AcceptHTTPRequest_def Let_def)
qed

lemma ConfirmAcceptance_quiet: "quiet db (snd (ConfirmAcceptance ack now db))"
proof (cases rule: ConfirmAcceptance_cases [of ack now db])
  case (ok d)
  show ?thesis
    by (rule quiet_update [OF ConfirmAcceptance_lawful, where p = "\<lambda>r. rq_request_id r = da_RequestID ack \<and> rq_status r = awaiting_acceptance_ack"
          and f = "\<lambda>r. r\<lparr>rq_status := ready, rq_updated_at := now\<rparr>"]) (auto simp: ok(5) settled_def tok_ok_def)
qed simp

lemma ConfirmResult_quiet: "quiet db (snd (ConfirmResult ack now db))"
proof (cases rule: ConfirmResult_cases [of ack now db])
  case (ok d)
  show ?thesis
    by (rule quiet_update [OF ConfirmResult_lawful, where p = "\<lambda>r. rq_request_id r = da_RequestID ack \<and> (rq_status r = http_completed \<or> rq_status r = unknown)"
          and f = "\<lambda>r. r\<lparr>rq_status := result_delivered, rq_updated_at := now\<rparr>"]) (auto simp: ok(5) settled_def tok_ok_def)
qed simp

lemma ReleaseReserved_quiet: "quiet db (snd (ReleaseReserved requestID token now db))"
  by (rule quiet_update [OF ReleaseReserved_lawful, where p = "owned requestID reserved token" and f = "\<lambda>r. r\<lparr>rq_status := ready,
        rq_dispatch_token := None, rq_lease_until := None, rq_updated_at := now\<rparr>"])
    (auto simp: ReleaseReserved_def settled_def)

lemma SaveHTTPResult_quiet:
  assumes "rs_ResultID result = result_id (rs_RequestID result)"
    and "\<And>r. request_of (rs_RequestID result) db = Some r \<Longrightarrow> owned (rs_RequestID result) dispatching token r \<Longrightarrow> rq_client_id r = clientID"
  shows "quiet db (snd (SaveHTTPResult token clientID subject result now db))"
proof -
  let ?p = "owned (rs_RequestID result) dispatching token"
  let ?f = "\<lambda>r. r\<lparr>rq_status := (if rs_State result = ''unknown'' then unknown else http_completed),
      rq_result := Some (marshal_http_result result), rq_dispatch_token := None, rq_lease_until := None, rq_updated_at := now\<rparr>"
  have "db_requests (snd (SaveHTTPResult token clientID subject result now db)) = update_where ?p ?f (db_requests db)"
    by (auto simp: SaveHTTPResult_def Let_def update_where_none split: option.split)
  then show ?thesis
    by (intro quiet_update [OF SaveHTTPResult_lawful [OF assms], where p = ?p and f = ?f]) (auto simp: settled_def)
qed

lemma RecoverExpiredDispatches_quiet: "quiet db (snd (RecoverExpiredDispatches clock now db))"
proof -
  have "settled r (released now r)" "settled r (recovered clock now r)" for r
    by (simp_all add: settled_def released_def recovered_def)
  then show ?thesis
    using RecoverExpiredDispatches_lawful [of db clock now] RecoverExpiredDispatches_effect [of db clock now]
    by (auto simp: quiet_def settles_def kept_def)
qed

lemma Cleanup_settles: "repo_inv db \<Longrightarrow> settles db (snd (Cleanup before batch now db))"
proof -
  assume inv: "repo_inv db"
  have eq: "db_requests (snd (Cleanup before batch now db)) = db_requests (cleanup_requests before batch db)"
    by (simp add: Cleanup_def cleanup_routes_def cleanup_commands_def cleanup_events_def cleanup_limits_def Let_def)
  show ?thesis unfolding settles_def eq cleanup_requests_def Let_def
    using row_by_delete [OF repo_invD(1) [OF inv]] by (auto split: option.splits if_splits)
qed

lemma AcquireHostPermit_quiet: "quiet db (snd (AcquireHostPermit host rps concurrency minInterval lease entropy now db))"
  by (intro quiet_frame lawful_frame) (simp_all add: AcquireHostPermit_frame)

lemma ReleaseHostPermit_quiet: "quiet db (snd (ReleaseHostPermit token db))"
  by (intro quiet_frame lawful_frame) (simp_all add: ReleaseHostPermit_def)

lemma ClaimDelivery_quiet: "quiet db (snd (ClaimDelivery lease locked now db))"
  by (rule quiet_frame [OF ClaimDelivery_lawful]) (simp add: ClaimDelivery_def split: list.split)

lemma apply_webhook_quiet:
  "foreign_id (cr_DeliveryID (co_Result operation)) \<Longrightarrow> quiet db (snd (ApplyWebhookControl operation subject now db))"
proof (rule quiet_frame [OF ApplyWebhookControl_lawful])
  show "db_requests (snd (ApplyWebhookControl operation subject now db)) = db_requests db"
  proof (cases "row_by cm_command_id (co_CommandID operation) (db_commands db)")
    case None
    show ?thesis
    proof (cases "apply_action operation now db")
      case (Inr r)
      obtain result db1 where r: "r = (result, db1)" by (cases r)
      have "db_requests db1 = db_requests db" using apply_action_frame [OF Inr [unfolded r]] by blast
      then show ?thesis using None Inr r by (simp add: ApplyWebhookControl_def Let_def)
    qed (simp add: ApplyWebhookControl_def None)
  qed (simp add: ApplyWebhookControl_def split: option.split)
qed

lemma SaveWebhookEvent_quiet: "quiet db (snd (SaveWebhookEvent event route subject replySubject rnd now db))"
proof (rule quiet_frame [OF SaveWebhookEvent_lawful])
  have ins: "insert_event_deliveries event now ds d = Inr d' \<Longrightarrow> db_requests d' = db_requests d" for ds d d'
    by (induction ds arbitrary: d) (auto split: if_splits)
  show "db_requests (snd (SaveWebhookEvent event route subject replySubject rnd now db)) = db_requests db"
    unfolding SaveWebhookEvent_def Let_def by (auto split: sum.splits dest: ins)
qed

lemma SaveWebhookResponse_quiet: "quiet db (snd (SaveWebhookResponse response now db))"
  by (rule quiet_frame [OF SaveWebhookResponse_lawful])
    (simp add: SaveWebhookResponse_def Let_def split: list.split option.split)

lemma MarkWebhookTimedOut_quiet: "quiet db (snd (MarkWebhookTimedOut eventID now db))"
  by (rule quiet_frame [OF MarkWebhookTimedOut_lawful]) (simp add: MarkWebhookTimedOut_def Let_def)

lemma confirm_kind_quiet:
  "kind = webhook_kind \<or> kind = control_kind \<Longrightarrow> quiet db (snd (confirm_kind kind msg ack now db))"
  by (rule quiet_frame [OF confirm_kind_lawful]) (simp_all add: confirm_kind_def Let_def)

subsection \<open>Handlers\<close>

lemma db_call_cases: "snd (db_call f g db) = db \<or> snd (db_call f g db) = snd (g db)"
  by (simp add: db_call_def split: fault.split)

lemma db_call_quiet: "quiet db (snd (g db)) \<Longrightarrow> quiet db (snd (db_call f g db))"
  by (simp add: db_call_def split: fault.split)

lemma read_request_valid: "read_json wl unmarshal_http_request payload = Inr q \<Longrightarrow> wf_http_request q \<and> canon_http_request q = q"
  by (auto simp: read_json_def dest: unmarshal_http_request_valid split: option.splits)

lemma handleRequest_accept:
  assumes "decode c lib wl (io_clock io) data TypeHTTPRequest = Inr (client, payload)"
    and "read_json wl unmarshal_http_request payload = Inr q" and "validateRequest c url_parse q client = Inr u"
  shows "fst (handleRequest c lib wl url_parse io data db)
    = snd (db_call (io_fault io) (AcceptHTTPRequest q (acceptance_for c (io_clock io) q) (clientSubject c client ''accepted'') (io_now io)) db)"
  by (simp add: handleRequest_def assms) (simp split: prod.split sum.split go_error.split)

lemma handleRequest_cases:
  obtains (ignored) "fst (handleRequest c lib wl url_parse io data db) = db"
  | (accepted) client payload q where "decode c lib wl (io_clock io) data TypeHTTPRequest = Inr (client, payload)"
    "read_json wl unmarshal_http_request payload = Inr q" "validateRequest c url_parse q client = Inr ()"
proof (cases "decode c lib wl (io_clock io) data TypeHTTPRequest")
  case (Inl e)
  then show ?thesis by (intro ignored) (simp add: handleRequest_def)
next
  case d: (Inr cp)
  obtain client payload where cp: "cp = (client, payload)" by (cases cp)
  show ?thesis
  proof (cases "read_json wl unmarshal_http_request payload")
    case (Inl e)
    then show ?thesis by (intro ignored) (simp add: handleRequest_def d cp)
  next
    case (Inr q)
    then show ?thesis using d cp
      by (cases "validateRequest c url_parse q client") (auto simp: handleRequest_def intro: ignored accepted)
  qed
qed

lemma handleRequest_quiet: "quiet db (fst (handleRequest c lib wl url_parse io data db))"
proof (cases rule: handleRequest_cases [of c lib wl url_parse io data db])
  case (accepted client payload q)
  show ?thesis unfolding handleRequest_accept [OF accepted] using read_request_valid [OF accepted(2)]
    by (intro db_call_quiet AcceptHTTPRequest_quiet) (simp_all add: acceptance_for_def accept_id_def)
qed simp

lemma handle_ack_quiet:
  assumes "\<And>ack now db. quiet db (snd (confirm ack now db))"
  shows "quiet db (fst (handle_ack mt confirm c lib wl io data db))"
proof (cases "fst (handle_ack mt confirm c lib wl io data db) = db")
  case False
  then obtain ack where eq: "fst (handle_ack mt confirm c lib wl io data db) = snd (db_call (io_fault io) (confirm ack (io_now io)) db)"
    unfolding handle_ack_def by (auto split: sum.splits prod.splits if_splits) (metis snd_conv)+
  show ?thesis unfolding eq by (intro db_call_quiet assms)
qed simp

lemma delivery_turn_quiet: "quiet db (fst (delivery_turn c lib wl io f2 locked later db))"
proof (cases "db_call (io_fault io) (ClaimDelivery 10000000000 locked (io_now io)) db")
  case (Pair r db1)
  have q1: "quiet db db1" using db_call_quiet [where g = "ClaimDelivery 10000000000 locked (io_now io)", OF ClaimDelivery_quiet, of db "io_fault io"] Pair by simp
  show ?thesis
  proof (cases r)
    case (Inl e)
    then show ?thesis using Pair q1 by (simp add: delivery_turn_def)
  next
    case (Inr d)
    have "snd (db_call f2 (RescheduleDelivery (de_ID d) (tc_deliveryRetry c) later) db1) = db1
      \<or> snd (db_call f2 (RescheduleDelivery (de_ID d) (tc_deliveryRetry c) later) db1)
          = snd (RescheduleDelivery (de_ID d) (tc_deliveryRetry c) later db1)"
      by (rule db_call_cases)
    moreover have "quiet db (snd (RescheduleDelivery (de_ID d) (tc_deliveryRetry c) later db1))"
      by (rule quiet_frame_trans [OF q1 RescheduleDelivery_lawful]) (simp add: RescheduleDelivery_def)
    ultimately show ?thesis using Pair Inr q1 by (auto simp: delivery_turn_def)
  qed
qed

lemma handleWebhookCommand_quiet: "quiet db (handleWebhookCommand c lib wl h io data db)"
proof (cases "handleWebhookCommand c lib wl h io data db = db")
  case False
  then obtain clientID payload mt operation where op: "webhookControlOperation c h wl clientID mt payload = Inr operation"
    and eq: "handleWebhookCommand c lib wl h io data db
      = snd (db_call (io_fault io) (ApplyWebhookControl operation (clientSubject c clientID ''webhooks.control_results'') (io_now io)) db)"
    unfolding handleWebhookCommand_def by (auto split: sum.splits prod.splits)
  have "foreign_id (cr_DeliveryID (co_Result operation))"
    using webhookControlOperation_addressed [OF op] by (intro foreign_idI) (simp_all add: well_addressed_def)
  then show ?thesis unfolding eq by (intro db_call_quiet apply_webhook_quiet)
qed simp

lemma handleWebhookResponse_quiet:
  assumes "handleWebhookResponse c lib wl io data db ws = (db', ws', msgs)"
  shows "quiet db db'"
proof (cases "db' = db")
  case False
  then obtain response where "db' = snd (db_call (io_fault io) (SaveWebhookResponse response (io_now io)) db)"
    using assms unfolding handleWebhookResponse_def by (auto split: sum.splits prod.splits if_splits) (metis snd_conv)+
  then show ?thesis by (simp add: db_call_quiet SaveWebhookResponse_quiet)
qed simp

lemma deliver_start_quiet:
  assumes "deliver_start c lib wl io rnd event route db ws = (res, db', ws', msgs)"
  shows "quiet db db'"
proof -
  have "db' = snd (db_call (io_fault io) (SaveWebhookEvent (event\<lparr>ev_ProxyID := tc_proxyID c\<rparr>) route
      (\<lambda>clientID. clientSubject c clientID ''webhooks.events'') (webhookResponseSubject c) rnd (io_now io)) db)"
    using assms unfolding deliver_start_def Let_def by (auto split: sum.splits prod.splits if_splits)
  then show ?thesis by (simp add: db_call_quiet SaveWebhookEvent_quiet)
qed

lemma deliver_timeout_quiet: "deliver_timeout f now eventID db ws = (db', ws') \<Longrightarrow> quiet db db'"
  using db_call_quiet [where g = "MarkWebhookTimedOut eventID now", OF MarkWebhookTimedOut_quiet, of db f] by (auto simp: deliver_timeout_def)

end
