(* ===== verification/Outgoing_Guarantees.thy ===== *)
theory Outgoing_Guarantees
  imports Outgoing_Safety
begin

text \<open>
  What the outgoing side guarantees in every reachable state: the requests and deliveries are
  consistent, and the number of HTTP requests sent for one stored request is bounded by its retry
  policy, one for a request that must not be repeated.
\<close>

subsection \<open>The invariant\<close>

text \<open>How often a request may be sent.\<close>

definition budget :: "http_request \<Rightarrow> int" where
  "budget q = (if safe_method q then max 1 (rp_MaxAttempts (hq_Retry q)) else 1)"

definition row_budget :: "request_row \<Rightarrow> int" where
  "row_budget r = (case unmarshal_http_request (rq_request r) of None \<Rightarrow> 1 | Some q \<Rightarrow> budget q)"

definition row_ok :: "request_row \<Rightarrow> bool" where
  "row_ok r \<longleftrightarrow> 0 \<le> rq_attempts r \<and> rq_attempts r \<le> row_budget r
     \<and> (rq_status r \<in> {awaiting_acceptance_ack, ready, reserved, retry_wait} \<longrightarrow> rq_attempts r < row_budget r)
     \<and> (rq_status r = awaiting_acceptance_ack \<longrightarrow> rq_attempts r = 0) \<and> tok_ok r"

definition rows_inv :: "string set \<Rightarrow> proxy_db \<Rightarrow> bool" where
  "rows_inv tokens db \<longleftrightarrow> repo_inv db \<and> (\<forall>rid r. request_of rid db = Some r \<longrightarrow>
     row_ok r \<and> (\<forall>t. rq_dispatch_token r = Some t \<longrightarrow> t \<in> tokens))"

definition owner_ok :: "operation \<Rightarrow> request_row \<Rightarrow> bool" where
  "owner_ok op r \<longleftrightarrow> rq_request_id r = op_rid op \<and> rq_request r = marshal_http_request (op_Request op)
     \<and> rq_client_id r = hq_ClientID (op_Request op)
     \<and> (rq_status r = reserved \<longrightarrow> rq_attempts r = op_Attempts op)
     \<and> (rq_status r = dispatching \<longrightarrow> rq_attempts r = op_Attempts op + 1)"

definition op_inv :: "string set \<Rightarrow> proxy_db \<Rightarrow> operation \<Rightarrow> bool" where
  "op_inv tokens db op \<longleftrightarrow> op_DispatchToken op \<in> tokens
     \<and> wf_http_request (op_Request op) \<and> canon_http_request (op_Request op) = op_Request op
     \<and> (\<forall>rid r. request_of rid db = Some r \<longrightarrow> rq_dispatch_token r = Some (op_DispatchToken op) \<longrightarrow> owner_ok op r)"

definition begun_of :: "(string \<times> string) list \<Rightarrow> string \<Rightarrow> nat" where
  "begun_of begun rid = length (filter (\<lambda>x. fst x = rid) begun)"

definition log_inv :: "string set \<Rightarrow> proxy_db \<Rightarrow> (string \<times> string) list \<Rightarrow> (string \<times> string) list \<Rightarrow> bool" where
  "log_inv tokens db begun calls \<longleftrightarrow> distinct (map snd begun) \<and> distinct (map snd calls) \<and> set calls \<subseteq> set begun
     \<and> snd ` set begun \<subseteq> tokens \<and> (\<forall>rid r. request_of rid db = Some r \<longrightarrow> int (begun_of begun rid) \<le> rq_attempts r)
     \<and> (\<forall>x \<in> set begun. request_of (fst x) db \<noteq> None)"

fun point_inv :: "(string \<times> string) list \<Rightarrow> (string \<times> string) list \<Rightarrow> worker_state \<Rightarrow> bool" where
  "point_inv begun calls (Reserved op) = (op_DispatchToken op \<notin> snd ` set begun)"
| "point_inv begun calls (Permitted op p) = (op_DispatchToken op \<notin> snd ` set begun)"
| "point_inv begun calls (Dispatched op p) =
     ((op_rid op, op_DispatchToken op) \<in> set begun \<and> op_DispatchToken op \<notin> snd ` set calls)"
| "point_inv begun calls (Retrying op p reason t) = (op_Attempts op + 1 < budget (op_Request op))"
| "point_inv begun calls (Saving op p result) =
     (rs_ResultID result = result_id (op_rid op) \<and> rs_RequestID result = op_rid op)"
| "point_inv begun calls _ = True"

definition workers_inv :: "string set \<Rightarrow> proxy_db \<Rightarrow> (string \<times> string) list \<Rightarrow> (string \<times> string) list \<Rightarrow> (nat \<Rightarrow> worker_state) \<Rightarrow> bool" where
  "workers_inv tokens db begun calls ws \<longleftrightarrow>
     (\<forall>w op. engaged (ws w) = Some op \<longrightarrow> op_inv tokens db op) \<and> (\<forall>w. point_inv begun calls (ws w))
     \<and> (\<forall>w w' op op'. engaged (ws w) = Some op \<longrightarrow> engaged (ws w') = Some op' \<longrightarrow>
          op_DispatchToken op = op_DispatchToken op' \<longrightarrow> w = w')"

definition sys_inv :: "sys \<Rightarrow> bool" where
  "sys_inv s \<longleftrightarrow> rows_inv (sys_tokens s) (sys_db s)
     \<and> log_inv (sys_tokens s) (sys_db s) (sys_begun s) (sys_calls s)
     \<and> workers_inv (sys_tokens s) (sys_db s) (sys_begun s) (sys_calls s) (sys_workers s)"

lemma sys_inv_init: "sys_init s \<Longrightarrow> sys_inv s"
  by (auto simp: sys_init_def sys_inv_def rows_inv_def repo_inv_empty log_inv_def workers_inv_def)
    (simp_all add: empty_db_def)

subsection \<open>Requests and their budget\<close>

lemma row_budget_identity: "same_identity r r' \<Longrightarrow> row_budget r' = row_budget r"
  by (simp add: same_identity_def row_budget_def)

lemma row_budget_marshal:
  "rq_request r = marshal_http_request q \<Longrightarrow> wf_http_request q \<Longrightarrow> canon_http_request q = q \<Longrightarrow> row_budget r = budget q"
  by (simp add: row_budget_def http_request_decode)

lemma row_budget_pos: "1 \<le> row_budget r"
  by (auto simp: row_budget_def budget_def split: option.split)

lemma canRetry_budget: "canRetry q attempt network status \<Longrightarrow> attempt < budget q"
  by (auto simp: canRetry_def budget_def Let_def split: if_splits)

text \<open>A row that follows the specification stays within its budget, unless it is given back for a retry.\<close>

lemma row_ok_advances:
  assumes "row_ok r" "advances r r'" "tok_ok r'"
    and "rq_status r' = retry_wait \<Longrightarrow> rq_status r = retry_wait \<or> rq_attempts r' < row_budget r'"
  shows "row_ok r'"
proof -
  have b: "row_budget r' = row_budget r" using assms(2) by (simp add: advances_def row_budget_identity)
  show ?thesis using assms b unfolding row_ok_def advances_def
    by (cases "rq_status r") (auto split: if_splits)
qed

lemma settled_tok: "tok_ok r \<Longrightarrow> settled r r' \<Longrightarrow> tok_ok r'"
  by (auto simp: settled_def tok_ok_def)

lemma owner_ok_settled:
  "tok_ok r \<Longrightarrow> settled r r' \<Longrightarrow> advances r r' \<Longrightarrow> rq_dispatch_token r' = Some t \<Longrightarrow> owner_ok op r \<Longrightarrow> owner_ok op r'"
  by (auto simp: settled_def owner_ok_def advances_def same_identity_def)

subsection \<open>Quiet steps\<close>

text \<open>What a lawful, settling operation does to one request.\<close>

lemma settle_cases:
  assumes inv: "rows_inv tokens db" and law: "lawful db db'" and set: "settles db db'" and r': "request_of rid db' = Some r'"
  obtains (new) "request_of rid db = None" "fresh_request r'" "rq_dispatch_token r' = None"
  | (old) r where "request_of rid db = Some r" "advances r r'" "settled r r'" "row_ok r"
proof (cases "request_of rid db")
  case None
  have "requests_refine db db'" using inv law by (simp add: rows_inv_def lawful_def)
  then have "fresh_request r'" using None r' by (auto simp: requests_refine_def split: option.splits dest!: spec [of _ rid])
  moreover have "case request_of rid db of None \<Rightarrow> rq_dispatch_token r' = None | Some r \<Rightarrow> settled r r'"
    using set r' unfolding settles_def by blast
  ultimately show ?thesis using new None by simp
next
  case (Some r)
  have "requests_refine db db'" using inv law by (simp add: rows_inv_def lawful_def)
  then have "advances r r'" using Some r' by (auto simp: requests_refine_def split: option.splits dest!: spec [of _ rid])
  then show ?thesis using old Some set r' inv by (auto simp: settles_def rows_inv_def split: option.splits)
qed

lemma rows_settle:
  assumes inv: "rows_inv tokens db" and law: "lawful db db'" and set: "settles db db'"
  shows "rows_inv tokens db'"
  unfolding rows_inv_def
proof (intro conjI allI impI)
  show "repo_inv db'" using inv law by (simp add: rows_inv_def lawful_def)
  fix rid r'
  assume r': "request_of rid db' = Some r'"
  from inv law set r' show "row_ok r'"
  proof (cases rule: settle_cases)
    case new
    then show ?thesis using row_budget_pos [of r'] by (simp add: row_ok_def fresh_request_def tok_ok_def)
  next
    case (old r)
    then have "tok_ok r" by (simp add: row_ok_def)
    then show ?thesis using old settled_tok by (intro row_ok_advances [OF old(4,2)]) (auto simp: settled_def)
  qed
  fix t
  assume t: "rq_dispatch_token r' = Some t"
  from inv law set r' show "t \<in> tokens"
  proof (cases rule: settle_cases)
    case (old r)
    then have "rq_dispatch_token r = Some t" using t by (auto simp: settled_def row_ok_def)
    then show ?thesis using old(1) inv by (auto simp: rows_inv_def)
  qed (use t in simp)
qed

lemma op_settle:
  assumes inv: "rows_inv tokens db" and law: "lawful db db'" and set: "settles db db'" and op: "op_inv tokens db op"
  shows "op_inv tokens db' op"
  unfolding op_inv_def
proof (intro conjI allI impI)
  fix rid r'
  assume r': "request_of rid db' = Some r'" and t: "rq_dispatch_token r' = Some (op_DispatchToken op)"
  from inv law set r' show "owner_ok op r'"
  proof (cases rule: settle_cases)
    case (old r)
    then have tok: "tok_ok r" by (simp add: row_ok_def)
    then have "rq_dispatch_token r = Some (op_DispatchToken op)" using t old by (auto simp: settled_def)
    then have "owner_ok op r" using op old(1) by (simp add: op_inv_def)
    then show ?thesis by (rule owner_ok_settled [OF tok old(3,2) t])
  qed (use t in simp)
qed (use op in \<open>simp_all add: op_inv_def\<close>)

lemma log_settle:
  assumes inv: "rows_inv tokens db" and law: "lawful db db'" and set: "settles db db'"
    and kept: "\<forall>x \<in> set begun. request_of (fst x) db' \<noteq> None" and log: "log_inv tokens db begun calls"
  shows "log_inv tokens db' begun calls"
proof -
  have "int (begun_of begun rid) \<le> rq_attempts r'" if r': "request_of rid db' = Some r'" for rid r'
    using inv law set r'
  proof (cases rule: settle_cases)
    case new
    then have "begun_of begun rid = 0" using log by (auto simp: begun_of_def filter_empty_conv log_inv_def)
    then show ?thesis using new by (simp add: fresh_request_def)
  next
    case (old r)
    then have "int (begun_of begun rid) \<le> rq_attempts r" using log by (simp add: log_inv_def)
    also have "rq_attempts r \<le> rq_attempts r'" using old(2) by (auto simp: advances_def)
    finally show ?thesis .
  qed
  then show ?thesis using log kept by (simp add: log_inv_def)
qed

lemma quiet_inv:
  assumes inv: "sys_inv s" and quiet: "quiet (sys_db s) db'"
  shows "sys_inv (s\<lparr>sys_db := db'\<rparr>)"
proof -
  have rows: "rows_inv (sys_tokens s) (sys_db s)" using inv by (simp add: sys_inv_def)
  then have q: "lawful (sys_db s) db'" "settles (sys_db s) db'" "kept (sys_db s) db'"
    using quiet by (simp_all add: quiet_def rows_inv_def)
  have "\<forall>x \<in> set (sys_begun s). request_of (fst x) db' \<noteq> None"
    using inv q(3) by (auto simp: sys_inv_def log_inv_def kept_def)
  then show ?thesis
    using inv rows_settle [OF rows q(1,2)] op_settle [OF rows q(1,2)] log_settle [OF rows q(1,2)]
    by (auto simp: sys_inv_def workers_inv_def)
qed


subsection \<open>Steps of workers\<close>

text \<open>A worker moves on with the same operation, or leaves it.\<close>

lemma worker_move:
  assumes inv: "sys_inv s" and st: "point_inv (sys_begun s) (sys_calls s) st"
    and eng: "engaged st = None \<or> engaged st = engaged (sys_workers s w)"
  shows "sys_inv (s\<lparr>sys_workers := (sys_workers s)(w := st)\<rparr>)"
  using inv st eng unfolding sys_inv_def workers_inv_def by (auto split: if_splits) metis+

lemma workers_swap:
  assumes "workers_inv tokens db b c (ws(w := st))" and "engaged st' = engaged st"
    and "\<And>x. point_inv b' c' ((ws(w := st')) x)"
  shows "workers_inv tokens db b' c' (ws(w := st'))"
proof -
  have "engaged ((ws(w := st')) x) = engaged ((ws(w := st)) x)" for x using assms(2) by simp
  then show ?thesis using assms(1,3) unfolding workers_inv_def by presburger
qed

text \<open>A worker takes a new operation.\<close>

lemma worker_take:
  assumes inv: "sys_inv s" and op: "op_inv (sys_tokens s) (sys_db s) op" "op_DispatchToken op \<notin> snd ` set (sys_begun s)"
    and new: "\<And>w' op'. w' \<noteq> w \<Longrightarrow> engaged (sys_workers s w') = Some op' \<Longrightarrow> op_DispatchToken op' \<noteq> op_DispatchToken op"
  shows "sys_inv (s\<lparr>sys_workers := (sys_workers s)(w := Reserved op)\<rparr>)"
  using inv op new unfolding sys_inv_def workers_inv_def by (auto split: if_splits) metis+

lemma worker_op: "sys_inv s \<Longrightarrow> engaged (sys_workers s w) = Some op \<Longrightarrow> op_inv (sys_tokens s) (sys_db s) op"
  by (simp add: sys_inv_def workers_inv_def)

lemma worker_point: "sys_inv s \<Longrightarrow> point_inv (sys_begun s) (sys_calls s) (sys_workers s w)"
  by (simp add: sys_inv_def workers_inv_def)

lemma quiet_call: "sys_inv s \<Longrightarrow> quiet (sys_db s) (snd (g (sys_db s))) \<Longrightarrow> sys_inv (s\<lparr>sys_db := snd (db_call f g (sys_db s))\<rparr>)"
  by (intro quiet_inv db_call_quiet)

text \<open>The deferred release of the permit.\<close>

lemma leave_inv: "sys_inv s \<Longrightarrow> sys_inv (set_worker w (leave f permit (sys_db s)) s)"
proof -
  assume "sys_inv s"
  then have "sys_inv (s\<lparr>sys_db := snd (db_call f (ReleaseHostPermit permit) (sys_db s))\<rparr>)"
    by (rule quiet_call) (rule ReleaseHostPermit_quiet)
  from worker_move [OF this, of Idle w] show ?thesis by (simp add: set_worker_def leave_def)
qed

lemma acquire_inv:
  assumes inv: "sys_inv s" and w: "sys_workers s w = Reserved op"
  shows "sys_inv (set_worker w (execute_acquire cfg url_parse f1 f2 entropy now op (sys_db s)) s)"
proof -
  define g where "g = (let host = ToLower (mustHost url_parse (hq_URL (op_Request op))); limit = LimitForHost cfg host
      in AcquireHostPermit host (hl_RPS limit) (hl_Concurrency limit) (hl_MinInterval limit)
           (wrap64 (cf_MaxRequestTimeout cfg + 60000000000)) entropy now)"
  obtain r db1 where c: "db_call f1 g (sys_db s) = (r, db1)" by (cases "db_call f1 g (sys_db s)")
  have "quiet (sys_db s) (snd (g (sys_db s)))" by (simp add: g_def Let_def AcquireHostPermit_quiet)
  from quiet_call [where g = g, OF inv this, of f1] have inv1: "sys_inv (s\<lparr>sys_db := db1\<rparr>)" by (simp add: c)
  show ?thesis
  proof (cases r)
    case (Inl e)
    have "sys_inv (s\<lparr>sys_db := snd (db_call f2 (ReleaseReserved (op_rid op) (op_DispatchToken op) now) db1)\<rparr>)"
      using quiet_call [OF inv1, where g = "ReleaseReserved (op_rid op) (op_DispatchToken op) now" and f = f2] ReleaseReserved_quiet by simp
    from worker_move [OF this, of Idle w] show ?thesis
      using c Inl by (simp add: execute_acquire_def g_def Let_def set_worker_def)
  next
    case (Inr permit)
    have "point_inv (sys_begun s) (sys_calls s) (Permitted op permit)" using worker_point [OF inv, of w] w by simp
    with worker_move [OF inv1, of "Permitted op permit" w] show ?thesis
      using c Inr w by (simp add: execute_acquire_def g_def Let_def set_worker_def)
  qed
qed

lemma reply_inv:
  assumes inv: "sys_inv s" and w: "engaged (sys_workers s w) = Some op"
  shows "sys_inv (s\<lparr>sys_workers := (sys_workers s)(w := execute_reply cfg draw clock op permit outcome)\<rparr>)"
proof (rule worker_move [OF inv])
  show "point_inv (sys_begun s) (sys_calls s) (execute_reply cfg draw clock op permit outcome)"
    by (auto simp: execute_reply_def Let_def final_result_def result_id_def dest: canRetry_budget split: sum.split option.split)
  show "engaged (execute_reply cfg draw clock op permit outcome) = None \<or>
      engaged (execute_reply cfg draw clock op permit outcome) = engaged (sys_workers s w)"
    using w by (auto simp: execute_reply_def Let_def split: sum.split option.split)
qed

lemma save_inv:
  assumes inv: "sys_inv s" and w: "sys_workers s w = Saving op permit result"
  shows "sys_inv (set_worker w (execute_save cfg f1 f2 now op permit result (sys_db s)) s)"
proof -
  define g where "g = SaveHTTPResult (op_DispatchToken op) (hq_ClientID (op_Request op))
                         (results_subject cfg (hq_ClientID (op_Request op))) result now"
  have res: "rs_ResultID result = result_id (rs_RequestID result)" "rs_RequestID result = op_rid op"
    using worker_point [OF inv, of w] w by simp_all
  have op: "op_inv (sys_tokens s) (sys_db s) op" by (rule worker_op [OF inv, of w]) (simp add: w)
  have "quiet (sys_db s) (snd (g (sys_db s)))" unfolding g_def
    by (rule SaveHTTPResult_quiet [OF res(1)]) (use op in \<open>auto simp: op_inv_def owned_def owner_ok_def sql_eq_iff\<close>)
  from quiet_call [where g = g, OF inv this, of f1] obtain r db1 where c: "db_call f1 g (sys_db s) = (r, db1)" and inv1: "sys_inv (s\<lparr>sys_db := db1\<rparr>)"
    by (cases "db_call f1 g (sys_db s)") simp
  show ?thesis
  proof (cases r)
    case (Inl e)
    have "set_worker w (execute_save cfg f1 f2 now op permit result (sys_db s)) s = s\<lparr>sys_db := db1\<rparr>"
      using c Inl w unfolding execute_save_def g_def by (simp add: set_worker_def fun_upd_idem)
    then show ?thesis using inv1 by simp
  next
    case (Inr u)
    with leave_inv [OF inv1, of w f2 permit] c show ?thesis
      unfolding execute_save_def g_def by (simp add: set_worker_def)
  qed
qed


subsection \<open>Dispatch and retry\<close>

text \<open>A step on rows that their owners may take: tokens stay or go, and owners keep track of their row.\<close>

lemma owner_step:
  assumes inv: "sys_inv s" and law: "lawful (sys_db s) db'"
    and dom: "\<And>rid. request_of rid db' = map_option f (request_of rid (sys_db s))"
    and row: "\<And>rid r. request_of rid (sys_db s) = Some r \<Longrightarrow> row_ok r \<Longrightarrow> tok_ok (f r)
        \<and> (rq_status (f r) = retry_wait \<longrightarrow> rq_status r = retry_wait \<or> rq_attempts (f r) < row_budget (f r))"
    and own: "\<And>r t op. rq_dispatch_token (f r) = Some t \<Longrightarrow> rq_dispatch_token r = Some t \<and> (owner_ok op r \<longrightarrow> owner_ok op (f r))"
  shows "sys_inv (s\<lparr>sys_db := db'\<rparr>)"
proof -
  let ?db = "sys_db s"
  have rows: "rows_inv (sys_tokens s) ?db" and log: "log_inv (sys_tokens s) ?db (sys_begun s) (sys_calls s)"
    and work: "workers_inv (sys_tokens s) ?db (sys_begun s) (sys_calls s) (sys_workers s)"
    using inv by (simp_all add: sys_inv_def)
  have law': "repo_inv db'" "requests_refine ?db db'" using law rows by (simp_all add: lawful_def rows_inv_def)
  have adv: "advances r (f r)" if "request_of rid ?db = Some r" for rid r
    using law'(2) that dom [of rid] by (auto simp: requests_refine_def split: option.splits dest!: spec [of _ rid])
  have ok: "row_ok r" if "request_of rid ?db = Some r" for rid r using rows that by (simp add: rows_inv_def)
  have "rows_inv (sys_tokens s) db'"
    unfolding rows_inv_def
  proof (intro conjI allI impI law'(1))
    fix rid r' assume "request_of rid db' = Some r'"
    then obtain r where r: "request_of rid ?db = Some r" "r' = f r" by (auto simp: dom)
    show "row_ok r'" unfolding r(2) using row [OF r(1) ok [OF r(1)]] by (intro row_ok_advances [OF ok [OF r(1)] adv [OF r(1)]]) auto
    show "t \<in> sys_tokens s" if "rq_dispatch_token r' = Some t" for t
      using own [of r t] that rows r by (auto simp: rows_inv_def)
  qed
  moreover have "op_inv (sys_tokens s) db' op" if op: "op_inv (sys_tokens s) ?db op" for op
    unfolding op_inv_def
  proof (intro conjI allI impI)
    fix rid r' assume "request_of rid db' = Some r'" and t: "rq_dispatch_token r' = Some (op_DispatchToken op)"
    then obtain r where r: "request_of rid ?db = Some r" "r' = f r" by (auto simp: dom)
    have "rq_dispatch_token r = Some (op_DispatchToken op)" using own [of r] t r(2) by blast
    then have "owner_ok op r" using op r(1) by (simp add: op_inv_def)
    then show "owner_ok op r'" using own [of r "op_DispatchToken op" op] t r(2) by blast
  qed (use op in \<open>simp_all add: op_inv_def\<close>)
  moreover have "int (begun_of (sys_begun s) rid) \<le> rq_attempts (f r)" if "request_of rid ?db = Some r" for rid r
  proof -
    have "int (begun_of (sys_begun s) rid) \<le> rq_attempts r" using log that by (simp add: log_inv_def)
    also have "\<dots> \<le> rq_attempts (f r)" using adv [OF that] by (auto simp: advances_def)
    finally show ?thesis .
  qed
  then have "log_inv (sys_tokens s) db' (sys_begun s) (sys_calls s)"
    using log by (auto simp: log_inv_def dom)
  ultimately show ?thesis using work by (simp add: sys_inv_def workers_inv_def)
qed

definition begin_row :: "string \<Rightarrow> string \<Rightarrow> go_duration \<Rightarrow> pg_time \<Rightarrow> request_row \<Rightarrow> request_row" where
  "begin_row rid token lease now r =
     (if owned rid reserved token r
      then r\<lparr>rq_status := dispatching, rq_attempts := rq_attempts r + 1, rq_lease_until := Some (now + pgInterval lease), rq_updated_at := now\<rparr>
      else r)"

lemma begin_row_token [simp]: "rq_dispatch_token (begin_row rid token lease now r) = rq_dispatch_token r"
  by (simp add: begin_row_def)

lemma BeginDispatch_request:
  "request_of k (snd (BeginDispatch rid token lease now db)) = map_option (begin_row rid token lease now) (request_of k db)"
  by (cases "request_of k db") (simp_all add: BeginDispatch_def Let_def row_by_update begin_row_def)

lemma begin_inv: "sys_inv s \<Longrightarrow> sys_inv (s\<lparr>sys_db := snd (BeginDispatch rid token lease now (sys_db s))\<rparr>)"
proof (rule owner_step [OF _ BeginDispatch_lawful BeginDispatch_request])
  show "rq_dispatch_token r = Some t \<and> (owner_ok op r \<longrightarrow> owner_ok op (begin_row rid token lease now r))"
    if "rq_dispatch_token (begin_row rid token lease now r) = Some t" for r t op
    using that by (simp add: begin_row_def owned_def owner_ok_def split: if_splits)
qed (auto simp: begin_row_def row_ok_def tok_ok_def owned_def)

lemma begin_call_inv: "sys_inv s \<Longrightarrow> sys_inv (s\<lparr>sys_db := snd (db_call f (BeginDispatch rid token lease now) (sys_db s))\<rparr>)"
  using begin_inv by (simp add: db_call_def split: fault.split)

lemma begin_ok:
  assumes inv: "repo_inv db" and ok: "BeginDispatch rid token lease now db = (Inr u, db1)"
  obtains r where "request_of rid db = Some r" "request_of rid db1 = Some (begin_row rid token lease now r)" "owned rid reserved token r"
proof -
  have ra: "rows_affected (owned rid reserved token) (db_requests db) \<noteq> 0"
    using ok by (auto simp: BeginDispatch_def Let_def split: if_splits)
  from owned_request [OF inv ra] obtain r where r: "request_of rid db = Some r" "rq_status r = reserved" "rq_dispatch_token r = Some token"
    by blast
  have "request_of rid (snd (BeginDispatch rid token lease now db)) = Some (begin_row rid token lease now r)"
    unfolding BeginDispatch_request using r(1) by simp
  then show ?thesis using that [of r] r ok row_by_key [OF r(1)] by (simp add: owned_def)
qed

text \<open>A committed dispatch is recorded.\<close>

lemma begun_add:
  assumes inv: "sys_inv s" and w: "sys_workers s w = Permitted op permit"
    and r: "request_of (op_rid op) (sys_db s) = Some r" "int (begun_of (sys_begun s) (op_rid op)) + 1 \<le> rq_attempts r"
  shows "sys_inv (s\<lparr>sys_begun := (op_rid op, op_DispatchToken op) # sys_begun s, sys_workers := (sys_workers s)(w := Dispatched op permit)\<rparr>)"
proof -
  let ?b = "(op_rid op, op_DispatchToken op) # sys_begun s"
  have new: "op_DispatchToken op \<notin> snd ` set (sys_begun s)" using worker_point [OF inv, of w] w by simp
  have tok: "op_DispatchToken op \<in> sys_tokens s" using worker_op [OF inv, of w op] w by (simp add: op_inv_def)
  have log: "log_inv (sys_tokens s) (sys_db s) (sys_begun s) (sys_calls s)" using inv by (simp add: sys_inv_def)
  have others: "op_DispatchToken op' \<noteq> op_DispatchToken op" if "w' \<noteq> w" "engaged (sys_workers s w') = Some op'" for w' op'
    using inv that w unfolding sys_inv_def workers_inv_def by (metis engaged.simps(2))
  have sub: "op_DispatchToken op \<notin> snd ` set (sys_calls s)" using log new by (auto simp: log_inv_def)
  have "point_inv ?b (sys_calls s) (sys_workers s w')" if "w' \<noteq> w" for w'
    using worker_point [OF inv, of w'] others [OF that] by (cases "sys_workers s w'") auto
  then have pts: "point_inv ?b (sys_calls s) (((sys_workers s)(w := Dispatched op permit)) w')" for w' using sub by simp
  have "log_inv (sys_tokens s) (sys_db s) ?b (sys_calls s)"
    using log new tok r by (auto simp: log_inv_def begun_of_def)
  moreover have "sys_inv (s\<lparr>sys_workers := (sys_workers s)(w := InFlight op permit)\<rparr>)"
    using worker_move [OF inv, of "InFlight op permit" w] w by simp
  then have "workers_inv (sys_tokens s) (sys_db s) (sys_begun s) (sys_calls s) ((sys_workers s)(w := InFlight op permit))"
    by (simp add: sys_inv_def)
  then have "workers_inv (sys_tokens s) (sys_db s) ?b (sys_calls s) ((sys_workers s)(w := Dispatched op permit))"
    by (rule workers_swap) (use pts in simp_all)
  ultimately show ?thesis using inv by (simp add: sys_inv_def)
qed

lemma dispatch_inv:
  assumes inv: "sys_inv s" and w: "sys_workers s w = Permitted op permit"
    and x: "x = execute_dispatch cfg f1 f2 now op permit (sys_db s)"
  shows "sys_inv (set_worker w x (if fst x = Dispatched op permit
         then s\<lparr>sys_begun := (op_rid op, op_DispatchToken op) # sys_begun s\<rparr> else s))"
proof -
  let ?g = "BeginDispatch (op_rid op) (op_DispatchToken op) (cf_DispatchLease cfg) now"
  obtain r db1 where c: "db_call f1 ?g (sys_db s) = (r, db1)" by (cases "db_call f1 ?g (sys_db s)")
  have inv1: "sys_inv (s\<lparr>sys_db := db1\<rparr>)"
    using begin_call_inv [OF inv, of f1 "op_rid op" "op_DispatchToken op" "cf_DispatchLease cfg" now] c by simp
  show ?thesis
  proof (cases r)
    case (Inl e)
    have "x = leave f2 permit db1" using c Inl by (simp add: x execute_dispatch_def)
    with leave_inv [OF inv1, of w f2 permit] show ?thesis by (simp add: set_worker_def leave_def)
  next
    case (Inr u)
    then have f1: "?g (sys_db s) = (Inr u, db1)" using c by (auto simp: db_call_def split: fault.splits)
    have repo: "repo_inv (sys_db s)" using inv by (simp add: sys_inv_def rows_inv_def)
    from begin_ok [OF repo f1] obtain q where q: "request_of (op_rid op) (sys_db s) = Some q"
      "request_of (op_rid op) db1 = Some (begin_row (op_rid op) (op_DispatchToken op) (cf_DispatchLease cfg) now q)"
      "owned (op_rid op) reserved (op_DispatchToken op) q" by blast
    have "int (begun_of (sys_begun s) (op_rid op)) \<le> rq_attempts q" using inv q(1) by (simp add: sys_inv_def log_inv_def)
    then have "sys_inv (s\<lparr>sys_db := db1, sys_begun := (op_rid op, op_DispatchToken op) # sys_begun s,
        sys_workers := (sys_workers s)(w := Dispatched op permit)\<rparr>)"
      using begun_add [OF inv1, of w op permit] w q(2,3) by (simp add: begin_row_def)
    moreover have "x = (Dispatched op permit, db1)" using c Inr by (simp add: x execute_dispatch_def)
    then have "set_worker w x (if fst x = Dispatched op permit
         then s\<lparr>sys_begun := (op_rid op, op_DispatchToken op) # sys_begun s\<rparr> else s)
      = s\<lparr>sys_db := db1, sys_begun := (op_rid op, op_DispatchToken op) # sys_begun s,
          sys_workers := (sys_workers s)(w := Dispatched op permit)\<rparr>" by (simp add: set_worker_def)
    ultimately show ?thesis by (simp only:)
  qed
qed

lemma send_inv:
  assumes inv: "sys_inv s" and w: "sys_workers s w = Dispatched op permit"
  shows "sys_inv (s\<lparr>sys_workers := (sys_workers s)(w := InFlight op permit), sys_calls := (op_rid op, op_DispatchToken op) # sys_calls s\<rparr>)"
proof -
  let ?c = "(op_rid op, op_DispatchToken op) # sys_calls s"
  have pt: "(op_rid op, op_DispatchToken op) \<in> set (sys_begun s)" "op_DispatchToken op \<notin> snd ` set (sys_calls s)"
    using worker_point [OF inv, of w] w by simp_all
  have others: "op_DispatchToken op' \<noteq> op_DispatchToken op" if "w' \<noteq> w" "engaged (sys_workers s w') = Some op'" for w' op'
    using inv that w unfolding sys_inv_def workers_inv_def by (metis engaged.simps(3))
  have "point_inv (sys_begun s) ?c (sys_workers s w')" if "w' \<noteq> w" for w'
    using worker_point [OF inv, of w'] others [OF that] by (cases "sys_workers s w'") auto
  then have pts: "point_inv (sys_begun s) ?c (((sys_workers s)(w := InFlight op permit)) w')" for w' by simp
  have "log_inv (sys_tokens s) (sys_db s) (sys_begun s) ?c"
    using inv pt by (auto simp: sys_inv_def log_inv_def)
  moreover have "sys_inv (s\<lparr>sys_workers := (sys_workers s)(w := InFlight op permit)\<rparr>)"
    using worker_move [OF inv, of "InFlight op permit" w] w by simp
  then have "workers_inv (sys_tokens s) (sys_db s) (sys_begun s) (sys_calls s) ((sys_workers s)(w := InFlight op permit))"
    by (simp add: sys_inv_def)
  then have "workers_inv (sys_tokens s) (sys_db s) (sys_begun s) ?c ((sys_workers s)(w := InFlight op permit))"
    by (rule workers_swap) (use pts in simp_all)
  ultimately show ?thesis using inv by (simp add: sys_inv_def)
qed


definition retry_row :: "string \<Rightarrow> string \<Rightarrow> string \<Rightarrow> pg_time \<Rightarrow> pg_time \<Rightarrow> request_row \<Rightarrow> request_row" where
  "retry_row rid token reason next_at now r =
     (if owned rid dispatching token r
      then r\<lparr>rq_status := retry_wait, rq_last_error := Some reason, rq_next_attempt_at := next_at,
             rq_dispatch_token := None, rq_lease_until := None, rq_updated_at := now\<rparr>
      else r)"

lemma ScheduleRetry_request:
  "request_of k (snd (ScheduleRetry rid token reason next_at now db)) = map_option (retry_row rid token reason next_at now) (request_of k db)"
  by (cases "request_of k db") (simp_all add: ScheduleRetry_def Let_def row_by_update retry_row_def)

lemma retry_db_inv:
  assumes inv: "sys_inv s" and w: "sys_workers s w = Retrying op permit reason next_at"
  shows "sys_inv (s\<lparr>sys_db := snd (ScheduleRetry (op_rid op) (op_DispatchToken op) reason next_at now (sys_db s))\<rparr>)"
proof (rule owner_step [OF inv ScheduleRetry_lawful ScheduleRetry_request])
  let ?f = "retry_row (op_rid op) (op_DispatchToken op) reason next_at now"
  have op: "op_inv (sys_tokens s) (sys_db s) op" by (rule worker_op [OF inv, of w]) (simp add: w)
  have b: "op_Attempts op + 1 < budget (op_Request op)" using worker_point [OF inv, of w] w by simp
  show "tok_ok (?f r) \<and> (rq_status (?f r) = retry_wait \<longrightarrow> rq_status r = retry_wait \<or> rq_attempts (?f r) < row_budget (?f r))"
    if r: "request_of rid (sys_db s) = Some r" and ok: "row_ok r" for rid r
  proof (cases "owned (op_rid op) dispatching (op_DispatchToken op) r")
    case True
    then have "owner_ok op r" using op r by (simp add: op_inv_def owned_def sql_eq_iff)
    then have "rq_attempts r = op_Attempts op + 1" "row_budget r = budget (op_Request op)"
      using True op by (simp_all add: owner_ok_def owned_def op_inv_def row_budget_marshal)
    then show ?thesis using True b by (simp add: retry_row_def tok_ok_def row_budget_def)
  qed (use ok in \<open>simp add: retry_row_def row_ok_def\<close>)
  show "rq_dispatch_token r = Some t \<and> (owner_ok op' r \<longrightarrow> owner_ok op' (?f r))" if "rq_dispatch_token (?f r) = Some t" for r t op'
    using that by (simp add: retry_row_def split: if_splits)
qed

lemma retry_inv:
  assumes inv: "sys_inv s" and w: "sys_workers s w = Retrying op permit reason next_at"
  shows "sys_inv (set_worker w (execute_retry f1 f2 now op permit reason next_at (sys_db s)) s)"
proof -
  let ?g = "ScheduleRetry (op_rid op) (op_DispatchToken op) reason next_at now"
  have "sys_inv (s\<lparr>sys_db := snd (db_call f1 ?g (sys_db s))\<rparr>)"
    using retry_db_inv [OF inv w, of now] inv by (simp add: db_call_def split: fault.split)
  from leave_inv [OF this, of w f2 permit] show ?thesis by (simp add: execute_retry_def set_worker_def)
qed

subsection \<open>Reservation and retention\<close>

lemma tokens_mono: "sys_inv s \<Longrightarrow> sys_inv (s\<lparr>sys_tokens := insert t (sys_tokens s)\<rparr>)"
  unfolding sys_inv_def rows_inv_def log_inv_def workers_inv_def op_inv_def by auto

text \<open>The reserved request carries a token that no row and no worker had before.\<close>

lemma reserve_db_inv:
  assumes inv: "sys_inv s" and new: "randomID entropy \<notin> sys_tokens s"
    and res: "ReserveRequest lease locked entropy now (sys_db s) = (Inr op, db')"
  shows "sys_inv (s\<lparr>sys_tokens := insert (randomID entropy) (sys_tokens s), sys_db := db'\<rparr>)"
    and "op_inv (insert (randomID entropy) (sys_tokens s)) db' op" and "op_DispatchToken op = randomID entropy"
proof -
  let ?db = "sys_db s" and ?t = "randomID entropy"
  have rows: "rows_inv (sys_tokens s) ?db" and log: "log_inv (sys_tokens s) ?db (sys_begun s) (sys_calls s)"
    and work: "workers_inv (sys_tokens s) ?db (sys_begun s) (sys_calls s) (sys_workers s)"
    using inv by (simp_all add: sys_inv_def)
  have repo: "repo_inv ?db" using rows by (simp add: rows_inv_def)
  let ?f = "\<lambda>x. x\<lparr>rq_status := reserved, rq_dispatch_token := Some ?t, rq_lease_until := Some (now + pgInterval lease), rq_updated_at := now\<rparr>"
  from ReserveRequest_found [OF repo res] obtain r0
    where r0: "request_of (rq_request_id r0) ?db = Some r0" "reservable now r0"
      "wf_http_request (op_Request op)" "canon_http_request (op_Request op) = op_Request op"
      "rq_request r0 = marshal_http_request (op_Request op)" "hq_RequestID (op_Request op) = rq_request_id r0"
      "hq_ClientID (op_Request op) = rq_client_id r0" "op_Attempts op = rq_attempts r0" "op_DispatchToken op = ?t"
      and db': "db' = ?db\<lparr>db_requests := update_where (\<lambda>x. rq_request_id x = rq_request_id r0) ?f (db_requests ?db)\<rparr>"
    by blast
  have R: "request_of k db' = (if k = rq_request_id r0 then Some (?f r0) else request_of k ?db)" for k
    using r0(1) by (cases "request_of k ?db") (auto simp: db' row_by_update)
  have law: "repo_inv db'" using ReserveRequest_lawful [of ?db lease locked entropy now] res repo by (simp add: lawful_def)
  have ok0: "row_ok r0" using rows r0(1) by (simp add: rows_inv_def)
  have okf: "row_ok (?f r0)" using ok0 r0(2) by (auto simp: row_ok_def reservable_def tok_ok_def row_budget_def)
  have nt: "rq_dispatch_token r \<noteq> Some ?t" if "request_of k ?db = Some r" for k r
    using rows that new by (auto simp: rows_inv_def)
  show "op_DispatchToken op = ?t" by (rule r0(9))
  show opi: "op_inv (insert ?t (sys_tokens s)) db' op"
    using r0 nt by (auto simp: op_inv_def R owner_ok_def split: if_splits)
  have "rows_inv (insert ?t (sys_tokens s)) db'"
    using law rows okf by (auto simp: rows_inv_def R split: if_splits)
  moreover have "log_inv (insert ?t (sys_tokens s)) db' (sys_begun s) (sys_calls s)"
    using log r0(1) by (auto simp: log_inv_def R split: if_splits)
  moreover have "op_inv (insert ?t (sys_tokens s)) db' op'" if "op_inv (sys_tokens s) ?db op'" for op'
    using that new by (auto simp: op_inv_def R split: if_splits)
  ultimately show "sys_inv (s\<lparr>sys_tokens := insert ?t (sys_tokens s), sys_db := db'\<rparr>)"
    using work by (simp add: sys_inv_def workers_inv_def)
qed


lemma reserve_inv:
  assumes inv: "sys_inv s" and idle: "sys_workers s w = Idle" and new: "randomID entropy \<notin> sys_tokens s"
  shows "sys_inv (set_worker w (run_reserve cfg f locked entropy now (sys_db s))
           (s\<lparr>sys_tokens := insert (randomID entropy) (sys_tokens s)\<rparr>))"
proof -
  let ?t = "randomID entropy"
  let ?s = "s\<lparr>sys_tokens := insert ?t (sys_tokens s)\<rparr>"
  let ?g = "ReserveRequest (cf_DispatchLease cfg) locked entropy now"
  have inv0: "sys_inv ?s" by (rule tokens_mono [OF inv])
  obtain r1 db1 where g: "?g (sys_db s) = (r1, db1)" by (cases "?g (sys_db s)")
  have inv1: "sys_inv (?s\<lparr>sys_db := db1\<rparr>)"
  proof (cases r1)
    case (Inl e)
    then have "db1 = sys_db s" using g ReserveRequest_error by blast
    then show ?thesis using inv0 by simp
  next
    case (Inr op)
    show ?thesis using reserve_db_inv(1) [OF inv new g [unfolded Inr]] by simp
  qed
  show ?thesis
  proof (cases "f = NoFault \<and> (\<exists>op. r1 = Inr op)")
    case True
    then obtain op where op: "r1 = Inr op" by blast
    note facts = reserve_db_inv [OF inv new g [unfolded op]]
    have "sys_inv ((?s\<lparr>sys_db := db1\<rparr>)\<lparr>sys_workers := (sys_workers (?s\<lparr>sys_db := db1\<rparr>))(w := Reserved op)\<rparr>)"
    proof (rule worker_take [OF inv1])
      show "op_inv (sys_tokens (?s\<lparr>sys_db := db1\<rparr>)) (sys_db (?s\<lparr>sys_db := db1\<rparr>)) op" using facts(2) by simp
      show "op_DispatchToken op \<notin> snd ` set (sys_begun (?s\<lparr>sys_db := db1\<rparr>))"
        using inv new facts(3) by (auto simp: sys_inv_def log_inv_def)
      show "op_DispatchToken op' \<noteq> op_DispatchToken op" if "engaged (sys_workers (?s\<lparr>sys_db := db1\<rparr>) w') = Some op'" for w' op'
        using worker_op [OF inv, of w' op'] that new facts(3) by (auto simp: op_inv_def)
    qed
    then show ?thesis using True op g by (simp add: run_reserve_def db_call_def set_worker_def)
  next
    case False
    have "sys_inv (?s\<lparr>sys_db := d\<rparr>)" if "d = sys_db s \<or> d = db1" for d using that inv0 inv1 by auto
    moreover obtain d where "run_reserve cfg f locked entropy now (sys_db s) = (Idle, d)" "d = sys_db s \<or> d = db1"
      using False g ReserveRequest_error [of "cf_DispatchLease cfg" locked entropy now "sys_db s"]
      by (cases f; cases r1) (auto simp: run_reserve_def db_call_def)
    ultimately show ?thesis using worker_move [of "?s\<lparr>sys_db := d\<rparr>" Idle w] by (simp add: set_worker_def)
  qed
qed

lemma distinct_map_stored: "distinct (map snd xs) \<Longrightarrow> distinct (map snd (stored_only db xs))"
  by (simp add: stored_only_def distinct_map_filter_key)

lemma begun_of_stored: "begun_of (stored_only db xs) rid \<le> begun_of xs rid"
proof -
  have "filter (\<lambda>x. fst x = rid) (stored_only db xs) = filter (\<lambda>x. request_of (fst x) db \<noteq> None) (filter (\<lambda>x. fst x = rid) xs)"
    unfolding stored_only_def by (simp add: conj_commute)
  then show ?thesis unfolding begun_of_def by (simp only: length_filter_le)
qed

lemma settles_refl: "settles db db"
  by (simp add: settles_def split: option.split)

lemma cleanup_inv:
  assumes inv: "sys_inv s" and db': "db' = snd (db_call f (Cleanup before batch now) (sys_db s))"
    and guard: "\<And>w op permit. sys_workers s w = Dispatched op permit \<Longrightarrow> request_of (op_rid op) (sys_db s) \<noteq> None \<Longrightarrow>
       request_of (op_rid op) db' \<noteq> None"
  shows "sys_inv (s\<lparr>sys_db := db', sys_begun := stored_only db' (sys_begun s), sys_calls := stored_only db' (sys_calls s)\<rparr>)"
proof -
  let ?db = "sys_db s" and ?b = "stored_only db' (sys_begun s)" and ?c = "stored_only db' (sys_calls s)"
  have rows: "rows_inv (sys_tokens s) ?db" and log: "log_inv (sys_tokens s) ?db (sys_begun s) (sys_calls s)"
    and work: "workers_inv (sys_tokens s) ?db (sys_begun s) (sys_calls s) (sys_workers s)"
    using inv by (simp_all add: sys_inv_def)
  have repo: "repo_inv ?db" using rows by (simp add: rows_inv_def)
  have law: "lawful ?db db'" using Cleanup_lawful [of ?db before batch now] by (auto simp: db' db_call_def split: fault.split)
  have set: "settles ?db db'" using Cleanup_settles [OF repo, of before batch now] settles_refl [of ?db]
    by (auto simp: db' db_call_def split: fault.split)
  have cnt: "int (begun_of ?b rid) \<le> rq_attempts r" if "request_of rid ?db = Some r" for rid r
  proof -
    have "int (begun_of (sys_begun s) rid) \<le> rq_attempts r" using log that by (simp add: log_inv_def)
    then show ?thesis using begun_of_stored [of db' "sys_begun s" rid] by linarith
  qed
  have sub: "set ?b \<subseteq> set (sys_begun s)" "set (sys_calls s) \<subseteq> set (sys_begun s) \<Longrightarrow> set ?c \<subseteq> set ?b"
    by (auto simp: stored_only_def)
  have log': "log_inv (sys_tokens s) ?db ?b ?c"
    unfolding log_inv_def
  proof (intro conjI)
    show "distinct (map snd ?b)" "distinct (map snd ?c)" using log distinct_map_stored by (simp_all add: log_inv_def)
    show "set ?c \<subseteq> set ?b" using log sub by (simp add: log_inv_def)
    show "snd ` set ?b \<subseteq> sys_tokens s" using log sub(1) by (auto simp: log_inv_def)
    show "\<forall>x\<in>set ?b. request_of (fst x) ?db \<noteq> None" using log sub(1) by (auto simp: log_inv_def)
  qed (use cnt in blast)
  have "log_inv (sys_tokens s) db' ?b ?c"
    by (rule log_settle [OF rows law set _ log']) (simp add: stored_only_def)
  moreover have "point_inv ?b ?c (sys_workers s w)" for w
  proof (cases "sys_workers s w")
    case (Dispatched op p)
    then have pt: "(op_rid op, op_DispatchToken op) \<in> set (sys_begun s)" "op_DispatchToken op \<notin> snd ` set (sys_calls s)"
      using worker_point [OF inv, of w] by simp_all
    then have "request_of (op_rid op) ?db \<noteq> None" using log by (auto simp: log_inv_def)
    then have "(op_rid op, op_DispatchToken op) \<in> set ?b" using guard [OF Dispatched] pt(1) by (simp add: stored_only_def)
    moreover have "snd ` set ?c \<subseteq> snd ` set (sys_calls s)" by (auto simp: stored_only_def)
    ultimately show ?thesis using pt(2) Dispatched by auto
  qed (use worker_point [OF inv, of w] sub(1) in auto)
  ultimately show ?thesis
    using work rows_settle [OF rows law set] op_settle [OF rows law set] by (simp add: sys_inv_def workers_inv_def)
qed


lemma waiters_inv: "sys_inv (s\<lparr>sys_waiters := v\<rparr>) = sys_inv s"
  by (simp add: sys_inv_def)

lemma waiters_db_inv: "sys_inv s \<Longrightarrow> quiet (sys_db s) db' \<Longrightarrow> sys_inv (s\<lparr>sys_db := db', sys_waiters := v\<rparr>)"
  using quiet_inv [of s db'] waiters_inv [where s = "s\<lparr>sys_db := db'\<rparr>" and v = v] by simp

lemma sys_event_step_inv: "sys_event_step cfg cores lib wl h url_parse s e s' \<Longrightarrow> sys_inv s \<Longrightarrow> sys_inv s'"
proof (induction rule: sys_event_step.induct)
  case (crash s p w)
  have "sys_inv (s\<lparr>sys_workers := (sys_workers s)(w := Idle)\<rparr>)" by (rule worker_move [OF crash.prems]) simp_all
  then show ?case using waiters_inv [where s = "s\<lparr>sys_workers := (sys_workers s)(w := Idle)\<rparr>"] by simp
next
  case (dispatch s w op permit r f1 f2 now)
  then show ?case by (intro dispatch_inv)
next
  case (unsent s w op permit build e draw clock)
  then show ?case by (intro reply_inv) simp_all
next
  case (reply s w op permit draw clock build net)
  then show ?case by (intro reply_inv) simp_all
next
  case (recover s f recover_clock now)
  then show ?case by (intro quiet_call RecoverExpiredDispatches_quiet)
next
  case (webhook_received eventID s p response ws')
  then show ?case by (simp add: waiters_inv)
qed (auto intro: quiet_inv waiters_db_inv handleRequest_quiet delivery_turn_quiet handleWebhookCommand_quiet
    handleWebhookResponse_quiet deliver_start_quiet deliver_timeout_quiet reserve_inv acquire_inv dispatch_inv send_inv
    retry_inv save_inv leave_inv cleanup_inv handle_ack_quiet ConfirmAcceptance_quiet ConfirmResult_quiet confirm_kind_quiet
    simp: handleAcceptanceACK_def handleResultACK_def handleWebhookControlACK_def handleWebhookACK_def
    ConfirmWebhookControl_def ConfirmWebhook_def)

lemma sys_step_inv: "sys_step cfg cores lib wl h url_parse s s' \<Longrightarrow> sys_inv s \<Longrightarrow> sys_inv s'"
  by (auto simp: sys_step_def intro: sys_event_step_inv)

interpretation outgoing: inductive_invariant sys_init "sys_step cfg cores lib wl h url_parse" sys_inv
  for cfg cores lib wl h url_parse
  by unfold_locales (auto intro: sys_inv_init sys_step_inv)

abbreviation sys_reachable ::
  "config \<Rightarrow> (nat \<Rightarrow> core) \<Rightarrow> crypto_lib \<Rightarrow> wire_lib \<Rightarrow> hash_lib \<Rightarrow> url_parser \<Rightarrow> sys \<Rightarrow> bool" where
  "sys_reachable cfg cores lib wl h url_parse \<equiv> reach sys_init (sys_step cfg cores lib wl h url_parse)"

lemma calls_le_attempts:
  assumes "sys_inv s" "request_of rid (sys_db s) = Some r"
  shows "int (calls_of s rid) \<le> rq_attempts r"
proof -
  have log: "log_inv (sys_tokens s) (sys_db s) (sys_begun s) (sys_calls s)" using assms(1) by (simp add: sys_inv_def)
  let ?p = "\<lambda>x. fst x = rid"
  have d: "distinct (filter ?p (sys_calls s))" "distinct (filter ?p (sys_begun s))" using log by (simp_all add: log_inv_def distinct_map)
  have "set (filter ?p (sys_calls s)) \<subseteq> set (filter ?p (sys_begun s))" using log by (auto simp: log_inv_def)
  then have "card (set (filter ?p (sys_calls s))) \<le> card (set (filter ?p (sys_begun s)))" by (rule card_mono [rotated]) simp
  then have "length (filter ?p (sys_calls s)) \<le> length (filter ?p (sys_begun s))" using d by (simp only: distinct_card)
  also have "int (length (filter ?p (sys_begun s))) \<le> rq_attempts r" using log assms(2) by (simp add: log_inv_def begun_of_def)
  finally show ?thesis by (simp add: calls_of_def)
qed


subsection \<open>Every step follows the specification of requests\<close>

lemma db_call_lawful: "lawful db (snd (g db)) \<Longrightarrow> lawful db (snd (db_call f g db))"
  by (simp add: db_call_def split: fault.split)

lemma lawful_frame_trans: "lawful db1 db2 \<Longrightarrow> db_requests db1 = db_requests db \<Longrightarrow> db_deliveries db1 = db_deliveries db \<Longrightarrow> lawful db db2"
proof -
  assume law: "lawful db1 db2" and eq: "db_requests db1 = db_requests db" "db_deliveries db1 = db_deliveries db"
  have "lawful db db1" using eq by (rule lawful_frame)
  then show "lawful db db2" using law eq(1) unfolding lawful_def requests_refine_def by simp
qed

lemma leave_frame: "db_requests (snd (leave f permit db)) = db_requests db" "db_deliveries (snd (leave f permit db)) = db_deliveries db"
  by (simp_all add: leave_def db_call_def ReleaseHostPermit_def split: fault.split)

lemma leave_lawful: "lawful db db1 \<Longrightarrow> lawful db (snd (leave f permit db1))"
  by (rule lawful_trans_frame [OF _ lawful_frame]) (simp_all add: leave_frame)

lemma execute_acquire_lawful: "lawful db (snd (execute_acquire cfg url_parse f1 f2 entropy now op db))"
proof -
  define g where "g = (let host = ToLower (mustHost url_parse (hq_URL (op_Request op))); limit = LimitForHost cfg host
      in AcquireHostPermit host (hl_RPS limit) (hl_Concurrency limit) (hl_MinInterval limit)
           (wrap64 (cf_MaxRequestTimeout cfg + 60000000000)) entropy now)"
  obtain r db1 where c: "db_call f1 g db = (r, db1)" by (cases "db_call f1 g db")
  have "db_requests (snd (db_call f1 g db)) = db_requests db" "db_deliveries (snd (db_call f1 g db)) = db_deliveries db"
    by (simp_all add: g_def Let_def db_call_def AcquireHostPermit_frame split: fault.split)
  then have fr: "db_requests db1 = db_requests db" "db_deliveries db1 = db_deliveries db" by (simp_all add: c)
  have "lawful db (snd (db_call f2 (ReleaseReserved (op_rid op) (op_DispatchToken op) now) db1))"
    by (rule lawful_frame_trans [OF _ fr]) (rule db_call_lawful, rule ReleaseReserved_lawful)
  then show ?thesis using c lawful_frame [OF fr]
    by (cases r) (simp_all add: execute_acquire_def g_def Let_def)
qed

lemma execute_save_lawful:
  assumes "lawful db (snd (SaveHTTPResult (op_DispatchToken op) (hq_ClientID (op_Request op))
      (results_subject cfg (hq_ClientID (op_Request op))) result now db))"
  shows "lawful db (snd (execute_save cfg f1 f2 now op permit result db))"
proof -
  let ?g = "SaveHTTPResult (op_DispatchToken op) (hq_ClientID (op_Request op))
      (results_subject cfg (hq_ClientID (op_Request op))) result now"
  have "lawful db (snd (db_call f1 ?g db))" by (rule db_call_lawful) (rule assms)
  then show ?thesis unfolding execute_save_def using leave_lawful by (auto split: prod.splits sum.splits)
qed

lemma execute_dispatch_lawful: "lawful db (snd (execute_dispatch cfg f1 f2 now op permit db))"
proof -
  let ?g = "BeginDispatch (op_rid op) (op_DispatchToken op) (cf_DispatchLease cfg) now"
  have "lawful db (snd (db_call f1 ?g db))" by (rule db_call_lawful) (rule BeginDispatch_lawful)
  then show ?thesis unfolding execute_dispatch_def using leave_lawful by (auto split: prod.splits sum.splits)
qed

lemma quiet_lawful: "quiet db db' \<Longrightarrow> lawful db db'"
  by (simp add: quiet_def)

lemma sys_event_step_lawful:
  assumes "sys_event_step cfg cores lib wl h url_parse s e s'" and inv: "sys_inv s"
  shows "lawful (sys_db s) (sys_db s')"
  using assms
proof (induction rule: sys_event_step.induct)
  case (reserve s w entropy f locked now)
  have "snd (run_reserve cfg f locked entropy now (sys_db s))
      = snd (db_call f (ReserveRequest (cf_DispatchLease cfg) locked entropy now) (sys_db s))"
    by (simp add: run_reserve_def split: prod.split sum.split)
  then show ?case by (simp add: set_worker_def db_call_lawful ReserveRequest_lawful)
next
  case (acquire s w op f1 f2 entropy now)
  then show ?case by (simp add: set_worker_def execute_acquire_lawful)
next
  case (dispatch s w op permit r f1 f2 now)
  have "lawful (sys_db s) (snd (execute_dispatch cfg f1 f2 now op permit (sys_db s)))"
    by (rule execute_dispatch_lawful)
  then show ?case using dispatch by (simp add: set_worker_def)
next
  case (retry s w op permit reason next_at f1 f2 now)
  then show ?case by (simp add: set_worker_def execute_retry_def leave_lawful db_call_lawful ScheduleRetry_lawful)
next
  case (save s w op permit result f1 f2 now)
  have res: "rs_ResultID result = result_id (rs_RequestID result)" "rs_RequestID result = op_rid op"
    using worker_point [OF save.prems, of w] save.hyps by simp_all
  have op: "op_inv (sys_tokens s) (sys_db s) op" by (rule worker_op [OF save.prems, of w]) (simp add: save.hyps)
  have "lawful (sys_db s) (snd (execute_save cfg f1 f2 now op permit result (sys_db s)))"
    by (rule execute_save_lawful, rule SaveHTTPResult_lawful [OF res(1)])
      (use op in \<open>auto simp: op_inv_def owned_def owner_ok_def sql_eq_iff\<close>)
  then show ?case by (simp add: set_worker_def)
next
  case (stop s w op permit result f)
  then show ?case by (simp add: set_worker_def leave_lawful)
next
  case (recover s f recover_clock now)
  then show ?case by (simp add: db_call_lawful RecoverExpiredDispatches_lawful)
next
  case (cleanup db' f before batch now s)
  then show ?case by (simp add: db_call_lawful Cleanup_lawful)
qed (auto simp: handleAcceptanceACK_def handleResultACK_def handleWebhookControlACK_def handleWebhookACK_def
    ConfirmWebhookControl_def ConfirmWebhook_def
    dest!: handleWebhookResponse_quiet deliver_start_quiet deliver_timeout_quiet
    intro!: quiet_lawful handleRequest_quiet delivery_turn_quiet handleWebhookCommand_quiet handle_ack_quiet
      ConfirmAcceptance_quiet ConfirmResult_quiet confirm_kind_quiet)

lemma sys_step_lawful: "sys_step cfg cores lib wl h url_parse s s' \<Longrightarrow> sys_inv s \<Longrightarrow> lawful (sys_db s) (sys_db s')"
  by (auto simp: sys_step_def intro: sys_event_step_lawful)

end
