(* ===== verification/Gateway_Demo.thy ===== *)
theory Gateway_Demo
  imports Outgoing_Guarantees
begin

text \<open>
  A concrete run of the outgoing side, used to show that the hypotheses of the properties can hold:
  one request is accepted, its acceptance is confirmed, a worker reserves it, obtains a permit,
  commits the dispatch and sends it; the exchange fails and the result \<open>unknown\<close> is stored. Signatures are switched off; the text form of JSON is replaced by
  functions that know the two messages of the run.
\<close>

definition demo_request :: http_request where
  "demo_request = zero_http_request\<lparr>hq_RequestID := ''r1'', hq_ClientID := ''shop'', hq_ProxyID := ''p1'', hq_Method := ''POST'',
     hq_URL := ''http://bank/pay'', hq_Body := ''1''\<rparr>"

definition demo_ack :: delivery_ack where
  "demo_ack = \<lparr>da_RequestID = ''r1'', da_DeliveryID = ''accept_r1'', da_ClientID = ''shop''\<rparr>"

definition demo_wire :: wire_lib where
  "demo_wire = \<lparr>
     wl_env_parse = (\<lambda>d. Some \<lparr>en_ID = ''m'', en_Type = (if d = ''req'' then TypeHTTPRequest else TypeAcceptanceACK), en_Timestamp = 1,
                              en_Payload = d, en_KeyID = [], en_Signature = []\<rparr>),
     wl_env_text = (\<lambda>e. en_Payload e),
     wl_parse = (\<lambda>d. Some (if d = ''req'' then marshal_http_request demo_request else marshal_delivery_ack demo_ack)),
     wl_text = (\<lambda>j. ''json'')\<rparr>"

definition demo_core :: core where
  "demo_core = \<lparr>tc_proxyID = ''p1'', tc_instanceID = ''i1'', tc_publicBaseURL = ''http://proxy'', tc_signer = [], tc_keys = [],
     tc_clientByKeyID = [], tc_allowed = [(''shop'', True)], tc_requireSignature = False, tc_deliveryRetry = 1000000000,
     tc_maxMessageBytes = 8388608, tc_maxRequestBytes = 4194304\<rparr>"

definition demo_crypto :: crypto_lib where
  "demo_crypto = \<lparr>cl_Sign = (\<lambda>k m. m), cl_Verify = (\<lambda>k m s. m = s), cl_Public = (\<lambda>k. replicate 32 (CHR ''k'')),
     cl_RFC3339Nano = FormatInt\<rparr>"

definition demo_hash :: hash_lib where
  "demo_hash = \<lparr>hs_sha256 = (\<lambda>m. m), hs_hmac = (\<lambda>k m. m)\<rparr>"

definition demo_url :: url_parser where
  "demo_url = (\<lambda>u. Some \<lparr>ur_Scheme = ''http'', ur_Host = ''bank''\<rparr>)"

definition demo_config :: config where
  "demo_config = \<lparr>cf_ProxyID = ''p1'', cf_InstanceID = ''i1'', cf_HTTPAddr = '':8080'', cf_PublicBaseURL = ''http://proxy'',
     cf_DatabaseURL = ''db'', cf_NATSURL = ''nats'', cf_NATSCredsFile = [], cf_NATSCACert = [], cf_NATSClientCert = [],
     cf_NATSClientKey = [], cf_SigningPrivateKeyFile = [], cf_ClientPublicKeys = [], cf_AllowedClients = [(''shop'', True)],
     cf_RequireSignature = False, cf_AutoMigrate = False, cf_Workers = 1, cf_DeliveryWorkers = 1, cf_DBMaxConns = 4,
     cf_MaxMessageBytes = 8388608, cf_MaxRequestBytes = 4194304, cf_MaxResponseBytes = 4194304,
     cf_RequestTimeout = 30000000000, cf_MaxRequestTimeout = 120000000000, cf_DeliveryRetry = 1000000000,
     cf_DispatchLease = 180000000000, cf_ShutdownTimeout = 30000000000, cf_Retention = 2592000000000000,
     cf_CleanupInterval = 3600000000000, cf_DefaultHostLimit = \<lparr>hl_RPS = 20, hl_Concurrency = 8, hl_MinInterval = 0\<rparr>,
     cf_HostLimits = [], cf_WebhookDefaultMaxBody = 4194304, cf_WebhookDefaultTimeout = 10000000000\<rparr>"

definition demo_io :: io where
  "demo_io = \<lparr>io_now = 100, io_clock = 100, io_entropy = ''0123456789abcdef'', io_fault = NoFault, io_published = True\<rparr>"

definition demo_s0 :: sys where
  "demo_s0 = \<lparr>sys_db = empty_db, sys_workers = (\<lambda>_. Idle), sys_waiters = (\<lambda>_. Map.empty), sys_tokens = {}, sys_begun = [], sys_calls = []\<rparr>"

definition demo_db1 :: proxy_db where
  "demo_db1 = fst (handleRequest demo_core demo_crypto demo_wire demo_url demo_io ''req'' empty_db)"

definition demo_db2 :: proxy_db where
  "demo_db2 = fst (handleAcceptanceACK demo_core demo_crypto demo_wire demo_io ''ack'' demo_db1)"

definition demo_entropy :: bytes where "demo_entropy = ''0123456789abcdef''"

definition demo_w3 :: "worker_state \<times> proxy_db" where
  "demo_w3 = run_reserve demo_config NoFault [] demo_entropy 200 demo_db2"

definition demo_op :: operation where
  "demo_op = \<lparr>op_Request = demo_request, op_Attempts = 0, op_DispatchToken = randomID demo_entropy\<rparr>"

definition demo_permit :: string where
  "demo_permit = randomID ''fedcba9876543210''"

definition demo_w4 :: "worker_state \<times> proxy_db" where
  "demo_w4 = execute_acquire demo_config demo_url NoFault NoFault ''fedcba9876543210'' 300 demo_op (snd demo_w3)"

definition demo_w5 :: "worker_state \<times> proxy_db" where
  "demo_w5 = execute_dispatch demo_config NoFault NoFault 400 demo_op demo_permit (snd demo_w4)"

text \<open>What the worker does in this run, computed once: its states, and the row after the dispatch and at the end.\<close>

definition demo_result :: http_result where
  "demo_result = final_result demo_config demo_op 500
     (zero_http_result\<lparr>rs_State := ''unknown'', rs_ErrorCode := ''http_outcome_unknown'', rs_Error := ''connection reset''\<rparr>)"

definition demo_w8 :: "worker_state \<times> proxy_db" where
  "demo_w8 = execute_save demo_config NoFault NoFault 600 demo_op demo_permit demo_result (snd demo_w5)"

lemma demo_run:
  "case demo_w3 of (st3, db3) \<Rightarrow>
   case execute_acquire demo_config demo_url NoFault NoFault ''fedcba9876543210'' 300 demo_op db3 of (st4, db4) \<Rightarrow>
   case execute_dispatch demo_config NoFault NoFault 400 demo_op demo_permit db4 of (st5, db5) \<Rightarrow>
   case execute_save demo_config NoFault NoFault 600 demo_op demo_permit demo_result db5 of (st8, db8) \<Rightarrow>
     st3 = Reserved demo_op \<and> st4 = Permitted demo_op demo_permit \<and> st5 = Dispatched demo_op demo_permit
     \<and> map_option (\<lambda>r. (rq_status r, rq_attempts r, rq_request r)) (request_of ''r1'' db5) = Some (dispatching, 1, marshal_http_request demo_request)
     \<and> map_option rq_status (request_of ''r1'' db8) = Some unknown"
  by code_simp

lemma demo_run_facts:
  "fst demo_w3 = Reserved demo_op \<and> fst demo_w4 = Permitted demo_op demo_permit \<and> fst demo_w5 = Dispatched demo_op demo_permit
   \<and> map_option (\<lambda>r. (rq_status r, rq_attempts r, rq_request r)) (request_of ''r1'' (snd demo_w5)) = Some (dispatching, 1, marshal_http_request demo_request)
   \<and> map_option rq_status (request_of ''r1'' (snd demo_w8)) = Some unknown"
  unfolding demo_w8_def demo_w5_def demo_w4_def by (rule demo_run [unfolded case_prod_unfold])

lemmas demo_reserved = demo_run_facts [THEN conjunct1]

lemma demo_permitted: "fst demo_w4 = Permitted demo_op demo_permit"
  using demo_run_facts by blast

lemma demo_dispatched: "fst demo_w5 = Dispatched demo_op demo_permit"
  using demo_run_facts by blast

definition demo_s3 :: sys where
  "demo_s3 = demo_s0\<lparr>sys_db := snd demo_w3, sys_workers := (\<lambda>_. Idle)(0 := Reserved demo_op), sys_tokens := {randomID demo_entropy}\<rparr>"

definition demo_s5 :: sys where
  "demo_s5 = demo_s0\<lparr>sys_db := snd demo_w5, sys_workers := (\<lambda>_. Idle)(0 := Dispatched demo_op demo_permit),
     sys_tokens := {randomID demo_entropy}, sys_begun := [(''r1'', randomID demo_entropy)]\<rparr>"

definition demo_s6 :: sys where
  "demo_s6 = demo_s5\<lparr>sys_workers := (\<lambda>_. Idle)(0 := InFlight demo_op demo_permit), sys_calls := [(''r1'', randomID demo_entropy)]\<rparr>"

abbreviation demo_step :: "sys \<Rightarrow> sys \<Rightarrow> bool" where
  "demo_step \<equiv> sys_step demo_config (\<lambda>_. demo_core) demo_crypto demo_wire demo_hash demo_url"

abbreviation demo_reachable :: "sys \<Rightarrow> bool" where
  "demo_reachable \<equiv> sys_reachable demo_config (\<lambda>_. demo_core) demo_crypto demo_wire demo_hash demo_url"

lemma demo_reach0: "demo_reachable demo_s0"
  by (rule reach.start) (simp add: sys_init_def demo_s0_def)

lemma demo_reach1: "demo_reachable (demo_s0\<lparr>sys_db := demo_db1\<rparr>)"
proof -
  have "demo_step demo_s0 (demo_s0\<lparr>sys_db := fst (handleRequest demo_core demo_crypto demo_wire demo_url demo_io ''req'' (sys_db demo_s0))\<rparr>)"
    by (rule sys_stepI, rule sys_event_step.request)
  then show ?thesis using reach.step [OF demo_reach0] by (simp add: demo_db1_def demo_s0_def)
qed

lemma demo_reach2: "demo_reachable (demo_s0\<lparr>sys_db := demo_db2\<rparr>)"
proof -
  let ?s = "demo_s0\<lparr>sys_db := demo_db1\<rparr>"
  have "demo_step ?s (?s\<lparr>sys_db := fst (handleAcceptanceACK demo_core demo_crypto demo_wire demo_io ''ack'' (sys_db ?s))\<rparr>)"
    by (rule sys_stepI, rule sys_event_step.accepted_ack)
  then show ?thesis using reach.step [OF demo_reach1] by (simp add: demo_db2_def)
qed

lemma demo_reach3: "demo_reachable demo_s3"
proof -
  let ?s = "demo_s0\<lparr>sys_db := demo_db2\<rparr>"
  have "demo_step ?s (set_worker 0 (run_reserve demo_config NoFault [] demo_entropy 200 (sys_db ?s))
      (?s\<lparr>sys_tokens := insert (randomID demo_entropy) (sys_tokens ?s)\<rparr>))"
    by (rule sys_stepI, rule sys_event_step.reserve) (simp_all add: demo_s0_def)
  moreover have "set_worker 0 (run_reserve demo_config NoFault [] demo_entropy 200 (sys_db ?s))
      (?s\<lparr>sys_tokens := insert (randomID demo_entropy) (sys_tokens ?s)\<rparr>) = demo_s3"
    using demo_reserved by (simp add: set_worker_def demo_s3_def demo_w3_def demo_s0_def)
  ultimately show ?thesis using reach.step [OF demo_reach2] by simp
qed

lemma demo_reach5: "demo_reachable demo_s5"
proof -
  have "demo_step demo_s3 (set_worker 0 demo_w4 demo_s3)"
    using sys_stepI [OF sys_event_step.acquire [of demo_s3 0 demo_op]] by (simp add: demo_w4_def demo_s3_def)
  then have r4: "demo_reachable (set_worker 0 demo_w4 demo_s3)" by (rule reach.step [OF demo_reach3])
  let ?s4 = "set_worker 0 demo_w4 demo_s3"
  have "demo_step ?s4 (set_worker 0 demo_w5 (if fst demo_w5 = Dispatched demo_op demo_permit
         then ?s4\<lparr>sys_begun := (op_rid demo_op, op_DispatchToken demo_op) # sys_begun ?s4\<rparr> else ?s4))"
    by (rule sys_stepI, rule sys_event_step.dispatch [where ?f1.0 = NoFault and ?f2.0 = NoFault and now = 400])
      (simp_all add: set_worker_def demo_permitted demo_w5_def)
  moreover have "set_worker 0 demo_w5 (if fst demo_w5 = Dispatched demo_op demo_permit
         then ?s4\<lparr>sys_begun := (op_rid demo_op, op_DispatchToken demo_op) # sys_begun ?s4\<rparr> else ?s4) = demo_s5"
    by (simp add: demo_dispatched set_worker_def demo_s5_def demo_s3_def demo_s0_def)
      (simp add: demo_op_def demo_request_def zero_http_request_def)
  ultimately show ?thesis using reach.step [OF r4] by simp
qed

lemma demo_reach6: "demo_reachable demo_s6"
proof -
  have "demo_step demo_s5 (demo_s5\<lparr>sys_workers := (sys_workers demo_s5)(0 := InFlight demo_op demo_permit),
      sys_calls := (op_rid demo_op, op_DispatchToken demo_op) # sys_calls demo_s5\<rparr>)"
    by (rule sys_stepI, rule sys_event_step.send) (simp add: demo_s5_def)
  moreover have "demo_s5\<lparr>sys_workers := (sys_workers demo_s5)(0 := InFlight demo_op demo_permit),
      sys_calls := (op_rid demo_op, op_DispatchToken demo_op) # sys_calls demo_s5\<rparr> = demo_s6"
    by (simp add: demo_s6_def demo_s5_def demo_s0_def) (simp add: demo_op_def demo_request_def zero_http_request_def)
  ultimately show ?thesis using reach.step [OF demo_reach5] by simp
qed

lemma demo_row6: "\<exists>r. request_of ''r1'' (sys_db demo_s6) = Some r \<and> rq_status r = dispatching \<and> rq_attempts r = 1
    \<and> rq_request r = marshal_http_request demo_request"
proof -
  have "map_option (\<lambda>r. (rq_status r, rq_attempts r, rq_request r)) (request_of ''r1'' (snd demo_w5))
      = Some (dispatching, 1, marshal_http_request demo_request)"
    using demo_run_facts by blast
  then show ?thesis by (auto simp: demo_s6_def demo_s5_def)
qed

text \<open>The connection breaks, and the outcome is stored as unknown.\<close>

definition demo_outcome :: "http_result go_result" where
  "demo_outcome = Do (\<lambda>_ _. Inr ''bank'') (\<lambda>_. Inl (ErrText ''connection reset'')) (cf_MaxResponseBytes demo_config) demo_request"

definition demo_s8 :: sys where
  "demo_s8 = demo_s6\<lparr>sys_db := snd demo_w8, sys_workers := (\<lambda>_. Idle)(0 := fst demo_w8)\<rparr>"

lemma demo_reply: "execute_reply demo_config (\<lambda>n. 0) 500 demo_op demo_permit demo_outcome = Saving demo_op demo_permit demo_result"
  by (simp add: demo_outcome_def Do_def go_try_def demo_request_def zero_http_request_def execute_reply_def canRetry_def
      demo_op_def zero_retry_def safe_method_def error_text_def demo_result_def)

lemma demo_reach8: "demo_reachable demo_s8"
proof -
  let ?s7 = "demo_s6\<lparr>sys_workers := (\<lambda>_. Idle)(0 := Saving demo_op demo_permit demo_result)\<rparr>"
  have "demo_step demo_s6 (demo_s6\<lparr>sys_workers := (sys_workers demo_s6)(0 := execute_reply demo_config (\<lambda>n. 0) 500 demo_op demo_permit
      (Do (\<lambda>_ _. Inr ''bank'') (\<lambda>_. Inl (ErrText ''connection reset'')) (cf_MaxResponseBytes demo_config) (op_Request demo_op)))\<rparr>)"
    by (rule sys_stepI, rule sys_event_step.reply) (simp add: demo_s6_def)
  moreover have "op_Request demo_op = demo_request" by (simp add: demo_op_def)
  moreover have "sys_workers demo_s6 = (\<lambda>_. Idle)(0 := InFlight demo_op demo_permit)" by (simp add: demo_s6_def)
  ultimately have "demo_step demo_s6 ?s7" using demo_reply by (simp add: demo_outcome_def)
  then have r7: "demo_reachable ?s7" by (rule reach.step [OF demo_reach6])
  have "demo_step ?s7 (set_worker 0 (execute_save demo_config NoFault NoFault 600 demo_op demo_permit demo_result (sys_db ?s7)) ?s7)"
    by (rule sys_stepI, rule sys_event_step.save) simp
  moreover have "set_worker 0 (execute_save demo_config NoFault NoFault 600 demo_op demo_permit demo_result (sys_db ?s7)) ?s7 = demo_s8"
    by (simp add: set_worker_def demo_s8_def demo_w8_def demo_s6_def demo_s5_def)
  ultimately show ?thesis using reach.step [OF r7] by simp
qed

lemma demo_row8: "\<exists>r. request_of ''r1'' (sys_db demo_s8) = Some r \<and> rq_status r = unknown"
proof -
  have "map_option rq_status (request_of ''r1'' (snd demo_w8)) = Some unknown"
    using demo_run_facts by blast
  then show ?thesis by (auto simp: demo_s8_def)
qed

lemma demo_row1: "\<exists>r. request_of ''r1'' demo_db1 = Some r \<and> rq_status r = awaiting_acceptance_ack"
proof -
  have "map_option rq_status (request_of ''r1'' demo_db1) = Some awaiting_acceptance_ack"
    by code_simp
  then show ?thesis by auto
qed

end
