(* ===== verification/Outgoing_Properties.thy ===== *)
theory Outgoing_Properties
  imports Gateway_Demo
begin

text \<open>
  What the outgoing side guarantees to its clients, in every reachable state of the system of all
  workers, handlers and maintenance jobs.
\<close>

subsection \<open>Facts about reachable states\<close>

lemma reachable_inv: "sys_reachable cfg cores lib wl h url_parse s \<Longrightarrow> sys_inv s"
  by (rule outgoing.always)

lemma reachable_repo: "sys_reachable cfg cores lib wl h url_parse s \<Longrightarrow> repo_inv (sys_db s)"
  by (drule reachable_inv) (simp add: sys_inv_def rows_inv_def)

lemma reachable_row:
  "sys_reachable cfg cores lib wl h url_parse s \<Longrightarrow> request_of rid (sys_db s) = Some r \<Longrightarrow> row_ok r"
  by (drule reachable_inv) (simp add: sys_inv_def rows_inv_def)

lemma reachable_calls:
  "sys_reachable cfg cores lib wl h url_parse s \<Longrightarrow> request_of rid (sys_db s) = Some r \<Longrightarrow>
   int (calls_of s rid) \<le> rq_attempts r \<and> rq_attempts r \<le> row_budget r"
  using calls_le_attempts [OF reachable_inv] reachable_row by (auto simp: row_ok_def)

lemma claimable_later:
  "dl_acknowledged_at d = None \<Longrightarrow> \<exists>t0. \<forall>t \<ge> t0. claimable t d"
  by (cases "dl_lease_until d")
    (auto simp: claimable_def intro: exI [of _ "dl_next_attempt_at d"] exI [of _ "max (dl_next_attempt_at d) (the (dl_lease_until d) + 1)"])

subsection \<open>Sending\<close>

text \<open>
  C1: A request that is neither of a safe method nor declared idempotent is sent to its target at most
  once, whatever the interleaving of workers, lost database calls, crashes, recoveries and
  redeliveries of the same request.
\<close>

theorem unsafe_request_sent_at_most_once:
  assumes "sys_reachable cfg cores lib wl h url_parse s"
    and "request_of rid (sys_db s) = Some r" and "unmarshal_http_request (rq_request r) = Some q"
    and "\<not> safe_method q"
  shows "calls_of s rid \<le> 1"
  using reachable_calls [OF assms(1,2)] assms(3,4) by (simp add: row_budget_def budget_def)

theorem unsafe_request_sent_at_most_once_witness:
  "demo_reachable demo_s6 \<and> calls_of demo_s6 ''r1'' = 1 \<and> calls_of demo_s6 ''r1'' \<le> 1"
proof -
  obtain r where r: "request_of ''r1'' (sys_db demo_s6) = Some r" "rq_request r = marshal_http_request demo_request"
    using demo_row6 by auto
  have wf: "wf_http_request demo_request" "canon_http_request demo_request = demo_request"
    by code_simp+
  have "\<not> safe_method demo_request" by code_simp
  then have "calls_of demo_s6 ''r1'' \<le> 1"
    using unsafe_request_sent_at_most_once [OF demo_reach6 r(1), of demo_request] r(2) wf by (simp add: http_request_decode)
  then show ?thesis using demo_reach6 by (simp add: calls_of_def demo_s6_def)
qed

text \<open>
  C2: The number of HTTP requests sent for a stored request never exceeds its attempt counter, and
  the counter never exceeds the policy the client sent: 1, or \<open>MaxAttempts\<close> for a request that may be
  repeated.
\<close>

theorem attempts_within_policy:
  assumes "sys_reachable cfg cores lib wl h url_parse s" and "request_of rid (sys_db s) = Some r"
    and "unmarshal_http_request (rq_request r) = Some q"
  shows "int (calls_of s rid) \<le> rq_attempts r \<and> rq_attempts r \<le> max 1 (rp_MaxAttempts (hq_Retry q))"
  using reachable_calls [OF assms(1,2)] assms(3) by (auto simp: row_budget_def budget_def split: if_splits)

theorem attempts_within_policy_witness:
  "demo_reachable demo_s6 \<and> (\<exists>r. request_of ''r1'' (sys_db demo_s6) = Some r \<and> int (calls_of demo_s6 ''r1'') \<le> rq_attempts r
     \<and> rq_attempts r \<le> max 1 (rp_MaxAttempts (hq_Retry demo_request)))"
proof -
  obtain r where r: "request_of ''r1'' (sys_db demo_s6) = Some r" "rq_request r = marshal_http_request demo_request"
    using demo_row6 by auto
  have wf: "wf_http_request demo_request" "canon_http_request demo_request = demo_request"
    by code_simp+
  show ?thesis using attempts_within_policy [OF demo_reach6 r(1), of demo_request] r wf demo_reach6
    by (auto simp: http_request_decode)
qed



subsection \<open>Results\<close>

text \<open>
  C5: No result is lost. A stored request whose exchange is over, completed or of unknown outcome,
  and whose result the client has not confirmed, has an unconfirmed result delivery addressed to the
  client that sent the request, and from some time on the delivery loop can claim it.
\<close>

theorem result_is_always_deliverable:
  assumes "sys_reachable cfg cores lib wl h url_parse s" and "request_of rid (sys_db s) = Some r"
    and "rq_status r = http_completed \<or> rq_status r = unknown"
  shows "\<exists>d. delivery_of (result_id rid) (sys_db s) = Some d \<and> dl_kind d = result_kind \<and> dl_client_id d = rq_client_id r
    \<and> dl_acknowledged_at d = None \<and> (\<exists>t0. \<forall>t \<ge> t0. claimable t d)"
proof -
  have "handshake_open (sys_db s) r" using repo_invD(4) [OF reachable_repo [OF assms(1)] assms(2)] .
  moreover have "rq_request_id r = rid" using assms(2) by auto
  ultimately show ?thesis using assms(3) claimable_later unfolding handshake_open_def drives_def by auto
qed

theorem result_is_always_deliverable_witness:
  "demo_reachable demo_s8 \<and> (\<exists>d. delivery_of (result_id ''r1'') (sys_db demo_s8) = Some d \<and> dl_acknowledged_at d = None)"
proof -
  obtain r where r: "request_of ''r1'' (sys_db demo_s8) = Some r" "rq_status r = unknown" using demo_row8 by auto
  show ?thesis using result_is_always_deliverable [OF demo_reach8 r(1)] r demo_reach8 by auto
qed

text \<open>
  C6: Every step of the system keeps the database consistent and moves each request along the edges
  of the lifecycle: identity and creation time never change, a status follows \<open>lifecycle_edge\<close>, only the
  step into \<open>dispatching\<close> counts an attempt, new requests start unconfirmed with no attempt, and only
  finished requests disappear.
\<close>

theorem every_step_follows_the_lifecycle:
  assumes "sys_reachable cfg cores lib wl h url_parse s" and "sys_step cfg cores lib wl h url_parse s s'"
  shows "requests_refine (sys_db s) (sys_db s') \<and> repo_inv (sys_db s')"
  using sys_step_lawful [OF assms(2) reachable_inv [OF assms(1)]] reachable_repo [OF assms(1)] by (simp add: lawful_def)

theorem every_step_follows_the_lifecycle_witness:
  "demo_reachable demo_s0 \<and> requests_refine (sys_db demo_s0) (sys_db (demo_s0\<lparr>sys_db := demo_db1\<rparr>))"
proof -
  have "demo_step demo_s0 (demo_s0\<lparr>sys_db := demo_db1\<rparr>)"
    using sys_stepI [OF sys_event_step.request [of demo_config "\<lambda>_. demo_core" demo_crypto demo_wire demo_hash demo_url demo_s0 0 demo_io "''req''"]]
    by (simp add: demo_db1_def demo_s0_def)
  from every_step_follows_the_lifecycle [OF demo_reach0 this] show ?thesis using demo_reach0 by simp
qed

subsection \<open>Accepting requests\<close>

text \<open>
  Sending a stored request again, with any creation time, is accepted without storing it a second time: the requests are unchanged, and the acceptance and result deliveries of that request are open
  again.
\<close>

theorem accepting_again_is_idempotent:
  assumes "request_of (hq_RequestID q) db = Some r" and "rq_request r = marshal_http_request q"
    and "rq_client_id r = hq_ClientID q" and "rq_proxy_id r = hq_ProxyID q"
    and "wf_http_request q" and "q'\<lparr>hq_CreatedAt := 0\<rparr> = q\<lparr>hq_CreatedAt := 0\<rparr>"
  shows "fst (AcceptHTTPRequest q' acc subject now db) = Inr ()
    \<and> db_requests (snd (AcceptHTTPRequest q' acc subject now db)) = db_requests db
    \<and> (\<forall>did d. delivery_of did db = Some d \<longrightarrow> dl_request_id d = Some (hq_RequestID q) \<longrightarrow>
        dl_kind d = acceptance_kind \<or> dl_kind d = result_kind \<longrightarrow>
        delivery_of did (snd (AcceptHTTPRequest q' acc subject now db)) = Some (reopen_delivery now d))"
proof -
  have same: "hq_RequestID q' = hq_RequestID q" "hq_ClientID q' = hq_ClientID q" "hq_ProxyID q' = hq_ProxyID q"
    using arg_cong [OF assms(6), of hq_RequestID] arg_cong [OF assms(6), of hq_ClientID] arg_cong [OF assms(6), of hq_ProxyID]
    by simp_all
  have "sameHTTPRequest (rq_request r) q'"
    unfolding assms(2) by (rule sameHTTPRequest_stored [OF assms(5)]) (rule assms(6) [symmetric])
  then show ?thesis using assms(1,3,4) same
    by (auto simp: AcceptHTTPRequest_def Let_def delivery_of_insert row_by_update split: option.split)
qed

end
