(* ===== verification/Repository_Properties.thy ===== *)
theory Repository_Properties
  imports Repository_Safety
begin

text \<open>
  What the repository's operations on outgoing requests promise their callers, one operation at a time.
\<close>

subsection \<open>Recognising a repeated request\<close>

lemma norm_header_eq: "json_norm (enc_header a) = json_norm (enc_header b) \<Longrightarrow> canon_header a = canon_header b"
proof -
  assume "json_norm (enc_header a) = json_norm (enc_header b)"
  then have eq: "jsonEqual (marshal_struct header_fields a) (marshal_struct header_fields b)"
    by (simp add: jsonEqual_def enc_header_def)
  have "str_field ''name'' False hf_Name hf_Name_update \<in> set header_fields"
    and "str_field ''value'' False hf_Value hf_Value_update \<in> set header_fields" by (simp_all add: header_fields_def)
  from jlookup_marshal [OF distinct_names(1) this(1)] jlookup_marshal [OF distinct_names(1) this(2)]
  show ?thesis using jsonEqual_lookup [OF eq, of "''name''"] jsonEqual_lookup [OF eq, of "''value''"]
    by (simp add: str_field_def canon_header_def)
qed

lemma norm_headers_eq:
  "map (json_norm \<circ> enc_header) as = map (json_norm \<circ> enc_header) bs \<Longrightarrow> map canon_header as = map canon_header bs"
proof (induction as arbitrary: bs)
  case (Cons a as)
  then obtain b bs' where bs: "bs = b # bs'" by (cases bs) simp_all
  from Cons.prems have eq: "json_norm (enc_header a) = json_norm (enc_header b) \<and> map (json_norm \<circ> enc_header) as = map (json_norm \<circ> enc_header) bs'"
    unfolding bs list.map list.inject comp_apply .
  show ?case unfolding bs list.map list.inject
    by (rule conjI [OF norm_header_eq [OF conjunct1 [OF eq]] Cons.IH [OF conjunct2 [OF eq]]])
qed simp

text \<open>One field of two requests whose documents compare equal.\<close>

lemma request_field_eq:
  assumes "jsonEqual (marshal_http_request q) (marshal_http_request q')" and "f \<in> set http_request_fields"
  shows "map_option json_norm (if jf_omit f q then None else Some (jf_enc f q))
    = map_option json_norm (if jf_omit f q' then None else Some (jf_enc f q'))"
  using jsonEqual_lookup [OF assms(1), of "jf_name f"]
  by (simp only: marshal_http_request_def jlookup_marshal [OF distinct_names(3) assms(2)])

lemma equal_requests:
  assumes eq: "jsonEqual (marshal_http_request q) (marshal_http_request q')"
  shows "coerce_utf8 (hq_Method q) = coerce_utf8 (hq_Method q') \<and> coerce_utf8 (hq_URL q) = coerce_utf8 (hq_URL q')
    \<and> hq_Body q = hq_Body q' \<and> map canon_header (hq_Headers q) = map canon_header (hq_Headers q')"
proof -
  have "str_field ''method'' False hq_Method hq_Method_update \<in> set http_request_fields"
    "str_field ''url'' False hq_URL hq_URL_update \<in> set http_request_fields"
    "bytes_field ''body'' hq_Body hq_Body_update \<in> set http_request_fields"
    "list_field ''headers'' enc_header dec_header hq_Headers hq_Headers_update \<in> set http_request_fields"
    by (simp_all add: http_request_fields_def)
  note f = this [THEN request_field_eq [OF eq]]
  have "Std_EncodeToString (hq_Body q) = Std_EncodeToString (hq_Body q') \<or> hq_Body q = hq_Body q'"
    using f(3) by (auto simp: bytes_field_def split: if_splits)
  then have "hq_Body q = hq_Body q'" by (metis Std_roundtrip option.inject)
  moreover have "map canon_header (hq_Headers q) = map canon_header (hq_Headers q')"
    using f(4) by (intro norm_headers_eq) (auto simp: list_field_def split: if_splits)
  ultimately show ?thesis using f(1,2) by (simp add: str_field_def)
qed

lemma sameHTTPRequest_fields:
  assumes "sameHTTPRequest (marshal_http_request q) q'" and "wf_http_request q"
  shows "coerce_utf8 (hq_Method q) = coerce_utf8 (hq_Method q') \<and> coerce_utf8 (hq_URL q) = coerce_utf8 (hq_URL q')
    \<and> hq_Body q = hq_Body q' \<and> map canon_header (hq_Headers q) = map canon_header (hq_Headers q')"
proof -
  have "jsonEqual (marshal_http_request ((canon_http_request q)\<lparr>hq_CreatedAt := 0\<rparr>)) (marshal_http_request (q'\<lparr>hq_CreatedAt := 0\<rparr>))"
    using assms by (simp add: sameHTTPRequest_def http_request_decode)
  from equal_requests [OF this] show ?thesis by (simp add: canon_http_request_def)
qed

text \<open>A request whose text is valid UTF-8, as the library that sends it writes it.\<close>

definition valid_text :: "http_request \<Rightarrow> bool" where
  "valid_text q \<longleftrightarrow> canon_http_request q = q"

text \<open>
  A request identifier is bound to its request: once stored, the same identifier with another
  method, URL, body or headers, or from another client, is refused with a conflict and changes nothing.
\<close>

lemma conflicting_request_is_refused:
  assumes "request_of (hq_RequestID q') db = Some r" and "rq_request r = marshal_http_request q" and "rq_client_id r = hq_ClientID q"
    and "wf_http_request q" and "valid_text q" and "valid_text q'"
    and "hq_ClientID q' \<noteq> hq_ClientID q \<or> hq_Method q' \<noteq> hq_Method q \<or> hq_URL q' \<noteq> hq_URL q \<or> hq_Body q' \<noteq> hq_Body q
      \<or> hq_Headers q' \<noteq> hq_Headers q"
  shows "AcceptHTTPRequest q' acc subject now db = (Inl ErrRequestConflict, db)"
proof -
  have canon: "coerce_utf8 (hq_Method x) = hq_Method x" "coerce_utf8 (hq_URL x) = hq_URL x" "map canon_header (hq_Headers x) = hq_Headers x"
    if "valid_text x" for x using that [unfolded valid_text_def canon_http_request_eq_iff] by (simp_all add: map_idI)
  have "hq_Method q' = hq_Method q \<and> hq_URL q' = hq_URL q \<and> hq_Body q' = hq_Body q \<and> hq_Headers q' = hq_Headers q"
    if "sameHTTPRequest (rq_request r) q'"
    using sameHTTPRequest_fields [OF that [unfolded assms(2)] assms(4)] canon [OF assms(5)] canon [OF assms(6)] by simp
  then show ?thesis using assms by (auto simp: AcceptHTTPRequest_def Let_def)
qed

definition sample_request :: http_request where
  "sample_request = zero_http_request\<lparr>hq_RequestID := ''r1'', hq_ClientID := ''shop'', hq_ProxyID := ''p1'', hq_Method := ''POST'',
     hq_URL := ''http://bank/pay'', hq_Body := ''1''\<rparr>"

definition sample_acceptance :: acceptance where
  "sample_acceptance = zero_acceptance\<lparr>ac_RequestID := ''r1'', ac_DeliveryID := ''accept_r1'', ac_Accepted := True\<rparr>"

definition sample_db :: proxy_db where
  "sample_db = snd (AcceptHTTPRequest sample_request sample_acceptance ''s'' 7 empty_db)"

lemma sample_row: "request_of ''r1'' sample_db = Some (new_request sample_request 7)"
  by (simp add: sample_db_def AcceptHTTPRequest_def empty_db_def row_by_insert sample_request_def new_request_def zero_http_request_def)

lemma sample_wf: "wf_http_request sample_request" "canon_http_request sample_request = sample_request"
  by code_simp+

lemma sample_inv: "repo_inv sample_db"
proof -
  have "ac_DeliveryID sample_acceptance = accept_id (hq_RequestID sample_request)" by code_simp
  then show ?thesis unfolding sample_db_def
    by (intro AcceptHTTPRequest_new repo_inv_empty sample_wf) (simp_all add: empty_db_def)
qed

subsection \<open>The worker's queue\<close>

text \<open>
  C13: If some unlocked request is due, reserving succeeds (no stored request blocks the queue), takes
  the one created first, hands out the request exactly as it was stored, and marks its row with the new
  token and lease.
\<close>

theorem reserve_takes_the_oldest:
  assumes inv: "repo_inv db" and due: "request_of rid db = Some r" "reservable now r" "rid \<notin> set locked"
  shows "\<exists>op db' x. ReserveRequest lease locked entropy now db = (Inr op, db') \<and> request_of (rq_request_id x) db = Some x
    \<and> reservable now x \<and> rq_created_at x \<le> rq_created_at r \<and> rq_request x = marshal_http_request (op_Request op)
    \<and> op_Attempts op = rq_attempts x
    \<and> request_of (rq_request_id x) db' = Some (x\<lparr>rq_status := reserved, rq_dispatch_token := Some (op_DispatchToken op),
         rq_lease_until := Some (now + pgInterval lease), rq_updated_at := now\<rparr>)"
proof -
  let ?sel = "select_where (\<lambda>r. reservable now r \<and> \<not> contains locked (rq_request_id r)) (db_requests db)"
  have uniq: "unique_by rq_request_id (db_requests db)" by (rule repo_invD(1) [OF inv])
  have r: "r \<in> set ?sel" using due by (auto simp: sql_simps dest: row_by_Some_mem)
  then obtain x where x: "order_limit rq_created_at 1 ?sel = [x]"
    using order_limit_1_cases [of rq_created_at ?sel] by auto
  then have "x \<in> set ?sel" "rq_created_at x \<le> rq_created_at r" using order_limit_1_least [of rq_created_at ?sel x] r by auto
  then have sel: "x \<in> set (db_requests db)" "reservable now x" "rq_created_at x \<le> rq_created_at r" by (auto simp: sql_simps)
  have row: "request_of (rq_request_id x) db = Some x" by (rule row_by_of_mem [OF uniq sel(1)])
  have "stored_ok x" by (rule repo_invD(3) [OF inv row])
  then obtain q where q: "rq_request x = marshal_http_request q" "rq_request_id x = hq_RequestID q"
    "unmarshal_struct http_request_fields (rq_request x) (zero_http_request\<lparr>hq_RequestID := rq_request_id x\<rparr>) = Some q"
    by (rule stored_request)
  let ?op = "\<lparr>op_Request = q, op_Attempts = rq_attempts x, op_DispatchToken = randomID entropy\<rparr>"
  let ?db' = "db\<lparr>db_requests := update_where (\<lambda>y. rq_request_id y = hq_RequestID q)
        (\<lambda>y. y\<lparr>rq_status := reserved, rq_dispatch_token := Some (randomID entropy), rq_lease_until := Some (now + pgInterval lease), rq_updated_at := now\<rparr>)
        (db_requests db)\<rparr>"
  have "ReserveRequest lease locked entropy now db = (Inr ?op, ?db')"
    unfolding ReserveRequest_def x by (simp add: q(3) Let_def)
  moreover have "request_of (rq_request_id x) ?db' = Some (x\<lparr>rq_status := reserved, rq_dispatch_token := Some (randomID entropy),
         rq_lease_until := Some (now + pgInterval lease), rq_updated_at := now\<rparr>)"
    using row q(2) by (simp add: row_by_update)
  ultimately show ?thesis using row sel q(1) by (intro exI [of _ ?op] exI [of _ ?db'] exI [of _ x]) simp
qed

text \<open>A stored request whose acceptance is confirmed.\<close>

definition sample_ready :: proxy_db where
  "sample_ready = snd (ConfirmAcceptance \<lparr>da_RequestID = ''r1'', da_DeliveryID = ''accept_r1'', da_ClientID = ''shop''\<rparr> 8 sample_db)"

lemma sample_ready_inv: "repo_inv sample_ready"
  using ConfirmAcceptance_lawful [of sample_db "\<lparr>da_RequestID = ''r1'', da_DeliveryID = ''accept_r1'', da_ClientID = ''shop''\<rparr>" 8] sample_inv
  by (simp add: lawful_def sample_ready_def)

lemma sample_ready_row: "\<exists>r. request_of ''r1'' sample_ready = Some r \<and> reservable 9 r"
proof -
  have "(case request_of ''r1'' sample_ready of None \<Rightarrow> False | Some r \<Rightarrow> reservable 9 r)" by code_simp
  then show ?thesis by (auto split: option.splits)
qed

theorem reserve_takes_the_oldest_witness:
  "\<exists>op db'. ReserveRequest 1000 [] ''e'' 9 sample_ready = (Inr op, db')"
  using sample_ready_row reserve_takes_the_oldest [OF sample_ready_inv, of "''r1''" _ 9 "[]" 1000 "''e''"] by fastforce

subsection \<open>Durable deliveries\<close>

lemma ClaimDelivery_claimed:
  assumes "ClaimDelivery lease locked now db = (Inr d, db')"
  obtains x where "x \<in> set (db_deliveries db)" "claimable now x" "de_ID d = dl_delivery_id x" "de_ID d \<notin> set locked"
    "de_Payload d = dl_payload x" "de_Subject d = dl_subject x" "de_ClientID d = dl_client_id x"
    "\<And>y. y \<in> set (db_deliveries db) \<Longrightarrow> claimable now y \<Longrightarrow> dl_delivery_id y \<notin> set locked \<Longrightarrow> dl_created_at x \<le> dl_created_at y"
    "db' = db\<lparr>db_deliveries := update_where (\<lambda>y. dl_delivery_id y = dl_delivery_id x)
                (\<lambda>y. y\<lparr>dl_lease_until := Some (now + pgInterval lease), dl_attempts := dl_attempts y + 1\<rparr>) (db_deliveries db)\<rparr>"
proof -
  let ?sel = "select_where (\<lambda>d. claimable now d \<and> \<not> contains locked (dl_delivery_id d)) (db_deliveries db)"
  obtain x where x: "order_limit dl_created_at 1 ?sel = [x]"
    using assms order_limit_1_cases [of dl_created_at ?sel] by (auto simp: ClaimDelivery_def)
  then have least: "x \<in> set ?sel \<and> (\<forall>y \<in> set ?sel. dl_created_at x \<le> dl_created_at y)"
    using order_limit_1_least [of dl_created_at ?sel x] by simp
  have "d = \<lparr>de_ID = dl_delivery_id x, de_Kind = dl_kind x, de_ClientID = dl_client_id x, de_Subject = dl_subject x,
                de_MessageType = dl_message_type x, de_Payload = dl_payload x\<rparr>"
    and "db' = db\<lparr>db_deliveries := update_where (\<lambda>y. dl_delivery_id y = dl_delivery_id x)
                (\<lambda>y. y\<lparr>dl_lease_until := Some (now + pgInterval lease), dl_attempts := dl_attempts y + 1\<rparr>) (db_deliveries db)\<rparr>"
    using assms x by (auto simp: ClaimDelivery_def)
  then show thesis using least by (intro that [of x]) (auto simp: sql_simps)
qed

text \<open>
  C14: Delivering is fair and exclusive: the claimed delivery is the oldest one due, and while its lease
  runs no other loop claims the same delivery.
\<close>

theorem claim_is_exclusive_and_fair:
  assumes "ClaimDelivery lease locked now db = (Inr d, db')"
  shows "(\<forall>y \<in> set (db_deliveries db). claimable now y \<longrightarrow> dl_delivery_id y \<notin> set locked \<longrightarrow>
        (\<exists>x \<in> set (db_deliveries db). dl_delivery_id x = de_ID d \<and> dl_created_at x \<le> dl_created_at y))
    \<and> (\<forall>t lease' locked' d' db''. t \<le> now + pgInterval lease \<longrightarrow> ClaimDelivery lease' locked' t db' = (Inr d', db'') \<longrightarrow> de_ID d' \<noteq> de_ID d)"
proof -
  obtain x where x: "x \<in> set (db_deliveries db)" "de_ID d = dl_delivery_id x"
    "\<And>y. y \<in> set (db_deliveries db) \<Longrightarrow> claimable now y \<Longrightarrow> dl_delivery_id y \<notin> set locked \<Longrightarrow> dl_created_at x \<le> dl_created_at y"
    "db' = db\<lparr>db_deliveries := update_where (\<lambda>y. dl_delivery_id y = dl_delivery_id x)
                (\<lambda>y. y\<lparr>dl_lease_until := Some (now + pgInterval lease), dl_attempts := dl_attempts y + 1\<rparr>) (db_deliveries db)\<rparr>"
    by (rule ClaimDelivery_claimed [OF assms]) (rule that; assumption)
  have "de_ID d' \<noteq> de_ID d" if t: "t \<le> now + pgInterval lease" and c: "ClaimDelivery lease' locked' t db' = (Inr d', db'')" for t lease' locked' d' db''
  proof
    assume same: "de_ID d' = de_ID d"
    obtain y where y: "y \<in> set (db_deliveries db')" "claimable t y" "de_ID d' = dl_delivery_id y"
      by (rule ClaimDelivery_claimed [OF c]) (rule that; assumption)
    from y(1) have "dl_lease_until y = Some (now + pgInterval lease)"
      unfolding x(4) using same y(3) x(2) by (auto simp: set_update_where)
    then show False using y(2) t by (simp add: claimable_def)
  qed
  then show ?thesis using x(1,2,3) by auto
qed

theorem claim_is_exclusive_and_fair_witness:
  "(case ClaimDelivery 10000000000 [] 8 sample_db of (Inr d, db') \<Rightarrow> de_ID d = ''accept_r1'' \<and>
      (\<forall>d' db''. ClaimDelivery 10000000000 [] 9 db' = (Inr d', db'') \<longrightarrow> de_ID d' \<noteq> ''accept_r1'') | _ \<Rightarrow> False)"
proof -
  obtain d db' where c: "ClaimDelivery 10000000000 [] 8 sample_db = (Inr d, db')" "de_ID d = ''accept_r1''"
  proof -
    have "(case ClaimDelivery 10000000000 [] 8 sample_db of (Inr d, db') \<Rightarrow> de_ID d = ''accept_r1'' | _ \<Rightarrow> False)" by code_simp
    then show thesis using that by (auto split: prod.splits sum.splits)
  qed
  have "de_ID d' \<noteq> de_ID d" if "ClaimDelivery 10000000000 [] 9 db' = (Inr d', db'')" for d' db''
    by (rule claim_is_exclusive_and_fair [OF c(1), THEN conjunct2, rule_format, OF _ that]) (simp add: pgInterval_def)
  then show ?thesis using c by auto
qed

subsection \<open>Confirmations\<close>

definition names_delivery :: "delivery_kind \<Rightarrow> delivery_ack \<Rightarrow> proxy_db \<Rightarrow> bool" where
  "names_delivery kind ack db \<longleftrightarrow> (\<exists>d. delivery_of (da_DeliveryID ack) db = Some d \<and> dl_kind d = kind
     \<and> dl_client_id d = da_ClientID ack \<and> dl_request_id d = Some (da_RequestID ack))"

text \<open>
  A confirmation takes effect exactly when the delivery exists, is of the confirmed kind and belongs
  to the client and request that the confirmation names; otherwise nothing changes.
\<close>

lemma confirmations_match_their_delivery:
  "is_ok (fst (ConfirmAcceptance ack now db)) = names_delivery acceptance_kind ack db
   \<and> is_ok (fst (ConfirmResult ack now db)) = names_delivery result_kind ack db
   \<and> (is_ok (fst (ConfirmAcceptance ack now db)) \<or> snd (ConfirmAcceptance ack now db) = db)
   \<and> (is_ok (fst (ConfirmResult ack now db)) \<or> snd (ConfirmResult ack now db) = db)"
  unfolding ConfirmAcceptance_def ConfirmResult_def names_delivery_def
  by (cases "delivery_of (da_DeliveryID ack) db") (auto split: option.splits)

subsection \<open>Recovery and retention\<close>

text \<open>
  C15: Recovery gives up on a dispatch whose lease has expired: the request becomes \<open>unknown\<close> and its
  result delivery is open, while a reservation that has expired returns to the queue and no other
  request changes.
\<close>

theorem recovery_settles_expired_requests:
  assumes inv: "repo_inv db" and r: "request_of rid db = Some r"
  shows "(expired dispatching now r \<longrightarrow> (\<exists>r' d. request_of rid (snd (RecoverExpiredDispatches clock now db)) = Some r' \<and> rq_status r' = unknown
        \<and> rq_dispatch_token r' = None
        \<and> delivery_of (result_id rid) (snd (RecoverExpiredDispatches clock now db)) = Some d \<and> dl_acknowledged_at d = None))
    \<and> (expired reserved now r \<longrightarrow> request_of rid (snd (RecoverExpiredDispatches clock now db)) =
         Some (r\<lparr>rq_status := ready, rq_dispatch_token := None, rq_lease_until := None, rq_updated_at := now\<rparr>))
    \<and> (\<not> expired dispatching now r \<longrightarrow> \<not> expired reserved now r \<longrightarrow>
         request_of rid (snd (RecoverExpiredDispatches clock now db)) = Some r)"
proof -
  let ?db' = "snd (RecoverExpiredDispatches clock now db)"
  have inv': "repo_inv ?db'" and row: "request_of rid ?db' = Some (if expired reserved now r then released now r
      else if expired dispatching now r then recovered clock now r else r)"
    using RecoverExpiredDispatches_effect [OF inv, of clock now rid] r by simp_all
  have "\<exists>d. delivery_of (result_id rid) ?db' = Some d \<and> dl_acknowledged_at d = None" if "expired dispatching now r"
  proof -
    have row': "request_of rid ?db' = Some (recovered clock now r)" using row that by (simp add: expired_def)
    moreover have "rq_request_id (recovered clock now r) = rid" using row' by auto
    ultimately show ?thesis using repo_invD(4) [OF inv' row'] unfolding handshake_open_def by auto
  qed
  then show ?thesis using row by (auto simp: released_def recovered_def expired_def)
qed

definition sample_dispatching :: proxy_db where
  "sample_dispatching = snd (BeginDispatch ''r1'' (randomID ''e'') 1000 10 (snd (ReserveRequest 1000 [] ''e'' 9 sample_ready)))"

lemma sample_dispatching_inv: "repo_inv sample_dispatching"
  using ReserveRequest_lawful [of sample_ready 1000 "[]" "''e''" 9] sample_ready_inv
    BeginDispatch_lawful [of "snd (ReserveRequest 1000 [] ''e'' 9 sample_ready)" "''r1''" "randomID ''e''" 1000 10]
  by (simp add: lawful_def sample_dispatching_def)

theorem recovery_settles_expired_requests_witness:
  "\<exists>r'. request_of ''r1'' (snd (RecoverExpiredDispatches (\<lambda>_. 5) 99 sample_dispatching)) = Some r' \<and> rq_status r' = unknown"
proof -
  have "(case request_of ''r1'' sample_dispatching of None \<Rightarrow> False | Some r \<Rightarrow> expired dispatching 99 r)" by code_simp
  then obtain r where "request_of ''r1'' sample_dispatching = Some r" "expired dispatching 99 r" by (auto split: option.splits)
  then show ?thesis using recovery_settles_expired_requests [OF sample_dispatching_inv, of "''r1''" r 99 "\<lambda>_. 5"] by blast
qed

lemma deleted_by_keys:
  assumes "unique_by key rows"
  shows "length rows \<le> length (delete_where (\<lambda>r. contains ks (key r)) rows) + length ks"
proof -
  let ?hit = "filter (\<lambda>r. contains ks (key r)) rows"
  have "distinct (map key ?hit)" using assms by (simp add: unique_by_def distinct_map_filter)
  then have "length ?hit = card (set (map key ?hit))" using distinct_card by fastforce
  also have "\<dots> \<le> card (set ks)" by (rule card_mono) auto
  also have "\<dots> \<le> length ks" by (rule card_length)
  finally show ?thesis using sum_length_filter_compl [of "\<lambda>r. contains ks (key r)" rows] by (simp add: delete_where_def)
qed

text \<open>
  Retention removes only requests that are finished and older than the limit; every other request
  is unchanged, and at most \<open>batch\<close> requests go in one run.
\<close>

lemma cleanup_removes_only_finished_requests:
  assumes inv: "repo_inv db" and r: "request_of rid db = Some r"
  shows "(request_of rid (snd (Cleanup before batch now db)) = Some r
      \<or> request_of rid (snd (Cleanup before batch now db)) = None \<and> finished before r)
    \<and> length (db_requests db) \<le> length (db_requests (snd (Cleanup before batch now db))) + batch"
proof -
  let ?rows = "order_limit rq_updated_at batch (select_where (finished before) (db_requests db))"
  let ?p = "\<lambda>r. contains (map rq_request_id ?rows) (rq_request_id r)"
  have uniq: "unique_by rq_request_id (db_requests db)" by (rule repo_invD(1) [OF inv])
  have eq: "request_of rid (snd (Cleanup before batch now db)) = (if ?p r then None else Some r)"
    using r row_by_delete [OF uniq, of rid ?p]
    by (simp add: Cleanup_def cleanup_routes_def cleanup_commands_def cleanup_events_def cleanup_limits_def cleanup_requests_def Let_def)
  have "finished before r" if "?p r"
  proof -
    from that obtain x where x: "x \<in> set ?rows" "rq_request_id x = rq_request_id r" by auto
    have "x \<in> set (db_requests db)" "finished before x" using x(1) order_limit_subset by (fastforce simp: sql_simps)+
    moreover have "x = r" using row_by_of_mem [OF uniq calculation(1)] x(2) r by (metis option.inject row_by_key)
    ultimately show ?thesis by simp
  qed
  moreover have "length (db_requests db) \<le> length (db_requests (snd (Cleanup before batch now db))) + batch"
    using deleted_by_keys [OF uniq, of "map rq_request_id ?rows"] length_order_limit [of rq_updated_at batch "select_where (finished before) (db_requests db)"]
    by (simp add: Cleanup_def cleanup_routes_def cleanup_commands_def cleanup_events_def cleanup_limits_def cleanup_requests_def Let_def)
  ultimately show ?thesis using eq by simp
qed

end
