(* ===== verification/Edge_Properties.thy ===== *)
theory Edge_Properties
  imports Outgoing_Safety
begin

text \<open>
  The edges of the proxy: signed messages and their senders, the configuration, the retry policy and
  the HTTP exchange.
\<close>

subsection \<open>Signed messages\<close>

lemma decimal_inj: "decimal m = decimal n \<Longrightarrow> m = n"
  by (metis option.inject parse_digits_decimal)

lemma FormatInt_inj: "FormatInt m = FormatInt n \<Longrightarrow> m = n"
proof -
  assume eq: "FormatInt m = FormatInt n"
  have head: "hd (decimal k) \<noteq> CHR ''-''" for k
    using decimal_head [of k "hd (decimal k)" "tl (decimal k)"] decimal_nonempty [of k] by simp
  show "m = n"
  proof (cases "m < 0"; cases "n < 0")
    assume "m < 0" "n < 0"
    then have "decimal (nat (- m)) = decimal (nat (- n))" using eq by (simp add: FormatInt_def)
    from decimal_inj [OF this] \<open>m < 0\<close> \<open>n < 0\<close> show ?thesis by simp
  next
    assume "\<not> m < 0" "\<not> n < 0"
    then have "decimal (nat m) = decimal (nat n)" using eq by (simp add: FormatInt_def)
    from decimal_inj [OF this] \<open>\<not> m < 0\<close> \<open>\<not> n < 0\<close> show ?thesis by simp
  next
    assume "m < 0" "\<not> n < 0"
    then have "decimal (nat n) = CHR ''-'' # decimal (nat (- m))" using eq by (simp add: FormatInt_def)
    then show ?thesis using head [of "nat n"] by simp
  next
    assume "\<not> m < 0" "n < 0"
    then have "decimal (nat m) = CHR ''-'' # decimal (nat (- n))" using eq by (simp add: FormatInt_def)
    then show ?thesis using head [of "nat m"] by simp
  qed
qed

lemma FormatInt_one_line: "set newline \<inter> set (FormatInt n) = {}"
proof -
  have "c \<noteq> byte_of 10" if mem: "c \<in> set (decimal k)" for c k
  proof
    assume "c = byte_of 10"
    moreover obtain d where "d < 10" "c = byte_of (48 + d)" using decimal_digits [OF mem] by blast
    ultimately have "(of_char (byte_of 10) :: nat) = of_char (byte_of (48 + d))" by simp
    then show False using \<open>d < 10\<close> by simp
  qed
  moreover have "CHR ''-'' \<noteq> byte_of 10" by code_simp
  ultimately show ?thesis by (auto simp: newline_def FormatInt_def)
qed

text \<open>An instance of the documented behaviour of the libraries: the signature is the message itself.\<close>

definition plain_crypto :: crypto_lib where
  "plain_crypto = \<lparr>cl_Sign = (\<lambda>k m. m), cl_Verify = (\<lambda>k m s. m = s), cl_Public = (\<lambda>k. replicate 32 (CHR ''k'')),
     cl_RFC3339Nano = FormatInt\<rparr>"

lemma plain_crypto_ok: "signs plain_crypto key" "stamps plain_crypto"
  by (auto simp: signs_def stamps_def plain_crypto_def PublicKeySize_def inj_def FormatInt_one_line intro: FormatInt_inj)

lemma NewEnvelope_verifies:
  assumes "signs lib signer" and "signer \<noteq> []" and "entropy \<noteq> []" and "kind \<noteq> []" and "now \<noteq> 0"
    and "cl_Public lib signer \<in> set keys" and "maxAge < 2 ^ 63"
    and "now' - now \<le> maxAge" and "- 60000000000 \<le> now' - now"
  shows "VerifyKey lib now' (NewEnvelope lib entropy now kind payload signer) keys maxAge = Inr (PublicKeyID (cl_Public lib signer))"
proof -
  let ?e = "NewEnvelope lib entropy now kind payload signer"
  have e: "en_ID ?e = RawURL_EncodeToString (take 16 entropy)" "en_Type ?e = kind" "en_Timestamp ?e = now"
    "en_KeyID ?e = RawURL_EncodeToString (take 8 (cl_Public lib signer))"
    "en_Signature ?e = RawStd_EncodeToString (cl_Sign lib signer (signingBytes lib ?e))"
    using assms(2) by (simp_all add: NewEnvelope_def Let_def signingBytes_def)
  have "Since now' now = now' - now" using assms(7-9) by (intro Since_exact) simp
  moreover have "verify_keys lib ?e (cl_Sign lib signer (signingBytes lib ?e)) keys = Inr (en_KeyID ?e)"
    by (rule verify_keys_complete [OF assms(6) e(4) [symmetric]]) (use assms(1) in \<open>unfold signs_def, blast\<close>)
  moreover have "length (cl_Public lib signer) = 32" using assms(1) by (simp add: signs_def PublicKeySize_def)
  ultimately show ?thesis using assms e by (simp add: VerifyKey_def RawURL_nonempty PublicKeyID_def)
qed

text \<open>
  An envelope made with a private key is accepted by every receiver that has the public key, as
  long as the clocks differ by less than the allowed age (and one minute the other way), and is
  attributed to that key.
\<close>

lemma signed_envelope_is_accepted:
  assumes "signs lib signer" and "signer \<noteq> []" and "entropy \<noteq> []" and "kind \<noteq> []" and "now \<noteq> 0"
    and "cl_Public lib signer \<in> set keys" and "maxAge < 2 ^ 63"
    and "now' - now \<le> maxAge" and "- 60000000000 \<le> now' - now"
  shows "VerifyKey lib now' (NewEnvelope lib entropy now kind payload signer) keys maxAge = Inr (PublicKeyID (cl_Public lib signer))"
  using assms by (rule NewEnvelope_verifies)

text \<open>
  C16: The signed text determines the message: no other identifier, type, time or payload has the signed
  text of an envelope whose fields are single lines, so a verified signature cannot be moved to an
  altered envelope.
\<close>

theorem signature_binds_every_field:
  assumes "stamps lib" and "newlines (en_ID e) = 0" and "newlines (en_Type e) = 0" and "newlines (en_Payload e) = 0"
    and "signingBytes lib e' = signingBytes lib e"
  shows "en_ID e' = en_ID e \<and> en_Type e' = en_Type e \<and> en_Timestamp e' = en_Timestamp e \<and> en_Payload e' = en_Payload e"
  using assms by (rule signingBytes_binds)

theorem signature_binds_every_field_witness:
  "signingBytes plain_crypto \<lparr>en_ID = ''a'', en_Type = ''t'', en_Timestamp = 5, en_Payload = ''{}'', en_KeyID = [], en_Signature = ''s''\<rparr>
   \<noteq> signingBytes plain_crypto \<lparr>en_ID = ''a'', en_Type = ''t'', en_Timestamp = 6, en_Payload = ''{}'', en_KeyID = [], en_Signature = ''s''\<rparr>"
proof
  let ?e = "\<lparr>en_ID = ''a'', en_Type = ''t'', en_Timestamp = 6, en_Payload = ''{}'', en_KeyID = [], en_Signature = ''s''\<rparr>"
  let ?e' = "\<lparr>en_ID = ''a'', en_Type = ''t'', en_Timestamp = 5, en_Payload = ''{}'', en_KeyID = [], en_Signature = ''s''\<rparr>"
  assume "signingBytes plain_crypto ?e' = signingBytes plain_crypto ?e"
  moreover have "newlines (en_ID ?e) = 0" "newlines (en_Type ?e) = 0" "newlines (en_Payload ?e) = 0" by code_simp+
  ultimately show False using signature_binds_every_field [OF plain_crypto_ok(2), of ?e ?e'] by simp
qed

text \<open>
  The key map of the configuration is unambiguous: when it is accepted, every client's key is found
  under its identifier, every identifier belongs to the one client that has such a key, and the clients
  are those configured.
\<close>

lemma keys_identify_clients:
  assumes "ParseClientPublicKeys entries = Inr (byClient, clientByKeyID)"
    and "distinct (map fst entries)" and "[] \<notin> set (map fst entries)"
  shows "(\<forall>(c, k) \<in> set byClient. length k = PublicKeySize \<and> map_of clientByKeyID (PublicKeyID k) = Some c)
    \<and> (\<forall>(i, c) \<in> set clientByKeyID. \<exists>k. (c, k) \<in> set byClient \<and> PublicKeyID k = i)
    \<and> distinct (map fst byClient) \<and> set (map fst byClient) = set (map fst entries)"
  using assms by (rule ParseClientPublicKeys_inverse)

end
