(* ===== verification/Host_Limits.thy ===== *)
theory Host_Limits
  imports Repo_Limits Gateway_Config
begin

text \<open>
  What the host limits guarantee over time: any sequence of acquisitions and releases of permits, by
  any number of workers on one database, with the configured limits of the hosts. \<open>run_limits\<close> records
  the granted permits, the latest first.
\<close>

datatype limit_op = Acquire string bytes pg_time | Release string

definition limit_step ::
  "config \<Rightarrow> go_duration \<Rightarrow> limit_op \<Rightarrow> (string \<times> pg_time) list \<times> proxy_db \<Rightarrow> (string \<times> pg_time) list \<times> proxy_db" where
  "limit_step cfg lease x st =
     (case x of
        Acquire host entropy now \<Rightarrow>
          let limit = LimitForHost cfg host
          in (case AcquireHostPermit host (hl_RPS limit) (hl_Concurrency limit) (hl_MinInterval limit) lease entropy now (snd st) of
                (Inl _, db) \<Rightarrow> (fst st, db)
              | (Inr _, db) \<Rightarrow> ((host, now) # fst st, db))
      | Release token \<Rightarrow> (fst st, snd (ReleaseHostPermit token (snd st))))"

definition run_limits :: "config \<Rightarrow> go_duration \<Rightarrow> limit_op list \<Rightarrow> (string \<times> pg_time) list \<times> proxy_db" where
  "run_limits cfg lease ops = fold (limit_step cfg lease) ops ([], empty_db)"

subsection \<open>One acquisition\<close>

lemma AcquireHostPermit_refused: "AcquireHostPermit host rps conc interval lease entropy now db = (Inl e, db') \<Longrightarrow> db' = db"
  unfolding AcquireHostPermit_def Let_def by (auto split: if_splits option.splits)

lemma AcquireHostPermit_granted:
  assumes "AcquireHostPermit host rps conc interval lease entropy now db = (Inr token, db')"
  obtains permits last_dispatch windows where
    "db' = db\<lparr>db_permits := insert_row \<lparr>hp_token = token, hp_host = host, hp_lease_until = now + pgInterval lease\<rparr> permits,
            db_last_dispatch := last_dispatch, db_windows := windows\<rparr>"
    "token = randomID entropy" "permits = delete_where (\<lambda>p. hp_lease_until p < now) (db_permits db)"
    "int (rows_affected (\<lambda>p. hp_host p = host) permits) < conc"
    "(if 0 < interval then touch_last_dispatch host interval now (db_last_dispatch db) else Some (db_last_dispatch db)) = Some last_dispatch"
    "use_window host rps now (db_windows db) = Some windows"
proof -
  let ?ld = "if 0 < interval then touch_last_dispatch host interval now (db_last_dispatch db) else Some (db_last_dispatch db)"
  let ?permits = "delete_where (\<lambda>p. hp_lease_until p < now) (db_permits db)"
  have conc: "int (rows_affected (\<lambda>p. hp_host p = host) ?permits) < conc"
    by (rule ccontr) (use assms in \<open>simp add: AcquireHostPermit_def Let_def\<close>)
  obtain ld where ld: "?ld = Some ld"
    by (cases ?ld) (use assms conc in \<open>simp_all add: AcquireHostPermit_def Let_def\<close>)
  obtain ws where ws: "use_window host rps now (db_windows db) = Some ws"
    by (cases "use_window host rps now (db_windows db)") (use assms conc ld in \<open>simp_all add: AcquireHostPermit_def Let_def\<close>)
  have "\<not> row_exists (\<lambda>p. hp_token p = randomID entropy) ?permits"
    by (rule notI) (use assms conc ld ws in \<open>simp add: AcquireHostPermit_def Let_def\<close>)
  then have tok: "token = randomID entropy" and db': "db' = db\<lparr>db_permits := insert_row \<lparr>hp_token = token, hp_host = host, hp_lease_until = now + pgInterval lease\<rparr> ?permits,
            db_last_dispatch := ld, db_windows := ws\<rparr>"
    using assms conc ld ws by (auto simp: AcquireHostPermit_def Let_def)
  show thesis by (rule that [OF db' tok refl conc ld ws])
qed

lemma use_window_effect:
  assumes "use_window host rps now t = Some t'" and "1 \<le> rps"
  shows "row_by window_key (h, s) t' =
     (if (h, s) = (host, trunc_second now)
      then Some \<lparr>hw_host = host, hw_window_start = trunc_second now,
             hw_used = (case row_by window_key (host, trunc_second now) t of None \<Rightarrow> 1 | Some w \<Rightarrow> hw_used w + 1)\<rparr>
      else row_by window_key (h, s) t)"
    and "(case row_by window_key (host, trunc_second now) t of None \<Rightarrow> 1 | Some w \<Rightarrow> hw_used w + 1) \<le> rps"
proof -
  have key: "\<And>f r. window_key (r\<lparr>hw_used := f\<rparr>) = window_key r" by simp
  show "row_by window_key (h, s) t' =
     (if (h, s) = (host, trunc_second now)
      then Some \<lparr>hw_host = host, hw_window_start = trunc_second now,
             hw_used = (case row_by window_key (host, trunc_second now) t of None \<Rightarrow> 1 | Some w \<Rightarrow> hw_used w + 1)\<rparr>
      else row_by window_key (h, s) t)"
  proof (cases "row_by window_key (host, trunc_second now) t")
    case None
    then show ?thesis using assms(1)
      by (auto simp: use_window_def row_by_insert [where key = window_key])
  next
    case (Some w)
    then have w: "window_key w = (host, trunc_second now)" by (auto dest: row_by_Some_mem)
    have t': "t' = update_where (\<lambda>x. window_key x = (host, trunc_second now)) (\<lambda>x. x\<lparr>hw_used := hw_used x + 1\<rparr>) t"
      using Some assms(1) by (simp add: use_window_def split: if_splits)
    have "row_by window_key (h, s) t' = map_option (\<lambda>x. if window_key x = (host, trunc_second now) then x\<lparr>hw_used := hw_used x + 1\<rparr> else x)
        (row_by window_key (h, s) t)"
      unfolding t' by (rule row_by_update) simp
    then show ?thesis using Some w by (cases "row_by window_key (h, s) t") (auto dest: row_by_Some_mem)
  qed
  show "(case row_by window_key (host, trunc_second now) t of None \<Rightarrow> 1 | Some w \<Rightarrow> hw_used w + 1) \<le> rps"
    using assms by (auto simp: use_window_def split: option.splits if_splits)
qed

lemma touch_last_dispatch_effect:
  assumes "touch_last_dispatch host interval now t = Some t'"
  shows "row_by hd_host h t' = (if h = host then Some \<lparr>hd_host = host, hd_dispatched_at = now\<rparr> else row_by hd_host h t)"
    and "row_by hd_host host t = Some r \<Longrightarrow> hd_dispatched_at r + pgInterval interval \<le> now"
proof -
  show "row_by hd_host h t' = (if h = host then Some \<lparr>hd_host = host, hd_dispatched_at = now\<rparr> else row_by hd_host h t)"
  proof (cases "row_by hd_host host t")
    case None
    then show ?thesis using assms by (auto simp: touch_last_dispatch_def row_by_insert [where key = hd_host])
  next
    case (Some x)
    have t': "t' = update_where (\<lambda>x. hd_host x = host) (\<lambda>x. x\<lparr>hd_dispatched_at := now\<rparr>) t"
      using Some assms by (simp add: touch_last_dispatch_def split: if_splits)
    have "row_by hd_host h t' = map_option (\<lambda>x. if hd_host x = host then x\<lparr>hd_dispatched_at := now\<rparr> else x) (row_by hd_host h t)"
      unfolding t' by (rule row_by_update) simp
    then show ?thesis using Some by (cases "row_by hd_host h t") (auto dest: row_by_Some_mem)
  qed
  show "row_by hd_host host t = Some r \<Longrightarrow> hd_dispatched_at r + pgInterval interval \<le> now"
    using assms by (simp add: touch_last_dispatch_def split: if_splits)
qed

subsection \<open>The invariant of a run\<close>

definition granted_in :: "string \<Rightarrow> pg_time \<Rightarrow> (string \<times> pg_time) list \<Rightarrow> nat" where
  "granted_in host s grants = length (filter (\<lambda>(h, t). h = host \<and> trunc_second t = s) grants)"

definition windows_count :: "(string \<times> pg_time) list \<Rightarrow> proxy_db \<Rightarrow> bool" where
  "windows_count grants db \<longleftrightarrow> (\<forall>h s. int (granted_in h s grants) = (case row_by window_key (h, s) (db_windows db) of None \<Rightarrow> 0 | Some w \<Rightarrow> hw_used w))"

definition rates_ok :: "config \<Rightarrow> (string \<times> pg_time) list \<Rightarrow> bool" where
  "rates_ok cfg grants \<longleftrightarrow> (\<forall>h s. int (granted_in h s grants) \<le> hl_RPS (LimitForHost cfg h))"

text \<open>Of two grants for a host with a minimum interval, the later one comes that much later.\<close>

definition spaced :: "config \<Rightarrow> (string \<times> pg_time) list \<Rightarrow> bool" where
  "spaced cfg grants \<longleftrightarrow> sorted_wrt (\<lambda>(h, t) (h', t'). h = h' \<longrightarrow> 0 < hl_MinInterval (LimitForHost cfg h) \<longrightarrow>
     t' + pgInterval (hl_MinInterval (LimitForHost cfg h)) \<le> t) grants"

definition last_seen :: "config \<Rightarrow> (string \<times> pg_time) list \<Rightarrow> proxy_db \<Rightarrow> bool" where
  "last_seen cfg grants db \<longleftrightarrow> (\<forall>h t. (h, t) \<in> set grants \<longrightarrow> 0 < hl_MinInterval (LimitForHost cfg h) \<longrightarrow>
     (\<exists>r. row_by hd_host h (db_last_dispatch db) = Some r \<and> t \<le> hd_dispatched_at r))"

definition limits_inv :: "config \<Rightarrow> (string \<times> pg_time) list \<times> proxy_db \<Rightarrow> bool" where
  "limits_inv cfg st \<longleftrightarrow> windows_count (fst st) (snd st) \<and> rates_ok cfg (fst st) \<and> spaced cfg (fst st) \<and> last_seen cfg (fst st) (snd st)"

lemma granted_in_Cons:
  "granted_in h s ((host, now) # gs) = granted_in h s gs + (if (h, s) = (host, trunc_second now) then 1 else 0)"
  by (auto simp: granted_in_def)

lemma pgInterval_nonneg: "0 \<le> d \<Longrightarrow> 0 \<le> pgInterval d"
  by (simp add: pgInterval_def)

lemma limit_step_inv:
  assumes ok: "\<And>h. limit_ok (LimitForHost cfg h)" and inv: "limits_inv cfg st"
  shows "limits_inv cfg (limit_step cfg lease x st)"
proof (cases x)
  case (Release token)
  then show ?thesis using inv
    by (simp add: limit_step_def limits_inv_def ReleaseHostPermit_def windows_count_def last_seen_def)
next
  case (Acquire host entropy now)
  let ?l = "LimitForHost cfg host"
  obtain gs db where st: "st = (gs, db)" by (cases st)
  obtain res db' where call: "AcquireHostPermit host (hl_RPS ?l) (hl_Concurrency ?l) (hl_MinInterval ?l) lease entropy now db = (res, db')"
    by (cases "AcquireHostPermit host (hl_RPS ?l) (hl_Concurrency ?l) (hl_MinInterval ?l) lease entropy now db")
  show ?thesis
  proof (cases res)
    case (Inl e)
    then have "db' = db" using call by (intro AcquireHostPermit_refused) simp
    then show ?thesis using inv Acquire call st Inl by (simp add: limit_step_def)
  next
    case (Inr token)
    from AcquireHostPermit_granted [OF call [unfolded Inr]] obtain permits ld ws where granted:
      "db' = db\<lparr>db_permits := insert_row \<lparr>hp_token = token, hp_host = host, hp_lease_until = now + pgInterval lease\<rparr> permits,
            db_last_dispatch := ld, db_windows := ws\<rparr>"
      "(if 0 < hl_MinInterval ?l then touch_last_dispatch host (hl_MinInterval ?l) now (db_last_dispatch db) else Some (db_last_dispatch db)) = Some ld"
      "use_window host (hl_RPS ?l) now (db_windows db) = Some ws"
      by metis
    let ?st' = "limit_step cfg lease x st"
    have st': "fst ?st' = (host, now) # gs" "db_windows (snd ?st') = ws" "db_last_dispatch (snd ?st') = ld"
      using granted(1) Acquire st call Inr by (simp_all add: limit_step_def Let_def)
    have rps: "1 \<le> hl_RPS ?l" using ok by (simp add: limit_ok_def)
    note win = use_window_effect [OF granted(3) rps]
    have count: "windows_count gs db" and rates: "rates_ok cfg gs" and sp: "spaced cfg gs" and ls: "last_seen cfg gs db"
      using inv st by (simp_all add: limits_inv_def)
    have c: "int (granted_in h s gs) = (case row_by window_key (h, s) (db_windows db) of None \<Rightarrow> 0 | Some w \<Rightarrow> hw_used w)" for h s
      using count by (simp add: windows_count_def)
    have "windows_count ((host, now) # gs) (snd ?st')"
      using c unfolding windows_count_def st'(2) win(1) granted_in_Cons by (auto split: option.split)
    moreover have "rates_ok cfg ((host, now) # gs)"
      using rates win(2) c [of host "trunc_second now"] unfolding rates_ok_def granted_in_Cons
      by (auto split: option.splits if_splits)
    moreover have later: "t + pgInterval (hl_MinInterval ?l) \<le> now"
      if "(host, t) \<in> set gs" "0 < hl_MinInterval ?l" for t
    proof -
      obtain r where r: "row_by hd_host host (db_last_dispatch db) = Some r" "t \<le> hd_dispatched_at r"
        using ls \<open>(host, t) \<in> set gs\<close> \<open>0 < hl_MinInterval ?l\<close> by (auto simp: last_seen_def)
      have "touch_last_dispatch host (hl_MinInterval ?l) now (db_last_dispatch db) = Some ld"
        using granted(2) that(2) by simp
      from touch_last_dispatch_effect(2) [OF this r(1)] r(2) show ?thesis by simp
    qed
    moreover have "spaced cfg ((host, now) # gs)" using sp later by (auto simp: spaced_def)
    moreover have "last_seen cfg ((host, now) # gs) (snd ?st')"
    proof (cases "0 < hl_MinInterval ?l")
      case True
      then have tl: "touch_last_dispatch host (hl_MinInterval ?l) now (db_last_dispatch db) = Some ld"
        using granted(2) by simp
      have "t \<le> now" if "(host, t) \<in> set gs" for t
        using later [OF that True] pgInterval_nonneg [of "hl_MinInterval ?l"] True by simp
      then show ?thesis using ls unfolding last_seen_def st'(3) touch_last_dispatch_effect(1) [OF tl] by auto
    next
      case False
      then have "ld = db_last_dispatch db" using granted(2) by simp
      then show ?thesis using ls False unfolding last_seen_def st'(3) by auto
    qed
    ultimately show ?thesis by (simp add: limits_inv_def st'(1))
  qed
qed

lemma run_limits_inv: "(\<And>h. limit_ok (LimitForHost cfg h)) \<Longrightarrow> limits_inv cfg (run_limits cfg lease ops)"
proof -
  assume ok: "\<And>h. limit_ok (LimitForHost cfg h)"
  have rps: "0 \<le> hl_RPS (LimitForHost cfg h)" for h using ok [of h] by (simp add: limit_ok_def)
  have "limits_inv cfg ([], empty_db)"
    using rps by (simp add: limits_inv_def windows_count_def rates_ok_def spaced_def last_seen_def granted_in_def empty_db_def)
  moreover have "limits_inv cfg st \<Longrightarrow> limits_inv cfg (fold (limit_step cfg lease) ops st)" for st
    by (induction ops arbitrary: st) (simp_all add: limit_step_inv [OF ok])
  ultimately show ?thesis by (simp add: run_limits_def)
qed

subsection \<open>The guarantees\<close>

text \<open>
  C7: Across all workers and processes, at most \<open>RPS\<close> permits are granted for a host within one second
  of the database clock, for every sequence of acquisitions and releases and the limits of any loaded
  configuration.
\<close>

theorem requests_per_second_bounded:
  assumes "Load parse_duration url_parse env hostname = Inr cfg"
  shows "int (granted_in host s (fst (run_limits cfg lease ops))) \<le> hl_RPS (LimitForHost cfg host)"
  using run_limits_inv [OF LimitForHost_ok [OF assms], of lease ops] by (simp add: limits_inv_def rates_ok_def)

text \<open>A configuration that loads.\<close>

definition sample_env :: environment where
  "sample_env k = (if k = ''PROXY_DATABASE_URL'' then ''db'' else if k = ''PROXY_REQUIRE_SIGNATURE'' then ''false''
     else if k = ''PROXY_HOST_LIMITS'' then ''bank=2:1:5s'' else [])"

definition sample_load :: "config go_result" where
  "sample_load = Load (\<lambda>d. Some 5000000000) (\<lambda>u. Some \<lparr>ur_Scheme = ''http'', ur_Host = ''localhost''\<rparr>) sample_env ''node''"

lemma sample_loads: "\<exists>cfg. sample_load = Inr cfg \<and> LimitForHost cfg ''Bank'' = \<lparr>hl_RPS = 2, hl_Concurrency = 1, hl_MinInterval = 5000000000\<rparr>"
proof -
  have "(case sample_load of Inl _ \<Rightarrow> False | Inr cfg \<Rightarrow> LimitForHost cfg ''Bank'' = \<lparr>hl_RPS = 2, hl_Concurrency = 1, hl_MinInterval = 5000000000\<rparr>)"
    by code_simp
  then show ?thesis by (auto split: sum.splits)
qed

theorem requests_per_second_bounded_witness:
  "\<exists>cfg. sample_load = Inr cfg \<and>
     int (granted_in ''Bank'' 0 (fst (run_limits cfg 1 [Acquire ''Bank'' ''a'' 1, Acquire ''Bank'' ''b'' 2, Acquire ''Bank'' ''c'' 3]))) \<le> 2"
  using sample_loads requests_per_second_bounded [where host = "''Bank''"] unfolding sample_load_def
  by (metis host_limit.select_convs(1))



text \<open>
  C12: When a permit is granted, the unexpired permits of the host, the new one included, do not exceed
  the concurrency, and the unexpired permits of other hosts are as before.
\<close>

theorem concurrency_bounded:
  assumes "AcquireHostPermit host rps conc interval lease entropy now db = (Inr token, db')"
  shows "int (rows_affected (\<lambda>p. hp_host p = host \<and> now \<le> hp_lease_until p) (db_permits db')) \<le> conc
    \<and> row_exists (\<lambda>p. hp_token p = token \<and> hp_host p = host) (db_permits db')
    \<and> (\<forall>p. hp_host p \<noteq> host \<longrightarrow> (p \<in> set (db_permits db') \<longleftrightarrow> p \<in> set (db_permits db) \<and> now \<le> hp_lease_until p))"
proof -
  from AcquireHostPermit_granted [OF assms] obtain permits ld ws where
    db': "db' = db\<lparr>db_permits := insert_row \<lparr>hp_token = token, hp_host = host, hp_lease_until = now + pgInterval lease\<rparr> permits,
            db_last_dispatch := ld, db_windows := ws\<rparr>"
    and p: "permits = delete_where (\<lambda>p. hp_lease_until p < now) (db_permits db)"
    and c: "int (rows_affected (\<lambda>p. hp_host p = host) permits) < conc" by metis
  have "length (filter (\<lambda>p. hp_host p = host \<and> now \<le> hp_lease_until p) permits) \<le> length (filter (\<lambda>p. hp_host p = host) permits)"
    by (induction permits) auto
  then show ?thesis using c
    by (auto simp: db' rows_affected_def row_exists_iff insert_row_def p sql_simps)
qed

theorem concurrency_bounded_witness:
  "(case AcquireHostPermit ''bank'' 2 1 0 1000000 ''a'' 5 empty_db of (Inr token, db') \<Rightarrow>
      int (rows_affected (\<lambda>p. hp_host p = ''bank'' \<and> 5 \<le> hp_lease_until p) (db_permits db')) \<le> 1 | _ \<Rightarrow> False)"
proof -
  obtain token db' where eq: "AcquireHostPermit ''bank'' 2 1 0 1000000 ''a'' 5 empty_db = (Inr token, db')"
    by (simp add: AcquireHostPermit_def Let_def empty_db_def delete_where_def rows_affected_def use_window_def row_exists_def)
  from concurrency_bounded [OF this] show ?thesis unfolding eq by simp
qed

end
