(* ===== verification/Policy_Properties.thy ===== *)
theory Policy_Properties
  imports Outgoing_Safety Host_Limits
begin

text \<open>
  Who may use the proxy, what a loaded configuration guarantees, how retries are spaced, and what the
  HTTP exchange and the message format keep of a request and a response.
\<close>

subsection \<open>Authentication\<close>





definition sample_core :: core where
  "sample_core = \<lparr>tc_proxyID = ''p1'', tc_instanceID = ''i1'', tc_publicBaseURL = ''http://proxy'', tc_signer = [], tc_keys = [replicate 32 (CHR ''k'')],
     tc_clientByKeyID = [(PublicKeyID (replicate 32 (CHR ''k'')), ''shop'')], tc_allowed = [(''shop'', True)], tc_requireSignature = True,
     tc_deliveryRetry = 1000000000, tc_maxMessageBytes = 8388608, tc_maxRequestBytes = 4194304\<rparr>"


definition sample_order :: http_request where
  "sample_order = zero_http_request\<lparr>hq_RequestID := ''r1'', hq_ClientID := ''shop'', hq_ProxyID := ''p1'', hq_Method := ''POST'',
     hq_URL := ''http://bank/pay''\<rparr>"



definition sample_url :: url_parser where
  "sample_url u = Some \<lparr>ur_Scheme = ''http'', ur_Host = ''bank''\<rparr>"


subsection \<open>Configuration\<close>

text \<open>
  C19: A configuration that loads is usable: identifiers are single NATS tokens, pools are not empty,
  the dispatch lease outlasts every HTTP call, every allowed client is a single token and has a key when
  signatures are required, and every host has a positive rate and concurrency.
\<close>

theorem loaded_configuration_is_sound:
  assumes "Load parse_duration url_parse env hostname = Inr cfg"
  shows "single_token (cf_ProxyID cfg) \<and> single_token (cf_InstanceID cfg) \<and> 1 \<le> cf_Workers cfg \<and> 1 \<le> cf_DeliveryWorkers cfg
    \<and> (\<forall>q. call_timeout cfg q < cf_DispatchLease cfg)
    \<and> (\<forall>(c, b) \<in> set (cf_AllowedClients cfg). single_token c \<and> (cf_RequireSignature cfg \<longrightarrow> map_of (cf_ClientPublicKeys cfg) c \<noteq> None))
    \<and> (\<forall>h. limit_ok (LimitForHost cfg h))"
proof -
  have v: "validate_config url_parse cfg = Inr cfg" using Load_validated [OF assms] by simp
  have ok: "single_token (cf_ProxyID cfg)" "single_token (cf_InstanceID cfg)" "1 \<le> cf_Workers cfg" "1 \<le> cf_DeliveryWorkers cfg"
    "cf_MaxRequestTimeout cfg < cf_DispatchLease cfg" "check_clients cfg (cf_AllowedClients cfg) = Inr ()"
    using v by (auto simp: validate_config_def check_eq_Inr go_try_eq_Inr)
  have "call_timeout cfg q < cf_DispatchLease cfg" for q using ok(5) by (simp add: call_timeout_def Let_def)
  then show ?thesis using ok check_clients_ok [OF ok(6)] LimitForHost_ok [OF assms] by blast
qed

theorem loaded_configuration_is_sound_witness:
  "\<exists>cfg. sample_load = Inr cfg \<and> single_token (cf_ProxyID cfg) \<and> limit_ok (LimitForHost cfg ''bank'')"
  using sample_loads loaded_configuration_is_sound unfolding sample_load_def by blast

lemma length_sextets_eq: "length (sextets bs) = (4 * length bs + 2) div 3"
  by (induction bs rule: sextets.induct) auto

lemma pad4_bound: "n + (4 - n mod 4) mod 4 \<le> 4 * ((n + 3) div 4)" for n :: nat
proof -
  obtain k r where n: "n = r + 4 * k" and "r < 4" using mod_mult_div_eq [of n 4] by (metis mod_less_divisor zero_less_numeral)
  then consider "r = 0" | "r = 1" | "r = 2" | "r = 3" by linarith
  then show ?thesis by cases (simp_all add: n div_mult_self1 mod_Suc)
qed

lemma base64_bound: "4 * (((4 * n + 2) div 3 + 3) div 4) \<le> 4 * n div 3 + 3" for n :: nat
proof -
  obtain k r where n: "n = r + 3 * k" and "r < 3" using mod_mult_div_eq [of n 3] by (metis mod_less_divisor zero_less_numeral)
  have three: "(c + 12 * k) div 3 = c div 3 + 4 * k" for c
    using div_mult_self1 [of 3 c "4 * k"] by (simp add: mult.assoc [symmetric] add.commute)
  have four: "(c + 4 * k) div 4 = c div 4 + k" for c by simp
  have "4 * n + 2 = (4 * r + 2) + 12 * k" "4 * n = 4 * r + 12 * k" using n by simp_all
  moreover have "(4 * r + 2) div 3 + 4 * k + 3 = ((4 * r + 2) div 3 + 3) + 4 * k" by simp
  ultimately have eq: "((4 * n + 2) div 3 + 3) div 4 = ((4 * r + 2) div 3 + 3) div 4 + k" "4 * n div 3 = 4 * r div 3 + 4 * k"
    by (simp_all only: three four)
  consider "r = 0" | "r = 1" | "r = 2" using \<open>r < 3\<close> by linarith
  then show ?thesis unfolding eq by cases simp_all
qed

lemma length_Std: "length (Std_EncodeToString bs) \<le> 4 * length bs div 3 + 3"
proof -
  have "length (raw_encode std_alphabet bs) = (4 * length bs + 2) div 3" by (simp add: raw_encode_def length_sextets_eq)
  then show ?thesis using le_trans [OF pad4_bound base64_bound, of "length bs"] by (simp add: Std_EncodeToString_def pad4_def)
qed

text \<open>
  The message limit leaves room for the largest body: in a configuration that loads, with body limits
  below an exbibyte (so that the check does not overflow), the base64 text of every body within the
  request or the response limit leaves 65533 bytes of a message for the envelope.
\<close>

lemma encoded_body_fits:
  assumes "Load parse_duration url_parse env hostname = Inr cfg"
    and "0 \<le> max (cf_MaxRequestBytes cfg) (cf_MaxResponseBytes cfg)" and "max (cf_MaxRequestBytes cfg) (cf_MaxResponseBytes cfg) \<le> 2 ^ 60"
    and "int (length body) \<le> max (cf_MaxRequestBytes cfg) (cf_MaxResponseBytes cfg)"
  shows "int (length (Std_EncodeToString body)) + 65533 \<le> cf_MaxMessageBytes cfg"
proof -
  let ?m = "max (cf_MaxRequestBytes cfg) (cf_MaxResponseBytes cfg)"
  have "validate_config url_parse cfg = Inr cfg" using Load_validated [OF assms(1)] by simp
  then have needed: "needed_bytes cfg \<le> cf_MaxMessageBytes cfg" by (auto simp: validate_config_def check_eq_Inr go_try_eq_Inr)
  have "quot (?m * 4) 3 = ?m * 4 div 3" using assms(2) by (cases "?m = 0") (simp_all add: quot_def)
  moreover have "wrap64 (?m * 4) = ?m * 4" "wrap64 (?m * 4 div 3 + 65536) = ?m * 4 div 3 + 65536"
    using assms(2,3) by (auto intro!: wrap64_id simp: in_int64_def)
  ultimately have "needed_bytes cfg = ?m * 4 div 3 + 65536" by (simp add: needed_bytes_def)
  moreover have "int (length (Std_EncodeToString body)) \<le> (4 * int (length body)) div 3 + 3"
    using length_Std [of body] by linarith
  moreover have "(4 * int (length body)) div 3 \<le> ?m * 4 div 3" using assms(4) by (intro zdiv_mono1) simp_all
  ultimately show ?thesis using needed by linarith
qed

subsection \<open>Retries\<close>

lemma wrap64_double: "0 \<le> d \<Longrightarrow> d * 2 < 2 ^ 63 \<Longrightarrow> wrap64 (d * 2) = d * 2"
  by (rule wrap64_id) (simp add: in_int64_def)

lemma backoff_loop_power:
  "0 \<le> d \<Longrightarrow> d * 2 ^ nat (max 0 (min attempt 20 - i)) < 2 ^ 63 \<Longrightarrow>
   backoff_loop i attempt d = d * 2 ^ nat (max 0 (min attempt 20 - i))"
proof (induction i attempt d rule: backoff_loop.induct)
  case (1 i attempt d)
  show ?case
  proof (cases "i < attempt \<and> i < 20")
    case True
    let ?n = "nat (max 0 (min attempt 20 - (i + 1)))"
    have n: "nat (max 0 (min attempt 20 - i)) = Suc ?n" using True by auto
    have "d * 2 * 1 \<le> d * 2 * 2 ^ ?n" using "1.prems"(1) by (intro mult_left_mono) simp_all
    then have w: "wrap64 (d * 2) = d * 2" using "1.prems" n by (intro wrap64_double) simp_all
    have "backoff_loop (i + 1) attempt (wrap64 (d * 2)) = wrap64 (d * 2) * 2 ^ ?n"
      using "1.IH" [OF True] "1.prems" n w by simp
    then show ?thesis using True n w by (simp add: backoff_loop.simps [of i])
  next
    case False
    then show ?thesis by (auto simp: backoff_loop.simps [of i])
  qed
qed

definition planned_delay :: "retry_policy \<Rightarrow> int \<Rightarrow> int" where
  "planned_delay p attempt =
     (let full = (if rp_InitialBackoff p \<le> 0 then 1000000000 else rp_InitialBackoff p) * 2 ^ nat (min attempt 20 - 1)
      in if 0 < rp_MaxBackoff p then min (rp_MaxBackoff p) full else full)"

text \<open>
  C20: For policies with an initial delay of at most two hours and any attempt, the delay before a retry is
  defined and lies between the exponential delay (doubled per attempt, at most 19 times, cut at
  \<open>MaxBackoff\<close>) and one and a half times this delay.
\<close>

theorem backoff_is_bounded:
  assumes "rp_InitialBackoff p \<le> 2 ^ 43" and "\<And>n. 0 < n \<Longrightarrow> 0 \<le> draw n \<and> draw n < n"
  shows "\<exists>d. backoff draw p attempt = Some d \<and> planned_delay p attempt \<le> d \<and> d \<le> planned_delay p attempt + planned_delay p attempt div 2"
proof -
  define d0 where "d0 = (if rp_InitialBackoff p \<le> 0 then 1000000000 else rp_InitialBackoff p)"
  define n where "n = nat (max 0 (min attempt 20 - 1))"
  have d0: "0 < d0" "d0 \<le> 2 ^ 43" using assms(1) by (auto simp: d0_def)
  have "(2 :: int) ^ n \<le> 2 ^ 19" by (rule power_increasing) (auto simp: n_def)
  then have full: "0 < d0 * 2 ^ n" "d0 * 2 ^ n \<le> 2 ^ 62" using d0 mult_mono [of d0 "2 ^ 43" "2 ^ n" "2 ^ 19"] by simp_all
  have loop: "backoff_loop 1 attempt d0 = d0 * 2 ^ n"
    using backoff_loop_power [of d0 attempt 1] d0 full by (simp add: n_def)
  have n': "nat (min attempt 20 - 1) = n" by (simp add: n_def)
  have base: "backoff_base p attempt = planned_delay p attempt"
    using loop by (auto simp: backoff_base_def planned_delay_def Let_def n' simp flip: d0_def)
  have b: "0 < planned_delay p attempt" "planned_delay p attempt \<le> 2 ^ 62"
    using full by (auto simp: planned_delay_def Let_def n' simp flip: d0_def)
  let ?b = "planned_delay p attempt"
  have "quot ?b 2 = ?b div 2" using b by (simp add: quot_2_nonneg)
  moreover have "wrap64 (?b div 2 + 1) = ?b div 2 + 1" using b by (intro wrap64_id) (simp add: in_int64_def)
  moreover have j: "0 \<le> draw (?b div 2 + 1)" "draw (?b div 2 + 1) \<le> ?b div 2" using assms(2) [of "?b div 2 + 1"] b by simp_all
  moreover have "wrap64 (?b + draw (?b div 2 + 1)) = ?b + draw (?b div 2 + 1)" using b j by (intro wrap64_id) (simp add: in_int64_def)
  ultimately show ?thesis using b by (simp add: backoff_def base Let_def Int64N_def)
qed

theorem backoff_is_bounded_witness:
  "\<exists>d. backoff (\<lambda>n. 0) (zero_retry\<lparr>rp_MaxAttempts := 5\<rparr>) 3 = Some d \<and> planned_delay (zero_retry\<lparr>rp_MaxAttempts := 5\<rparr>) 3 \<le> d"
  using backoff_is_bounded [of "zero_retry\<lparr>rp_MaxAttempts := 5\<rparr>" "\<lambda>n. 0" 3] by (auto simp: zero_retry_def)

text \<open>
  C21: There are requests that pass validation and bring the worker down: with an initial delay of
  \<open>2^62\<close> nanoseconds, the doubling in 64 bits gives a negative delay after the second attempt, and drawing
  the jitter panics whatever the random numbers are.
\<close>

theorem validated_request_can_panic_the_worker:
  "\<exists>q. validateRequest sample_core sample_url q ''shop'' = Inr ()
     \<and> (\<forall>cfg draw clock permit token e. execute_reply cfg draw clock \<lparr>op_Request = q, op_Attempts = 1, op_DispatchToken = token\<rparr> permit (Inl e) = Panicked)"
proof -
  let ?q = "sample_order\<lparr>hq_Method := ''GET'', hq_Retry := zero_retry\<lparr>rp_MaxAttempts := 5, rp_InitialBackoff := 2 ^ 62, rp_RetryNetworkFail := True\<rparr>\<rparr>"
  have "validateRequest sample_core sample_url ?q ''shop'' = Inr ()" by code_simp
  moreover have "backoff_base (hq_Retry ?q) 2 = - (2 ^ 63)" by code_simp
  then have "backoff draw (hq_Retry ?q) 2 = None" for draw
    by (simp add: backoff_def Let_def Int64N_def quot_2_neg wrap64_def)
  then have "execute_reply cfg draw clock \<lparr>op_Request = ?q, op_Attempts = 1, op_DispatchToken = token\<rparr> permit (Inl e) = Panicked" for cfg draw clock permit token e
    by (simp add: execute_reply_def canRetry_def safe_method_def zero_retry_def)
  ultimately show ?thesis by blast
qed

subsection \<open>The HTTP exchange\<close>





text \<open>
  C17: Storing or sending a request or a result as JSON and reading it back gives the same value, for all
  values whose numbers fit 64 bits, up to the replacement of invalid UTF-8; bodies are kept byte for byte
  and headers keep their order and repetitions.
\<close>

theorem messages_survive_json:
  assumes "wf_http_request q" and "wf_http_result r"
  shows "unmarshal_http_request (marshal_http_request q) = Some (canon_http_request q)
    \<and> hq_Body (canon_http_request q) = hq_Body q \<and> length (hq_Headers (canon_http_request q)) = length (hq_Headers q)
    \<and> unmarshal_http_result (marshal_http_result r) = Some (canon_http_result r)
    \<and> rs_Body (canon_http_result r) = rs_Body r \<and> unmarshal_webhook_event (marshal_webhook_event e) = Some (canon_webhook_event e)"
  using assms http_request_codec.decode_encode http_result_codec.decode_encode webhook_event_codec.decode_encode
  by (simp add: canon_http_request_def canon_http_result_def)

theorem messages_survive_json_witness:
  "unmarshal_http_request (marshal_http_request sample_order) = Some (canon_http_request sample_order)"
proof -
  have "wf_http_request sample_order" "wf_http_result zero_http_result" by code_simp+
  from messages_survive_json [OF this] show ?thesis by blast
qed

end
