(* ===== verification/Webhook_Commands.thy ===== *)
theory Webhook_Commands
  imports Outgoing_Safety
begin

text \<open>
  What the commands on callback routes guarantee (\<open>ApplyWebhookControl\<close> and the operations made by
  \<open>webhookControlOperation\<close>): repetition, ownership, and that a registered route is found again.
\<close>

definition sample_route :: webhook_route where
  "sample_route = \<lparr>ro_ID = ''wh'', ro_OwnerClientID = ''shop'', ro_Name = ''n'', ro_Mode = ''delegated'', ro_ResponderClientID = ''shop'',
     ro_TokenHash = ''h'', ro_StaticResponse = zero_static_response\<lparr>sr_StatusCode := 200\<rparr>, ro_ResponseTimeout = 5000000000,
     ro_MaxBodyBytes = 100, ro_Enabled = True\<rparr>"

definition sample_operation :: control_operation where
  "sample_operation = \<lparr>co_CommandID = ''c1'', co_ClientID = ''shop'', co_CommandType = TypeWebhookRegister, co_Action = ''register'', co_WebhookID = [],
     co_SubscriberID = [], co_Payload = JNull, co_Result = control_success ''c1'' ''register'' ''wh'' ''url'', co_Route = sample_route, co_Subscribers = [''shop'', ''audit'']\<rparr>"

definition sample_registered :: proxy_db where
  "sample_registered = snd (ApplyWebhookControl sample_operation ''s'' 5 empty_db)"

lemma apply_action_commands: "apply_action operation now db = Inr (result, db1) \<Longrightarrow> db_commands db1 = db_commands db"
proof -
  have "db_commands (fold (insert_subscriber w now) cs db) = db_commands db" for w cs db
    by (induction cs arbitrary: db) (simp_all add: insert_subscriber_def)
  then show "apply_action operation now db = Inr (result, db1) \<Longrightarrow> db_commands db1 = db_commands db"
    by (auto simp: apply_defs insertWebhookRoute_def insert_subscriber_def Let_def split: if_splits sum.splits)
qed

lemma ApplyWebhookControl_new:
  assumes "ApplyWebhookControl operation subject now db = (Inr result, db')"
    and new: "row_by cm_command_id (co_CommandID operation) (db_commands db) = None"
  obtains db1 where "apply_action operation now db = Inr (result, db1)"
    "db' = db1\<lparr>db_commands := insert_row \<lparr>cm_command_id = co_CommandID operation, cm_client_id = co_ClientID operation,
             cm_command_type = co_CommandType operation, cm_payload = co_Payload operation,
             cm_result = marshal_control_result result, cm_created_at = now\<rparr> (db_commands db1),
           db_deliveries := insert_row (new_delivery (cr_DeliveryID result) control_kind (co_ClientID operation) subject
             TypeWebhookControlResult (marshal_control_result result) None None (Some (co_CommandID operation)) now) (db_deliveries db1)\<rparr>"
    "row_by cm_command_id (co_CommandID operation) (db_commands db1) = None"
proof (cases "apply_action operation now db")
  case (Inl e)
  then show ?thesis using assms by (simp add: ApplyWebhookControl_def)
next
  case (Inr x)
  obtain r db1 where x: "x = (r, db1)" by (cases x)
  have "r = result"
    "db' = db1\<lparr>db_commands := insert_row \<lparr>cm_command_id = co_CommandID operation, cm_client_id = co_ClientID operation,
             cm_command_type = co_CommandType operation, cm_payload = co_Payload operation,
             cm_result = marshal_control_result result, cm_created_at = now\<rparr> (db_commands db1),
           db_deliveries := insert_row (new_delivery (cr_DeliveryID result) control_kind (co_ClientID operation) subject
             TypeWebhookControlResult (marshal_control_result result) None None (Some (co_CommandID operation)) now) (db_deliveries db1)\<rparr>"
    using assms Inr x by (auto simp: ApplyWebhookControl_def Let_def split: if_splits)
  then show ?thesis using that Inr x apply_action_commands [of operation now db r db1] new by simp
qed

text \<open>
  C10: Commands on callback routes are idempotent: repeating one returns the result of the first time and
  changes no route, subscriber or command.
\<close>

theorem commands_are_idempotent:
  assumes "ApplyWebhookControl operation subject now db = (Inr result, db')"
    and "row_by cm_command_id (co_CommandID operation) (db_commands db) = None"
  shows "\<exists>db''. ApplyWebhookControl operation subject2 now2 db' = (Inr (canon_control_result result), db'')
    \<and> db_routes db'' = db_routes db' \<and> db_subscribers db'' = db_subscribers db' \<and> db_commands db'' = db_commands db'"
proof -
  obtain db1 where db': "db' = db1\<lparr>db_commands := insert_row \<lparr>cm_command_id = co_CommandID operation, cm_client_id = co_ClientID operation,
             cm_command_type = co_CommandType operation, cm_payload = co_Payload operation,
             cm_result = marshal_control_result result, cm_created_at = now\<rparr> (db_commands db1),
           db_deliveries := insert_row (new_delivery (cr_DeliveryID result) control_kind (co_ClientID operation) subject
             TypeWebhookControlResult (marshal_control_result result) None None (Some (co_CommandID operation)) now) (db_deliveries db1)\<rparr>"
    and none: "row_by cm_command_id (co_CommandID operation) (db_commands db1) = None"
    by (rule ApplyWebhookControl_new [OF assms]) (rule that; assumption)
  have "row_by cm_command_id (co_CommandID operation) (db_commands db') = Some \<lparr>cm_command_id = co_CommandID operation,
      cm_client_id = co_ClientID operation, cm_command_type = co_CommandType operation, cm_payload = co_Payload operation,
      cm_result = marshal_control_result result, cm_created_at = now\<rparr>"
    using none by (simp add: db' row_by_insert)
  then show ?thesis using control_result_codec.decode_encode [of result] by (simp add: ApplyWebhookControl_def)
qed

theorem commands_are_idempotent_witness:
  "\<exists>db''. ApplyWebhookControl sample_operation ''s'' 9 sample_registered = (Inr (canon_control_result (co_Result sample_operation)), db'')
     \<and> db_routes db'' = db_routes sample_registered"
proof -
  have "(case ApplyWebhookControl sample_operation ''s'' 5 empty_db of (Inr r, db') \<Rightarrow> r = co_Result sample_operation | _ \<Rightarrow> False)" by code_simp
  then have "ApplyWebhookControl sample_operation ''s'' 5 empty_db = (Inr (co_Result sample_operation), sample_registered)"
    by (auto simp: sample_registered_def split: prod.splits sum.splits)
  from commands_are_idempotent [OF this, of "''s''" 9] show ?thesis by (auto simp: empty_db_def)
qed

text \<open>
  C23: Only its owner changes a route: an update, deletion, subscription or unsubscription of a route of
  another client, or of no route, reports failure and changes nothing.
\<close>

theorem only_the_owner_changes_a_route:
  assumes "unique_by wt_webhook_id (db_routes db)"
    and "\<And>r. row_by wt_webhook_id (co_WebhookID operation) (db_routes db) = Some r \<Longrightarrow> wt_owner_client_id r \<noteq> co_ClientID operation"
    and "co_Action operation \<in> {''update'', ''subscribe'', ''unsubscribe'', ''delete''}"
  shows "\<exists>result. apply_action operation now db = Inr (result, db) \<and> \<not> cr_Success result \<and> cr_ErrorCode result = ''webhook_not_found''"
proof -
  have none: "rows_affected (\<lambda>r. wt_webhook_id r = co_WebhookID operation \<and> wt_owner_client_id r = co_ClientID operation) (db_routes db) = 0"
    using assms(2) row_by_of_mem [OF assms(1)] by (force simp: rows_affected_eq_0)
  show ?thesis using assms(2,3)
    by (cases "row_by wt_webhook_id (co_WebhookID operation) (db_routes db)")
      (auto simp: apply_action_def apply_update_def apply_delete_def apply_subscription_def none failWebhookControl_def Let_def)
qed

theorem only_the_owner_changes_a_route_witness:
  "\<exists>result. apply_action (sample_operation\<lparr>co_ClientID := ''eve'', co_Action := ''delete'', co_WebhookID := ''wh''\<rparr>) 9 sample_registered
     = Inr (result, sample_registered) \<and> \<not> cr_Success result"
proof -
  let ?op = "sample_operation\<lparr>co_ClientID := ''eve'', co_Action := ''delete'', co_WebhookID := ''wh''\<rparr>"
  have uniq: "unique_by wt_webhook_id (db_routes sample_registered)" by code_simp
  have "(case row_by wt_webhook_id ''wh'' (db_routes sample_registered) of None \<Rightarrow> False | Some r \<Rightarrow> wt_owner_client_id r = ''shop'')" by code_simp
  then show ?thesis using only_the_owner_changes_a_route [OF uniq, of ?op 9] by (auto split: option.splits)
qed

text \<open>
  C26: A registration whose response timeout is positive but below one millisecond fails in the database
  (the timeout is stored in whole milliseconds, which must be positive): the command leaves no trace, and
  in particular no result for the client.
\<close>

theorem short_timeout_registration_is_lost:
  assumes "register_operation c h clientID operation command = Inr op" and "co_Action op = ''register''"
    and "0 < wr_ResponseTimeout command" and "wr_ResponseTimeout command < 1000000"
    and "row_by cm_command_id (co_CommandID op) (db_commands db) = None"
  shows "ApplyWebhookControl op subject now db = (Inl (ErrConstraint ''proxy_webhook_routes_check''), db)"
proof -
  have "ro_ResponseTimeout (co_Route op) = wr_ResponseTimeout command"
    using assms(1-3) unfolding register_operation_def Let_def
    by (auto simp: invalid_command_def applyWebhookDefaults_def Let_def split: if_splits)
  then have "Milliseconds (ro_ResponseTimeout (co_Route op)) = 0" using assms(3,4) by (simp add: Milliseconds_def quot_def)
  then show ?thesis using assms(2,5)
    by (simp add: ApplyWebhookControl_def apply_action_def apply_register_def insertWebhookRoute_def route_checks_def Let_def)
qed

definition sample_command :: webhook_register where
  "sample_command = zero_webhook_register\<lparr>wr_CommandID := ''c9'', wr_ClientID := ''shop'', wr_Mode := ''static'', wr_ResponseTimeout := 500000\<rparr>"

definition sample_proxy :: core where
  "sample_proxy = \<lparr>tc_proxyID = ''p1'', tc_instanceID = ''i1'', tc_publicBaseURL = ''http://proxy'', tc_signer = [], tc_keys = [],
     tc_clientByKeyID = [], tc_allowed = [(''shop'', True)], tc_requireSignature = False, tc_deliveryRetry = 1000000000,
     tc_maxMessageBytes = 8388608, tc_maxRequestBytes = 4194304\<rparr>"

definition sample_hash :: hash_lib where
  "sample_hash = \<lparr>hs_sha256 = (\<lambda>m. m), hs_hmac = (\<lambda>k m. m)\<rparr>"

theorem short_timeout_registration_is_lost_witness:
  "\<exists>op. register_operation sample_proxy sample_hash ''shop'' (base_operation ''shop'' TypeWebhookRegister JNull) sample_command = Inr op
     \<and> ApplyWebhookControl op ''s'' 3 empty_db = (Inl (ErrConstraint ''proxy_webhook_routes_check''), empty_db)"
proof -
  have "(case register_operation sample_proxy sample_hash ''shop'' (base_operation ''shop'' TypeWebhookRegister JNull) sample_command of
      Inl _ \<Rightarrow> False | Inr op \<Rightarrow> co_Action op = ''register'')" by code_simp
  then obtain op where op: "register_operation sample_proxy sample_hash ''shop'' (base_operation ''shop'' TypeWebhookRegister JNull) sample_command = Inr op"
    "co_Action op = ''register''" by (auto split: sum.splits)
  have "ApplyWebhookControl op ''s'' 3 empty_db = (Inl (ErrConstraint ''proxy_webhook_routes_check''), empty_db)"
    by (rule short_timeout_registration_is_lost [OF op]) (simp_all add: sample_command_def empty_db_def)
  then show ?thesis using op by blast
qed

text \<open>
  A registered route is found again as it was registered: owner, mode, responder, token hash, body
  limit and response, with the response timeout in whole milliseconds.
\<close>

lemma registered_route_is_found:
  assumes "ApplyWebhookControl operation subject now db = (Inr result, db')"
    and "row_by cm_command_id (co_CommandID operation) (db_commands db) = None" and "co_Action operation = ''register''"
    and "in_int64 (sr_StatusCode (ro_StaticResponse (co_Route operation)))" and "in_int64 (ro_ResponseTimeout (co_Route operation))"
  shows "GetWebhookRoute (ro_ID (co_Route operation)) db' = Inr ((co_Route operation)\<lparr>
    ro_StaticResponse := canon_static_response (ro_StaticResponse (co_Route operation)),
    ro_ResponseTimeout := ro_ResponseTimeout (co_Route operation) div 1000000 * 1000000, ro_Enabled := True\<rparr>)"
proof -
  let ?route = "co_Route operation"
  obtain db1 where act: "apply_action operation now db = Inr (result, db1)" and db': "db' = db1\<lparr>db_commands := insert_row \<lparr>cm_command_id = co_CommandID operation, cm_client_id = co_ClientID operation,
             cm_command_type = co_CommandType operation, cm_payload = co_Payload operation,
             cm_result = marshal_control_result result, cm_created_at = now\<rparr> (db_commands db1),
           db_deliveries := insert_row (new_delivery (cr_DeliveryID result) control_kind (co_ClientID operation) subject
             TypeWebhookControlResult (marshal_control_result result) None None (Some (co_CommandID operation)) now) (db_deliveries db1)\<rparr>"
    by (rule ApplyWebhookControl_new [OF assms(1,2)]) (rule that; assumption)
  define row where "row = \<lparr>wt_webhook_id = ro_ID ?route, wt_owner_client_id = ro_OwnerClientID ?route, wt_name = ro_Name ?route,
                 wt_path_token_hash = ro_TokenHash ?route, wt_mode = ro_Mode ?route,
                 wt_static_response = marshal_static_response (ro_StaticResponse ?route),
                 wt_responder_client_id = nullString (ro_ResponderClientID ?route),
                 wt_response_timeout_ms = Milliseconds (ro_ResponseTimeout ?route),
                 wt_max_body_bytes = ro_MaxBodyBytes ?route, wt_enabled = True,
                 wt_created_at = now, wt_updated_at = now\<rparr>"
  have subs: "db_routes (fold (insert_subscriber w now) cs x) = db_routes x" for w cs x
    by (induction cs arbitrary: x) (simp_all add: insert_subscriber_def)
  have routes: "db_routes db1 = insert_row row (db_routes db)" and checks: "route_checks row"
    and fresh: "row_by wt_webhook_id (ro_ID ?route) (db_routes db) = None"
    using act assms(3) by (auto simp: apply_action_def apply_register_def insertWebhookRoute_def Let_def subs row_def row_exists_iff row_by_None_iff split: if_splits sum.splits)
  have ms: "0 < Milliseconds (ro_ResponseTimeout ?route)" using checks by (simp add: route_checks_def row_def)
  then have pos: "0 < ro_ResponseTimeout ?route" by (cases "0 < ro_ResponseTimeout ?route"; cases "ro_ResponseTimeout ?route = 0") (auto simp: Milliseconds_def quot_def)
  then have div: "Milliseconds (ro_ResponseTimeout ?route) = ro_ResponseTimeout ?route div 1000000" by (simp add: Milliseconds_def quot_def)
  have "ro_ResponseTimeout ?route div 1000000 * 1000000 \<le> ro_ResponseTimeout ?route" "0 \<le> ro_ResponseTimeout ?route div 1000000 * 1000000"
    using pos div_mult_mod_eq [of "ro_ResponseTimeout ?route" 1000000] pos_mod_sign [of 1000000 "ro_ResponseTimeout ?route"] by (linarith, simp)
  then have w: "wrap64 (ro_ResponseTimeout ?route div 1000000 * 1000000) = ro_ResponseTimeout ?route div 1000000 * 1000000"
    using assms(5) by (intro wrap64_id) (simp add: in_int64_def)
  have found: "row_by wt_webhook_id (ro_ID ?route) (db_routes db') = Some row"
    using fresh by (simp add: db' routes row_by_insert row_def)
  have "coalesce (nullString s) [] = s" for s by (simp add: nullString_def)
  then show ?thesis unfolding GetWebhookRoute_def found using static_response_codec.decode_encode [OF assms(4)] w
    by (simp add: row_def div)
qed

end
