(* ===== verification/Webhook_Properties.thy ===== *)
theory Webhook_Properties
  imports Webhook_Commands
begin

text \<open>
  What callbacks promise beside the commands of \<open>Webhook_Commands\<close>: the fan-out of an event and the
  single response of the delegated client.
\<close>

subsection \<open>Delegated responses\<close>

abbreviation event_of :: "string \<Rightarrow> proxy_db \<Rightarrow> event_row option" where
  "event_of eid db \<equiv> row_by we_event_id eid (db_events db)"

lemma unique_matching:
  assumes "unique_by key t" "row_by key k t = Some r" "x \<in> set t" "key x = k"
  shows "x = r"
  using assms row_by_of_mem [OF assms(1,3)] by simp

text \<open>A response is stored in the first answer to an event that waits, and only compared afterwards.\<close>

lemma SaveWebhookResponse_ok:
  assumes uniq: "unique_by we_event_id (db_events db)" and ok: "SaveWebhookResponse p now db = (Inr u, db')"
  obtains (first) e where "event_of (wp_EventID p) db = Some e" "we_status e = awaiting_response" "delegated_to db (wp_ClientID p) e"
      "event_of (wp_EventID p) db' = Some (e\<lparr>we_response := Some (marshal_webhook_response p), we_status := responded, we_updated_at := now\<rparr>)"
      "unique_by we_event_id (db_events db')" "db_routes db' = db_routes db"
  | (again) e j where "event_of (wp_EventID p) db = Some e" "we_status e = responded" "delegated_to db (wp_ClientID p) e"
      "we_response e = Some j" "jsonEqual j (marshal_webhook_response p)" "db_events db' = db_events db" "db_routes db' = db_routes db"
proof -
  let ?ep = "\<lambda>e. we_event_id e = wp_EventID p \<and> delegated_to db (wp_ClientID p) e \<and> we_status e = awaiting_response"
  let ?sel = "select_where (\<lambda>e. we_event_id e = wp_EventID p \<and> delegated_to db (wp_ClientID p) e \<and> we_status e = responded) (db_events db)"
  show thesis
  proof (cases "rows_affected ?ep (db_events db) = 0")
    case True
    then obtain e es j where sel: "?sel = e # es" and j: "we_response e = Some j" "jsonEqual j (marshal_webhook_response p)"
      and db': "db_events db' = db_events db" "db_routes db' = db_routes db"
      using ok unfolding SaveWebhookResponse_def Let_def by (auto split: if_splits list.splits option.splits)
    have "e \<in> set ?sel" using sel by simp
    then have e: "e \<in> set (db_events db)" "we_event_id e = wp_EventID p" "delegated_to db (wp_ClientID p) e" "we_status e = responded"
      by (auto simp: sql_simps)
    then have "event_of (wp_EventID p) db = Some e" using row_by_of_mem [OF uniq e(1)] by simp
    then show thesis using e j db' by (intro again)
  next
    case False
    then obtain e where e: "e \<in> set (db_events db)" "?ep e" by (auto simp: rows_affected_eq_0)
    let ?f = "\<lambda>e. e\<lparr>we_response := Some (marshal_webhook_response p), we_status := responded, we_updated_at := now\<rparr>"
    have db': "db_events db' = update_where ?ep ?f (db_events db)" "db_routes db' = db_routes db"
      using ok False unfolding SaveWebhookResponse_def Let_def by (auto split: if_splits)
    have row: "event_of (wp_EventID p) db = Some e" using row_by_of_mem [OF uniq e(1)] e(2) by simp
    have "event_of (wp_EventID p) db' = map_option (\<lambda>x. if ?ep x then ?f x else x) (event_of (wp_EventID p) db)"
      unfolding db' by (rule row_by_update) simp
    then have "event_of (wp_EventID p) db' = Some (?f e)" using row e(2) by simp
    moreover have "unique_by we_event_id (db_events db')" using uniq unfolding db'(1) by (subst unique_by_update) simp_all
    ultimately show thesis using first [of e] row e(2) db'(2) by blast
  qed
qed

lemma SaveWebhookResponse_closed:
  assumes uniq: "unique_by we_event_id (db_events db)" and e: "event_of (wp_EventID p) db = Some e" and st: "we_status e \<noteq> awaiting_response"
  shows "db_events (snd (SaveWebhookResponse p now db)) = db_events db"
    and "is_ok (fst (SaveWebhookResponse p now db)) \<Longrightarrow> we_status e = responded \<and> (\<exists>j. we_response e = Some j \<and> jsonEqual j (marshal_webhook_response p))"
proof -
  have only: "x = e" if "x \<in> set (db_events db)" "we_event_id x = wp_EventID p" for x
    using unique_matching [OF uniq e that] .
  then have none: "rows_affected (\<lambda>e. we_event_id e = wp_EventID p \<and> delegated_to db (wp_ClientID p) e \<and> we_status e = awaiting_response) (db_events db) = 0"
    using st by (auto simp: rows_affected_eq_0)
  show "db_events (snd (SaveWebhookResponse p now db)) = db_events db"
    unfolding SaveWebhookResponse_def Let_def by (simp add: none split: list.split option.split)
  assume "is_ok (fst (SaveWebhookResponse p now db))"
  then obtain u db' where ok: "SaveWebhookResponse p now db = (Inr u, db')" by (cases "SaveWebhookResponse p now db") (auto simp: is_ok_iff)
  show "we_status e = responded \<and> (\<exists>j. we_response e = Some j \<and> jsonEqual j (marshal_webhook_response p))"
    by (cases rule: SaveWebhookResponse_ok [OF uniq ok]) (use e st in auto)
qed

lemma response_stored:
  assumes "unique_by we_event_id (db_events db)" and "SaveWebhookResponse p now db = (Inr u, db')"
  shows "\<exists>e j. event_of (wp_EventID p) db' = Some e \<and> we_status e = responded \<and> we_response e = Some j
    \<and> jsonEqual j (marshal_webhook_response p) \<and> delegated_to db (wp_ClientID p) e \<and> unique_by we_event_id (db_events db')"
  by (cases rule: SaveWebhookResponse_ok [OF assms]) (use assms(1) in \<open>auto simp: delegated_to_def\<close>)

text \<open>
  C9: The first stored response to a callback wins: it comes from the client the route delegates to, it
  stays the event's response, and later responses to the event are confirmed only if they are the same
  and never change it.
\<close>

theorem first_response_wins:
  assumes "unique_by we_event_id (db_events db)" and "SaveWebhookResponse p now db = (Inr u, db')"
  shows "\<exists>e j. event_of (wp_EventID p) db' = Some e \<and> we_status e = responded \<and> we_response e = Some j
    \<and> jsonEqual j (marshal_webhook_response p) \<and> delegated_to db (wp_ClientID p) e
    \<and> (\<forall>p2 now2. wp_EventID p2 = wp_EventID p \<longrightarrow> db_events (snd (SaveWebhookResponse p2 now2 db')) = db_events db'
        \<and> (is_ok (fst (SaveWebhookResponse p2 now2 db')) \<longrightarrow> jsonEqual j (marshal_webhook_response p2)))"
proof -
  from response_stored [OF assms] obtain e j where e: "event_of (wp_EventID p) db' = Some e" "we_status e = responded" "we_response e = Some j"
    "jsonEqual j (marshal_webhook_response p)" "delegated_to db (wp_ClientID p) e" and uniq: "unique_by we_event_id (db_events db')" by blast
  have "db_events (snd (SaveWebhookResponse p2 now2 db')) = db_events db'
      \<and> (is_ok (fst (SaveWebhookResponse p2 now2 db')) \<longrightarrow> jsonEqual j (marshal_webhook_response p2))" if "wp_EventID p2 = wp_EventID p" for p2 now2
    using SaveWebhookResponse_closed [OF uniq, of p2 e now2] e that by auto
  then show ?thesis using e by blast
qed

definition sample_event :: webhook_event where
  "sample_event = zero_webhook_event\<lparr>ev_EventID := ''e1'', ev_WebhookID := ''wh'', ev_Body := ''x''\<rparr>"

definition sample_rnd :: "nat \<Rightarrow> bytes" where
  "sample_rnd i = replicate 16 (byte_of (i + 65))"

definition sample_waiting :: proxy_db where
  "sample_waiting = snd (SaveWebhookEvent sample_event sample_route (\<lambda>c. c) ''reply'' sample_rnd 6 sample_registered)"

definition sample_response :: webhook_response where
  "sample_response = zero_webhook_response\<lparr>wp_EventID := ''e1'', wp_DeliveryID := ''wdel_'' @ randomID (replicate 16 (byte_of 65)), wp_ClientID := ''shop'',
     wp_StatusCode := 201\<rparr>"

definition sample_reply_wire :: wire_lib where
  "sample_reply_wire = \<lparr>
     wl_env_parse = (\<lambda>d. Some \<lparr>en_ID = ''m'', en_Type = TypeWebhookDelegatedResponse, en_Timestamp = 1, en_Payload = d, en_KeyID = [], en_Signature = []\<rparr>),
     wl_env_text = (\<lambda>e. ''e''), wl_parse = (\<lambda>d. Some (marshal_webhook_response sample_response)), wl_text = (\<lambda>j. ''json'')\<rparr>"

definition sample_reply_lib :: crypto_lib where
  "sample_reply_lib = \<lparr>cl_Sign = (\<lambda>k m. m), cl_Verify = (\<lambda>k m s. m = s), cl_Public = (\<lambda>k. k), cl_RFC3339Nano = FormatInt\<rparr>"

definition sample_reply_io :: io where
  "sample_reply_io = \<lparr>io_now = 7, io_clock = 100, io_entropy = ''0123456789abcdef'', io_fault = NoFault, io_published = True\<rparr>"

text \<open>What is computed of this event, at once: it is stored, it waits, and the response is taken, by the statement and by the handler.\<close>

lemma sample_event_run:
  "case SaveWebhookEvent sample_event sample_route (\<lambda>c. c) ''reply'' sample_rnd 6 sample_registered of (saved, db) \<Rightarrow>
     is_ok saved \<and> unique_by we_event_id (db_events db)
     \<and> (case event_of ''e1'' db of None \<Rightarrow> False | Some e \<Rightarrow> we_status e = awaiting_response)
     \<and> is_ok (fst (SaveWebhookResponse sample_response 7 db))
     \<and> (case handleWebhookResponse sample_proxy sample_reply_lib sample_reply_wire sample_reply_io ''d'' db [''e1'' \<mapsto> None] of
          (db', ws', msgs) \<Rightarrow> ws' ''e1'' = Some (Some sample_response))"
  by code_simp

lemmas sample_event_facts = sample_event_run [unfolded case_prod_beta [where p = "SaveWebhookEvent sample_event sample_route (\<lambda>c. c) ''reply'' sample_rnd 6 sample_registered"],
  folded sample_waiting_def]

lemma sample_waiting_unique: "unique_by we_event_id (db_events sample_waiting)"
  using sample_event_facts by blast

theorem first_response_wins_witness:
  "\<exists>db'. SaveWebhookResponse sample_response 7 sample_waiting = (Inr (), db') \<and> (\<exists>e. event_of ''e1'' db' = Some e \<and> we_status e = responded)"
proof -
  have "is_ok (fst (SaveWebhookResponse sample_response 7 sample_waiting))" using sample_event_facts by blast
  then obtain u db' where ok: "SaveWebhookResponse sample_response 7 sample_waiting = (Inr u, db')"
    by (cases "SaveWebhookResponse sample_response 7 sample_waiting") (auto simp: is_ok_iff)
  have "wp_EventID sample_response = ''e1''" by (simp add: sample_response_def)
  then show ?thesis using first_response_wins [OF sample_waiting_unique ok] ok by auto
qed



subsection \<open>Events\<close>

lemma insert_event_deliveries_stored:
  assumes "insert_event_deliveries event now ds db = Inr db'" and "d \<in> set ds"
  shows "delivery_of (de_ID d) db' = Some (delivery_row_of event now d)"
proof -
  have keep: "insert_event_deliveries event now ds db = Inr db' \<Longrightarrow> delivery_of did db = Some x \<Longrightarrow> delivery_of did db' = Some x" for ds db did x
  proof (induction ds arbitrary: db)
    case (Cons d ds)
    let ?row = "delivery_row_of event now d"
    have id: "dl_delivery_id ?row = de_ID d" by (simp add: delivery_row_of_def)
    have none: "delivery_of (dl_delivery_id ?row) db = None"
      using Cons.prems(1) by (auto simp: id row_by_None_iff row_exists_iff split: if_splits)
    have "did \<noteq> de_ID d" using Cons.prems(2) none id by auto
    then have "delivery_of did (db\<lparr>db_deliveries := insert_row ?row (db_deliveries db)\<rparr>) = Some x"
      using Cons.prems(2) row_by_insert [OF none, of did] id by simp
    then show ?case using Cons.IH Cons.prems(1) by (auto split: if_splits)
  qed simp
  show ?thesis using assms
  proof (induction ds arbitrary: db)
    case (Cons y ds)
    let ?row = "delivery_row_of event now y"
    let ?db1 = "db\<lparr>db_deliveries := insert_row ?row (db_deliveries db)\<rparr>"
    have id: "dl_delivery_id ?row = de_ID y" by (simp add: delivery_row_of_def)
    have none: "delivery_of (dl_delivery_id ?row) db = None" and rest: "insert_event_deliveries event now ds ?db1 = Inr db'"
      using Cons.prems(1) by (auto simp: id row_by_None_iff row_exists_iff split: if_splits)
    show ?case
    proof (cases "d = y")
      case True
      have "delivery_of (de_ID y) ?db1 = Some ?row" using row_by_insert [OF none, of "de_ID y"] id by simp
      then show ?thesis using keep [OF rest] True by simp
    next
      case False
      then show ?thesis using Cons.IH [OF rest] Cons.prems(2) by simp
    qed
  qed simp
qed

text \<open>
  C22: A callback event reaches exactly the subscribers of the route and, for a delegated route, the
  responder: each has one stored, unconfirmed delivery of the event, and only the responder's copy says
  where to reply.
\<close>

theorem event_reaches_every_subscriber:
  assumes "SaveWebhookEvent event route subject replySubject rnd now db = (Inr ds, db')"
  shows "set (map de_ClientID ds) = {sb_client_id s |s. s \<in> set (db_subscribers db) \<and> sb_webhook_id s = ev_WebhookID event}
        \<union> (if ro_Mode route = ''delegated'' then {ro_ResponderClientID route} else {})
    \<and> (\<forall>d \<in> set ds. \<exists>x e. delivery_of (de_ID d) db' = Some x \<and> dl_client_id x = de_ClientID d \<and> dl_acknowledged_at x = None
        \<and> dl_webhook_event_id x = Some (ev_EventID event) \<and> dl_payload x = marshal_webhook_event e
        \<and> e\<lparr>ev_DeliveryID := ev_DeliveryID event, ev_ReplySubject := ev_ReplySubject event\<rparr> = event
        \<and> ev_ReplySubject e = (if ro_Mode route = ''delegated'' \<and> de_ClientID d = ro_ResponderClientID route then replySubject else ev_ReplySubject event))"
proof -
  note ok = SaveWebhookEvent_ok [OF assms]
  have clients: "map de_ClientID ds = event_clients event route db"
    unfolding ok(2) by (simp add: comp_def case_prod_unfold event_delivery_def Let_def map_snd_enumerate)
  have "\<exists>x e. delivery_of (de_ID d) db' = Some x \<and> dl_client_id x = de_ClientID d \<and> dl_acknowledged_at x = None
        \<and> dl_webhook_event_id x = Some (ev_EventID event) \<and> dl_payload x = marshal_webhook_event e
        \<and> e\<lparr>ev_DeliveryID := ev_DeliveryID event, ev_ReplySubject := ev_ReplySubject event\<rparr> = event
        \<and> ev_ReplySubject e = (if ro_Mode route = ''delegated'' \<and> de_ClientID d = ro_ResponderClientID route then replySubject else ev_ReplySubject event)"
    if d: "d \<in> set ds" for d
  proof -
    obtain i c where dc: "d = event_delivery event route subject replySubject (rnd i) c" using d unfolding ok(2) by auto
    have row: "delivery_of (de_ID d) db' = Some (delivery_row_of event now d)" by (rule insert_event_deliveries_stored [OF ok(1) d])
    show ?thesis
      by (intro exI [of _ "delivery_row_of event now d"] exI [of _ "if c = ro_ResponderClientID route \<and> ro_Mode route = ''delegated''
            then event\<lparr>ev_DeliveryID := de_ID d, ev_ReplySubject := replySubject\<rparr> else event\<lparr>ev_DeliveryID := de_ID d\<rparr>"])
        (simp add: row, simp add: delivery_row_of_def new_delivery_def dc event_delivery_def Let_def)
  qed
  then show ?thesis unfolding clients by (auto simp: event_clients_def Let_def sql_simps)
qed

theorem event_reaches_every_subscriber_witness:
  "\<exists>ds. fst (SaveWebhookEvent sample_event sample_route (\<lambda>c. c) ''reply'' sample_rnd 6 sample_registered) = Inr ds
     \<and> set (map de_ClientID ds) = {''shop'', ''audit''}"
proof -
  have "is_ok (fst (SaveWebhookEvent sample_event sample_route (\<lambda>c. c) ''reply'' sample_rnd 6 sample_registered))"
    using sample_event_facts by blast
  then obtain ds db' where ok: "SaveWebhookEvent sample_event sample_route (\<lambda>c. c) ''reply'' sample_rnd 6 sample_registered = (Inr ds, db')"
    by (cases "SaveWebhookEvent sample_event sample_route (\<lambda>c. c) ''reply'' sample_rnd 6 sample_registered") (auto simp: is_ok_iff)
  have subs: "map sb_client_id (filter (\<lambda>s. sb_webhook_id s = ''wh'') (db_subscribers sample_registered)) = [''shop'', ''audit'']" by code_simp
  have "{f s |s. s \<in> set xs \<and> P s} = set (map f (filter P xs))" for f :: "subscriber_row \<Rightarrow> string" and P xs by auto
  then have "{sb_client_id s |s. s \<in> set (db_subscribers sample_registered) \<and> sb_webhook_id s = ''wh''} = set [''shop'', ''audit'']"
    unfolding subs [symmetric] .
  moreover have "ev_WebhookID sample_event = ''wh''" "ro_ResponderClientID sample_route = ''shop''" "ro_Mode sample_route = ''delegated''"
    by (simp_all add: sample_event_def sample_route_def)
  ultimately show ?thesis using event_reaches_every_subscriber [OF ok] ok by (intro exI [of _ ds]) (simp add: insert_commute)
qed

text \<open>
  C24: A caller that waits for a delegated response is only ever given one that is stored: when a message
  puts a response before a waiting caller, the event's row holds this response.
\<close>

theorem waiting_caller_gets_a_stored_response:
  assumes "unique_by we_event_id (db_events db)" and "handleWebhookResponse c lib wl io data db ws = (db', ws', msgs)"
    and "ws eid = Some None" and "ws' eid = Some (Some p)"
  shows "wp_EventID p = eid \<and> (\<exists>e j. event_of eid db' = Some e \<and> we_status e = responded \<and> we_response e = Some j
    \<and> jsonEqual j (marshal_webhook_response p) \<and> delegated_to db (wp_ClientID p) e)"
proof -
  from assms(2-4) obtain q u where call: "db_call (io_fault io) (SaveWebhookResponse q (io_now io)) db = (Inr u, db')" and ws': "ws' = offer q ws"
    unfolding handleWebhookResponse_def by (auto split: sum.splits prod.splits if_splits)
  have ok: "SaveWebhookResponse q (io_now io) db = (Inr u, db')" using call by (simp add: db_call_def split: fault.splits)
  have "q = p \<and> wp_EventID p = eid" using ws' assms(3,4) by (auto simp: offer_def split: option.splits if_splits)
  then show ?thesis using response_stored [OF assms(1) ok] by blast
qed

theorem waiting_caller_gets_a_stored_response_witness:
  "\<exists>db' ws' msgs p. handleWebhookResponse sample_proxy sample_reply_lib sample_reply_wire sample_reply_io ''d'' sample_waiting [''e1'' \<mapsto> None] = (db', ws', msgs)
     \<and> ws' ''e1'' = Some (Some p) \<and> (\<exists>e j. event_of ''e1'' db' = Some e \<and> we_response e = Some j \<and> jsonEqual j (marshal_webhook_response p))"
proof -
  have "(case handleWebhookResponse sample_proxy sample_reply_lib sample_reply_wire sample_reply_io ''d'' sample_waiting [''e1'' \<mapsto> None] of
      (db', ws', msgs) \<Rightarrow> ws' ''e1'' = Some (Some sample_response))"
    using sample_event_facts by (elim conjE)
  then obtain db' ws' msgs where h: "handleWebhookResponse sample_proxy sample_reply_lib sample_reply_wire sample_reply_io ''d'' sample_waiting [''e1'' \<mapsto> None] = (db', ws', msgs)"
    "ws' ''e1'' = Some (Some sample_response)" by (auto split: prod.splits)
  show ?thesis using waiting_caller_gets_a_stored_response [OF sample_waiting_unique h(1) _ h(2)] h
    by (intro exI [of _ db'] exI [of _ ws'] exI [of _ msgs] exI [of _ sample_response]) auto
qed

end
