(* ===== verification/Client_Store.thy ===== *)
theory Client_Store
  imports Contract_Codecs
begin

text \<open>
  The durable boundary of the client library (\<^verbatim>\<open>client/client.go\<close>): the stored operations and callbacks,
  the interfaces \<^verbatim>\<open>Store\<close> and \<^verbatim>\<open>CallbackStore\<close> as locales with the laws that the client relies on, and
  what the client can conclude from these laws alone. \<open>Memory_Store\<close> and \<open>Postgres_Store\<close> provide them.

  The laws speak of a store through its \<open>view\<close>, a map from proxy and identifier to the stored value in
  canonical form, since a database returns what survives JSON.
\<close>

datatype client_state = StateOutgoing | StateAccepted | StateResultSaved | StateComplete

record stored_operation =
  so_Request :: http_request
  so_Result :: "http_result option"
  so_State :: client_state

record stored_callback =
  sc_Event :: webhook_event
  sc_Response :: "webhook_response option"
  sc_Completed :: bool

text \<open>The states in the order of the protocol.\<close>

fun state_rank :: "client_state \<Rightarrow> nat" where
  "state_rank StateOutgoing = 0"
| "state_rank StateAccepted = 1"
| "state_rank StateResultSaved = 2"
| "state_rank StateComplete = 3"

lemma state_rank_inj: "state_rank a = state_rank b \<Longrightarrow> a = b"
  by (cases a; cases b) simp_all

instantiation client_state :: linorder
begin

definition less_eq_client_state :: "client_state \<Rightarrow> client_state \<Rightarrow> bool" where
  "a \<le> b \<longleftrightarrow> state_rank a \<le> state_rank b"

definition less_client_state :: "client_state \<Rightarrow> client_state \<Rightarrow> bool" where
  "a < b \<longleftrightarrow> state_rank a < state_rank b"

instance
  by standard (auto simp: less_eq_client_state_def less_client_state_def intro: state_rank_inj)

end

subsection \<open>Comparisons (\<^verbatim>\<open>client/postgres_store.go\<close>)\<close>

definition sameRequest :: "http_request \<Rightarrow> http_request \<Rightarrow> bool" where
  "sameRequest left right =
     jsonEqual (marshal_http_request (left\<lparr>hq_CreatedAt := hq_CreatedAt right, hq_Timeout := hq_Timeout right\<rparr>))
       (marshal_http_request right)"

definition sameCallbackEvent :: "webhook_event \<Rightarrow> webhook_event \<Rightarrow> bool" where
  "sameCallbackEvent left right = jsonEqual (marshal_webhook_event left) (marshal_webhook_event right)"

definition sameCallbackResponse :: "webhook_response \<Rightarrow> webhook_response \<Rightarrow> bool" where
  "sameCallbackResponse left right = jsonEqual (marshal_webhook_response left) (marshal_webhook_response right)"

subsection \<open>Canonical values\<close>

definition canon_operation :: "stored_operation \<Rightarrow> stored_operation" where
  "canon_operation x = x\<lparr>so_Request := canon_http_request (so_Request x), so_Result := map_option canon_http_result (so_Result x)\<rparr>"

definition canon_callback :: "stored_callback \<Rightarrow> stored_callback" where
  "canon_callback x = x\<lparr>sc_Event := canon_webhook_event (sc_Event x), sc_Response := map_option canon_webhook_response (sc_Response x)\<rparr>"

lemma canon_operation_simps [simp]:
  "canon_operation (x\<lparr>so_State := st\<rparr>) = (canon_operation x)\<lparr>so_State := st\<rparr>"
  "canon_operation (x\<lparr>so_Result := Some r\<rparr>) = (canon_operation x)\<lparr>so_Result := Some (canon_http_result r)\<rparr>"
  "so_State (canon_operation x) = so_State x" "so_Request (canon_operation x) = canon_http_request (so_Request x)"
  "so_Result (canon_operation x) = map_option canon_http_result (so_Result x)"
  by (simp_all add: canon_operation_def)

lemma canon_callback_simps [simp]:
  "canon_callback (x\<lparr>sc_Completed := b\<rparr>) = (canon_callback x)\<lparr>sc_Completed := b\<rparr>"
  "canon_callback (x\<lparr>sc_Response := Some r\<rparr>) = (canon_callback x)\<lparr>sc_Response := Some (canon_webhook_response r)\<rparr>"
  "sc_Completed (canon_callback x) = sc_Completed x" "sc_Event (canon_callback x) = canon_webhook_event (sc_Event x)"
  "sc_Response (canon_callback x) = map_option canon_webhook_response (sc_Response x)"
  by (simp_all add: canon_callback_def)

lemma sameRequest_canon: "sameRequest (canon_http_request a) b = sameRequest a b"
proof -
  have "(canon_http_request a)\<lparr>hq_CreatedAt := t, hq_Timeout := d\<rparr> = canon_http_request (a\<lparr>hq_CreatedAt := t, hq_Timeout := d\<rparr>)" for t d
    by (simp add: canon_http_request_def)
  then show ?thesis by (simp add: sameRequest_def http_request_codec.encode_canon)
qed

lemma sameCallbackEvent_canon: "sameCallbackEvent (canon_webhook_event a) b = sameCallbackEvent a b"
  by (simp add: sameCallbackEvent_def webhook_event_codec.encode_canon)

lemma sameCallbackResponse_canon:
  "sameCallbackResponse (canon_webhook_response a) b = sameCallbackResponse a b"
  "sameCallbackResponse a (canon_webhook_response b) = sameCallbackResponse a b"
  by (simp_all add: sameCallbackResponse_def webhook_response_codec.encode_canon)

lemma canon_http_result_State [simp]: "coerce_utf8 (rs_State r) = rs_State r \<Longrightarrow> rs_State (canon_http_result r) = rs_State r"
  by (simp add: canon_http_result_def)

lemma canon_result_unknown: "rs_State (canon_http_result r) = ''unknown'' \<longleftrightarrow> coerce_utf8 (rs_State r) = ''unknown''"
  by (simp add: canon_http_result_def)

subsection \<open>What a store of operations does, on its view\<close>

type_synonym operations_view = "string \<times> string \<Rightarrow> stored_operation option"

definition fresh_operation :: "http_request \<Rightarrow> stored_operation" where
  "fresh_operation q = \<lparr>so_Request = canon_http_request q, so_Result = None, so_State = StateOutgoing\<rparr>"

definition spec_save :: "http_request \<Rightarrow> operations_view \<Rightarrow> unit go_result \<times> operations_view" where
  "spec_save q v =
     (case v (hq_ProxyID q, hq_RequestID q) of
        None \<Rightarrow> (Inr (), v((hq_ProxyID q, hq_RequestID q) \<mapsto> fresh_operation q))
      | Some x \<Rightarrow> (if sameRequest (so_Request x) q then Inr () else Inl ErrRequestConflict, v))"

definition spec_load :: "string \<Rightarrow> string \<Rightarrow> operations_view \<Rightarrow> stored_operation go_result" where
  "spec_load p i v = (case v (p, i) of None \<Rightarrow> Inl ErrOperationNotFound | Some x \<Rightarrow> Inr x)"

text \<open>A known outcome is not replaced by an unknown one.\<close>

definition keeps_known :: "stored_operation \<Rightarrow> http_result \<Rightarrow> bool" where
  "keeps_known x r \<longleftrightarrow> rs_State r = ''unknown'' \<and> (\<exists>r0. so_Result x = Some r0 \<and> rs_State r0 \<noteq> ''unknown'')"

definition spec_result :: "string \<Rightarrow> http_result \<Rightarrow> operations_view \<Rightarrow> http_result go_result \<times> operations_view" where
  "spec_result p r v =
     (case v (p, rs_RequestID r) of
        None \<Rightarrow> (Inl ErrOperationNotFound, v)
      | Some x \<Rightarrow>
          if keeps_known x r then (Inr (the (so_Result x)), v)
          else (Inr (canon_http_result r), v((p, rs_RequestID r) \<mapsto> x\<lparr>so_Result := Some (canon_http_result r), so_State := StateResultSaved\<rparr>)))"

definition spec_complete :: "string \<Rightarrow> string \<Rightarrow> operations_view \<Rightarrow> unit go_result \<times> operations_view" where
  "spec_complete p i v =
     (case v (p, i) of
        None \<Rightarrow> (Inl ErrOperationNotFound, v)
      | Some x \<Rightarrow> (Inr (), v((p, i) \<mapsto> x\<lparr>so_State := StateComplete\<rparr>)))"

text \<open>
  Marking as accepted changes at most the state; the two stores differ in what happens to a state beyond
  \<open>outgoing\<close>.
\<close>

definition accepts :: "string \<Rightarrow> string \<Rightarrow> operations_view \<Rightarrow> unit go_result \<Rightarrow> operations_view \<Rightarrow> bool" where
  "accepts p i v res v' \<longleftrightarrow>
     (case v (p, i) of
        None \<Rightarrow> res = Inl ErrOperationNotFound \<and> v' = v
      | Some x \<Rightarrow> res = Inr () \<and> (\<exists>st. v' = v((p, i) \<mapsto> x\<lparr>so_State := st\<rparr>)
          \<and> (st = StateAccepted \<or> so_State x \<noteq> StateOutgoing \<and> st = so_State x)))"

text \<open>Identifiers and results as the library reads them from JSON.\<close>

definition plain_id :: "string \<Rightarrow> bool" where
  "plain_id p \<longleftrightarrow> coerce_utf8 p = p \<and> byte_of 0 \<notin> set p"

definition plain_result :: "http_result \<Rightarrow> bool" where
  "plain_result r \<longleftrightarrow> wf_http_result r \<and> coerce_utf8 (rs_State r) = rs_State r"

datatype store_op =
    OpSave http_request
  | OpAccept string string
  | OpResult string http_result
  | OpComplete string string

fun plain_op :: "store_op \<Rightarrow> bool" where
  "plain_op (OpSave q) = (wf_http_request q \<and> plain_id (hq_ProxyID q))"
| "plain_op (OpAccept p i) = plain_id p"
| "plain_op (OpResult p r) = (plain_id p \<and> plain_result r)"
| "plain_op (OpComplete p i) = plain_id p"

locale client_store =
  fixes inv :: "'s \<Rightarrow> bool"
    and view :: "'s \<Rightarrow> operations_view"
    and save :: "pg_time \<Rightarrow> http_request \<Rightarrow> 's \<Rightarrow> unit go_result \<times> 's"
    and load :: "string \<Rightarrow> string \<Rightarrow> 's \<Rightarrow> stored_operation go_result"
    and accept :: "pg_time \<Rightarrow> string \<Rightarrow> string \<Rightarrow> 's \<Rightarrow> unit go_result \<times> 's"
    and result :: "pg_time \<Rightarrow> string \<Rightarrow> http_result \<Rightarrow> 's \<Rightarrow> http_result go_result \<times> 's"
    and complete :: "pg_time \<Rightarrow> string \<Rightarrow> string \<Rightarrow> 's \<Rightarrow> unit go_result \<times> 's"
  assumes save_law: "inv s \<Longrightarrow> plain_id (hq_ProxyID q) \<Longrightarrow> wf_http_request q \<Longrightarrow>
      inv (snd (save now q s)) \<and> (fst (save now q s), view (snd (save now q s))) = spec_save q (view s)"
    and load_law: "inv s \<Longrightarrow> plain_id p \<Longrightarrow> map_sum id canon_operation (load p i s) = spec_load p i (view s)"
    and load_keys: "inv s \<Longrightarrow> plain_id p \<Longrightarrow> coerce_utf8 i = i \<Longrightarrow> load p i s = Inr x \<Longrightarrow>
      hq_ProxyID (so_Request x) = p \<and> hq_RequestID (so_Request x) = i"
    and accept_law: "inv s \<Longrightarrow> plain_id p \<Longrightarrow>
      inv (snd (accept now p i s)) \<and> accepts p i (view s) (fst (accept now p i s)) (view (snd (accept now p i s)))"
    and result_law: "inv s \<Longrightarrow> plain_id p \<Longrightarrow> plain_result r \<Longrightarrow> rs_ProxyID r = p \<Longrightarrow>
      inv (snd (result now p r s)) \<and> (map_sum id canon_http_result (fst (result now p r s)), view (snd (result now p r s))) = spec_result p r (view s)"
    and result_foreign: "inv s \<Longrightarrow> plain_id p \<Longrightarrow> plain_result r \<Longrightarrow> rs_ProxyID r \<noteq> p \<Longrightarrow> \<not> is_ok (fst (result now p r s)) \<and> snd (result now p r s) = s"
    and complete_law: "inv s \<Longrightarrow> plain_id p \<Longrightarrow>
      inv (snd (complete now p i s)) \<and> (fst (complete now p i s), view (snd (complete now p i s))) = spec_complete p i (view s)"
begin

fun apply_op :: "pg_time \<Rightarrow> store_op \<Rightarrow> 's \<Rightarrow> 's" where
  "apply_op now (OpSave q) s = snd (save now q s)"
| "apply_op now (OpAccept p i) s = snd (accept now p i s)"
| "apply_op now (OpResult p r) s = snd (result now p r s)"
| "apply_op now (OpComplete p i) s = snd (complete now p i s)"

definition apply_ops :: "(pg_time \<times> store_op) list \<Rightarrow> 's \<Rightarrow> 's" where
  "apply_ops xs s = fold (\<lambda>(now, x). apply_op now x) xs s"

text \<open>What one operation does to one entry.\<close>

lemma entry_step:
  assumes "inv s" "plain_op x" "view s k = Some e"
  shows "inv (apply_op now x s) \<and> (\<exists>e'. view (apply_op now x s) k = Some e' \<and> so_Request e' = so_Request e
    \<and> ((\<exists>r. so_Result e = Some r \<and> rs_State r \<noteq> ''unknown'') \<longrightarrow> (\<exists>r. so_Result e' = Some r \<and> rs_State r \<noteq> ''unknown'')))"
proof (cases x)
  case (OpSave q)
  have *: "inv (snd (save now q s))" "(fst (save now q s), view (snd (save now q s))) = spec_save q (view s)"
    using save_law [of s q now] assms OpSave by simp_all
  then have "view (snd (save now q s)) k = Some e" using assms(3) by (auto simp: spec_save_def split: option.splits if_splits)
  then show ?thesis using * OpSave by simp
next
  case (OpAccept p i)
  have "inv (snd (accept now p i s))" "accepts p i (view s) (fst (accept now p i s)) (view (snd (accept now p i s)))"
    using accept_law [of s p now i] assms OpAccept by simp_all
  then show ?thesis using assms(3) OpAccept by (auto simp: accepts_def split: option.splits)
next
  case (OpResult p r)
  show ?thesis
  proof (cases "rs_ProxyID r = p")
    case True
    have *: "inv (snd (result now p r s))" "(map_sum id canon_http_result (fst (result now p r s)), view (snd (result now p r s))) = spec_result p r (view s)"
      using result_law [of s p r now] assms OpResult True by simp_all
    have plain: "coerce_utf8 (rs_State r) = rs_State r" using assms(2) OpResult by (simp add: plain_result_def)
    have v: "view (snd (result now p r s)) = snd (spec_result p r (view s))" using *(2) by (metis snd_conv)
    show ?thesis using *(1) assms(3) OpResult plain unfolding apply_op.simps OpResult v
      by (auto simp: spec_result_def keeps_known_def canon_http_result_def split: option.splits)
  next
    case False
    then show ?thesis using result_foreign [of s p r now] assms OpResult by simp
  qed
next
  case (OpComplete p i)
  have "inv (snd (complete now p i s))" "(fst (complete now p i s), view (snd (complete now p i s))) = spec_complete p i (view s)"
    using complete_law [of s p now i] assms OpComplete by simp_all
  then show ?thesis using assms(3) OpComplete by (auto simp: spec_complete_def split: option.splits)
qed

lemma entry_permanent:
  assumes "inv s" "list_all (\<lambda>(now, x). plain_op x) xs" "view s k = Some e"
  shows "inv (apply_ops xs s) \<and> (\<exists>e'. view (apply_ops xs s) k = Some e' \<and> so_Request e' = so_Request e
    \<and> ((\<exists>r. so_Result e = Some r \<and> rs_State r \<noteq> ''unknown'') \<longrightarrow> (\<exists>r. so_Result e' = Some r \<and> rs_State r \<noteq> ''unknown'')))"
  using assms
proof (induction xs arbitrary: s e)
  case (Cons a xs)
  obtain now x where a: "a = (now, x)" by (cases a)
  have step: "inv (apply_op now x s) \<and> (\<exists>e'. view (apply_op now x s) k = Some e' \<and> so_Request e' = so_Request e
    \<and> ((\<exists>r. so_Result e = Some r \<and> rs_State r \<noteq> ''unknown'') \<longrightarrow> (\<exists>r. so_Result e' = Some r \<and> rs_State r \<noteq> ''unknown'')))"
    using entry_step Cons.prems a by simp
  then obtain e1 where e1: "view (apply_op now x s) k = Some e1" "so_Request e1 = so_Request e"
    "(\<exists>r. so_Result e = Some r \<and> rs_State r \<noteq> ''unknown'') \<longrightarrow> (\<exists>r. so_Result e1 = Some r \<and> rs_State r \<noteq> ''unknown'')" by blast
  have unfold: "apply_ops (a # xs) s = apply_ops xs (apply_op now x s)" by (simp add: apply_ops_def a)
  show ?case unfolding unfold using Cons.IH [of "apply_op now x s" e1] step e1 Cons.prems(2) by auto
qed (simp add: apply_ops_def)

text \<open>A request that was saved is loaded as it was saved, whatever happens to the store in between.\<close>

lemma saved_request_is_permanent:
  assumes "inv s" "wf_http_request q" "plain_id (hq_ProxyID q)" "view s (hq_ProxyID q, hq_RequestID q) = None"
    and "list_all (\<lambda>(now, x). plain_op x) xs"
  shows "\<exists>x. load (hq_ProxyID q) (hq_RequestID q) (apply_ops xs (snd (save now q s))) = Inr x \<and> canon_http_request (so_Request x) = canon_http_request q"
proof -
  have s1: "inv (snd (save now q s))" "view (snd (save now q s)) (hq_ProxyID q, hq_RequestID q) = Some (fresh_operation q)"
    using save_law [OF assms(1,3,2), of now] assms(4) by (auto simp: spec_save_def)
  let ?s' = "apply_ops xs (snd (save now q s))"
  obtain e' where e': "inv ?s'" "view ?s' (hq_ProxyID q, hq_RequestID q) = Some e'" "so_Request e' = canon_http_request q"
    using entry_permanent [OF s1(1) assms(5) s1(2)] by (auto simp: fresh_operation_def)
  have "map_sum id canon_operation (load (hq_ProxyID q) (hq_RequestID q) ?s') = Inr e'"
    using load_law [OF e'(1) assms(3)] e'(2) by (simp add: spec_load_def)
  then obtain x where "load (hq_ProxyID q) (hq_RequestID q) ?s' = Inr x" "canon_operation x = e'"
    by (cases "load (hq_ProxyID q) (hq_RequestID q) ?s'") auto
  then show ?thesis using e'(3) by (auto simp: canon_operation_def)
qed

end

subsection \<open>What a store of callbacks does, on its view\<close>

type_synonym callbacks_view = "string \<times> string \<Rightarrow> stored_callback option"

definition fresh_callback :: "webhook_event \<Rightarrow> stored_callback" where
  "fresh_callback e = \<lparr>sc_Event = canon_webhook_event e, sc_Response = None, sc_Completed = False\<rparr>"

definition spec_callback :: "webhook_event \<Rightarrow> callbacks_view \<Rightarrow> stored_callback go_result \<times> callbacks_view" where
  "spec_callback e v =
     (case v (ev_ProxyID e, ev_DeliveryID e) of
        None \<Rightarrow> (Inr (fresh_callback e), v((ev_ProxyID e, ev_DeliveryID e) \<mapsto> fresh_callback e))
      | Some x \<Rightarrow> (if sameCallbackEvent (sc_Event x) e then Inr x else Inl ErrRequestConflict, v))"

text \<open>
  A response is taken if the delivery is known, the event is the one delivered and no other response is
  stored; afterwards the stored response is the same as the given one.
\<close>

definition responds :: "string \<Rightarrow> webhook_response \<Rightarrow> callbacks_view \<Rightarrow> unit go_result \<Rightarrow> callbacks_view \<Rightarrow> bool" where
  "responds p r v res v' \<longleftrightarrow>
     (case v (p, wp_DeliveryID r) of
        None \<Rightarrow> res = Inl ErrOperationNotFound \<and> v' = v
      | Some x \<Rightarrow>
          if ev_EventID (sc_Event x) \<noteq> wp_EventID r \<or> (\<exists>r0. sc_Response x = Some r0 \<and> \<not> sameCallbackResponse r0 r)
          then res = Inl ErrRequestConflict \<and> v' = v
          else res = Inr () \<and> (\<exists>r1. v' = v((p, wp_DeliveryID r) \<mapsto> x\<lparr>sc_Response := Some r1\<rparr>) \<and> sameCallbackResponse r1 r))"

definition spec_finish :: "string \<Rightarrow> string \<Rightarrow> callbacks_view \<Rightarrow> unit go_result \<times> callbacks_view" where
  "spec_finish p i v =
     (case v (p, i) of
        None \<Rightarrow> (Inl ErrOperationNotFound, v)
      | Some x \<Rightarrow> (Inr (), v((p, i) \<mapsto> x\<lparr>sc_Completed := True\<rparr>)))"

definition plain_event :: "webhook_event \<Rightarrow> bool" where
  "plain_event e \<longleftrightarrow> plain_id (ev_ProxyID e) \<and> coerce_utf8 (ev_EventID e) = ev_EventID e"

definition plain_response :: "webhook_response \<Rightarrow> bool" where
  "plain_response r \<longleftrightarrow> in_int64 (wp_StatusCode r) \<and> coerce_utf8 (wp_EventID r) = wp_EventID r"

datatype callback_op =
    OpEvent webhook_event
  | OpRespond string webhook_response
  | OpFinish string string

fun plain_callback_op :: "callback_op \<Rightarrow> bool" where
  "plain_callback_op (OpEvent e) = plain_event e"
| "plain_callback_op (OpRespond p r) = (plain_id p \<and> plain_response r)"
| "plain_callback_op (OpFinish p i) = plain_id p"

locale callback_store =
  fixes inv :: "'s \<Rightarrow> bool"
    and view :: "'s \<Rightarrow> callbacks_view"
    and event :: "pg_time \<Rightarrow> webhook_event \<Rightarrow> 's \<Rightarrow> stored_callback go_result \<times> 's"
    and respond :: "pg_time \<Rightarrow> string \<Rightarrow> webhook_response \<Rightarrow> 's \<Rightarrow> unit go_result \<times> 's"
    and finish :: "pg_time \<Rightarrow> string \<Rightarrow> string \<Rightarrow> 's \<Rightarrow> unit go_result \<times> 's"
  assumes event_law: "inv s \<Longrightarrow> plain_event e \<Longrightarrow>
      inv (snd (event now e s)) \<and> (map_sum id canon_callback (fst (event now e s)), view (snd (event now e s))) = spec_callback e (view s)"
    and respond_law: "inv s \<Longrightarrow> plain_id p \<Longrightarrow> plain_response r \<Longrightarrow>
      inv (snd (respond now p r s)) \<and> responds p r (view s) (fst (respond now p r s)) (view (snd (respond now p r s)))"
    and finish_law: "inv s \<Longrightarrow> plain_id p \<Longrightarrow>
      inv (snd (finish now p i s)) \<and> (fst (finish now p i s), view (snd (finish now p i s))) = spec_finish p i (view s)"
begin

fun apply_callback :: "pg_time \<Rightarrow> callback_op \<Rightarrow> 's \<Rightarrow> 's" where
  "apply_callback now (OpEvent e) s = snd (event now e s)"
| "apply_callback now (OpRespond p r) s = snd (respond now p r s)"
| "apply_callback now (OpFinish p i) s = snd (finish now p i s)"

definition apply_callbacks :: "(pg_time \<times> callback_op) list \<Rightarrow> 's \<Rightarrow> 's" where
  "apply_callbacks xs s = fold (\<lambda>(now, x). apply_callback now x) xs s"

text \<open>No operation replaces an event, forgets or alters a response, or reopens a completed callback.\<close>

lemma callback_step:
  assumes "inv s" "plain_callback_op x" "view s k = Some e"
  shows "inv (apply_callback now x s) \<and> (\<exists>e'. view (apply_callback now x s) k = Some e' \<and> sc_Event e' = sc_Event e
    \<and> (sc_Completed e \<longrightarrow> sc_Completed e')
    \<and> (\<forall>r. sc_Response e = Some r \<longrightarrow> (\<exists>r'. sc_Response e' = Some r' \<and> sameCallbackResponse r r')))"
proof (cases x)
  case (OpEvent ev)
  have *: "inv (snd (event now ev s))" "view (snd (event now ev s)) = snd (spec_callback ev (view s))"
    using event_law [of s ev now] assms OpEvent by (simp_all add: prod_eq_iff)
  then have "view (snd (event now ev s)) k = Some e" using assms(3) by (auto simp: spec_callback_def split: option.splits)
  then show ?thesis using * OpEvent by (simp add: sameCallbackResponse_def jsonEqual_def)
next
  case (OpRespond p r)
  have "inv (snd (respond now p r s))" "responds p r (view s) (fst (respond now p r s)) (view (snd (respond now p r s)))"
    using respond_law [of s p r now] assms OpRespond by simp_all
  then show ?thesis using assms(3) OpRespond
    by (auto simp: responds_def sameCallbackResponse_def jsonEqual_def split: option.splits if_splits)
next
  case (OpFinish p i)
  have "inv (snd (finish now p i s))" "view (snd (finish now p i s)) = snd (spec_finish p i (view s))"
    using finish_law [of s p now i] assms OpFinish by (simp_all add: prod_eq_iff)
  then show ?thesis using assms(3) OpFinish
    by (auto simp: spec_finish_def sameCallbackResponse_def jsonEqual_def split: option.splits)
qed

lemma callback_permanent:
  assumes "inv s" "list_all (\<lambda>(now, x). plain_callback_op x) xs" "view s k = Some e"
  shows "inv (apply_callbacks xs s) \<and> (\<exists>e'. view (apply_callbacks xs s) k = Some e' \<and> sc_Event e' = sc_Event e
    \<and> (sc_Completed e \<longrightarrow> sc_Completed e')
    \<and> (\<forall>r. sc_Response e = Some r \<longrightarrow> (\<exists>r'. sc_Response e' = Some r' \<and> sameCallbackResponse r r')))"
  using assms
proof (induction xs arbitrary: s e)
  case Nil
  then show ?case by (simp add: apply_callbacks_def sameCallbackResponse_def jsonEqual_def)
next
  case (Cons a xs)
  obtain now x where a: "a = (now, x)" by (cases a)
  have x: "plain_callback_op x" using Cons.prems(2) a by simp
  obtain e1 where e1: "inv (apply_callback now x s)" "view (apply_callback now x s) k = Some e1" "sc_Event e1 = sc_Event e"
    "sc_Completed e \<longrightarrow> sc_Completed e1"
    "\<forall>r. sc_Response e = Some r \<longrightarrow> (\<exists>r'. sc_Response e1 = Some r' \<and> sameCallbackResponse r r')"
    using callback_step [OF Cons.prems(1) x Cons.prems(3), of now] by blast
  have unfold: "apply_callbacks (a # xs) s = apply_callbacks xs (apply_callback now x s)" by (simp add: apply_callbacks_def a)
  have rest: "inv (apply_callbacks xs (apply_callback now x s)) \<and> (\<exists>e'. view (apply_callbacks xs (apply_callback now x s)) k = Some e'
      \<and> sc_Event e' = sc_Event e1 \<and> (sc_Completed e1 \<longrightarrow> sc_Completed e')
      \<and> (\<forall>r. sc_Response e1 = Some r \<longrightarrow> (\<exists>r'. sc_Response e' = Some r' \<and> sameCallbackResponse r r')))"
    using Cons.IH [OF e1(1) _ e1(2)] Cons.prems(2) by simp
  have trans: "sameCallbackResponse a b \<Longrightarrow> sameCallbackResponse b c \<Longrightarrow> sameCallbackResponse a c" for a b c
    by (simp add: sameCallbackResponse_def jsonEqual_def)
  from rest obtain e' where e': "view (apply_callbacks xs (apply_callback now x s)) k = Some e'" "sc_Event e' = sc_Event e1"
    "sc_Completed e1 \<longrightarrow> sc_Completed e'"
    "\<forall>r. sc_Response e1 = Some r \<longrightarrow> (\<exists>r'. sc_Response e' = Some r' \<and> sameCallbackResponse r r')" by blast
  have "\<forall>r. sc_Response e = Some r \<longrightarrow> (\<exists>r'. sc_Response e' = Some r' \<and> sameCallbackResponse r r')"
    using e1(5) e'(4) trans by blast
  then show ?case unfolding unfold using rest e1(3,4) e'(1,2,3) by simp
qed

text \<open>Two responses that were both taken for a delivery are the same.\<close>

lemma one_response:
  assumes "inv s" "plain_id p" "plain_response r1" "plain_response r2" "wp_DeliveryID r2 = wp_DeliveryID r1"
    and "list_all (\<lambda>(now, x). plain_callback_op x) xs"
    and "is_ok (fst (respond t1 p r1 s))" "is_ok (fst (respond t2 p r2 (apply_callbacks xs (snd (respond t1 p r1 s)))))"
  shows "sameCallbackResponse r1 r2"
proof -
  let ?s1 = "snd (respond t1 p r1 s)"
  have l1: "inv ?s1" "responds p r1 (view s) (fst (respond t1 p r1 s)) (view ?s1)"
    using respond_law [of s p r1 t1] assms by simp_all
  then obtain e where e: "view ?s1 (p, wp_DeliveryID r1) = Some e" "\<exists>r. sc_Response e = Some r \<and> sameCallbackResponse r r1"
    using assms(7) by (auto simp: responds_def is_ok_def split: option.splits if_splits)
  obtain e' where e': "inv (apply_callbacks xs ?s1)" "view (apply_callbacks xs ?s1) (p, wp_DeliveryID r1) = Some e'"
    "\<exists>r. sc_Response e' = Some r \<and> sameCallbackResponse r1 r"
    using callback_permanent [OF l1(1) assms(6) e(1)] e(2) by (auto simp: sameCallbackResponse_def jsonEqual_def)
  have "responds p r2 (view (apply_callbacks xs ?s1)) (fst (respond t2 p r2 (apply_callbacks xs ?s1))) (view (snd (respond t2 p r2 (apply_callbacks xs ?s1))))"
    using respond_law [of "apply_callbacks xs ?s1" p r2 t2] e'(1) assms by simp
  then show ?thesis using e'(2,3) assms(5,8)
    by (auto simp: responds_def is_ok_def sameCallbackResponse_def jsonEqual_def split: option.splits if_splits)
qed

end

end
