(* ===== verification/Memory_Store.thy ===== *)
theory Memory_Store
  imports Client_Store
begin

text \<open>
  \<^verbatim>\<open>client/memory_store.go\<close>: the store that keeps operations and callbacks in two Go maps, and that it
  provides the interfaces of \<open>Client_Store\<close>. The order in which a Go map is ranged over is not specified,
  so the listings take it as an argument. The mutex makes every operation one step.
\<close>

record memory_store =
  ms_Operations :: "string \<rightharpoonup> stored_operation"
  ms_Callbacks :: "string \<rightharpoonup> stored_callback"

definition NewMemoryStore :: memory_store where
  "NewMemoryStore = \<lparr>ms_Operations = Map.empty, ms_Callbacks = Map.empty\<rparr>"

definition storeKey :: "string \<Rightarrow> string \<Rightarrow> string" where
  "storeKey proxyID i = proxyID @ [byte_of 0] @ i"

subsection \<open>Callbacks\<close>

definition mem_SaveCallback :: "webhook_event \<Rightarrow> memory_store \<Rightarrow> stored_callback go_result \<times> memory_store" where
  "mem_SaveCallback event s =
     (let key = storeKey (ev_ProxyID event) (ev_DeliveryID event)
      in case ms_Callbacks s key of
           Some stored \<Rightarrow> (if \<not> sameCallbackEvent (sc_Event stored) event then Inl ErrRequestConflict else Inr stored, s)
         | None \<Rightarrow>
             let stored = \<lparr>sc_Event = event, sc_Response = None, sc_Completed = False\<rparr>
             in (Inr stored, s\<lparr>ms_Callbacks := (ms_Callbacks s)(key \<mapsto> stored)\<rparr>))"

definition mem_SaveCallbackResponse :: "string \<Rightarrow> webhook_response \<Rightarrow> memory_store \<Rightarrow> unit go_result \<times> memory_store" where
  "mem_SaveCallbackResponse proxyID response s =
     (let key = storeKey proxyID (wp_DeliveryID response)
      in case ms_Callbacks s key of
           None \<Rightarrow> (Inl ErrOperationNotFound, s)
         | Some stored \<Rightarrow>
             if ev_EventID (sc_Event stored) \<noteq> wp_EventID response then (Inl ErrRequestConflict, s)
             else if (case sc_Response stored of None \<Rightarrow> False | Some old \<Rightarrow> \<not> sameCallbackResponse old response)
             then (Inl ErrRequestConflict, s)
             else (Inr (), s\<lparr>ms_Callbacks := (ms_Callbacks s)(key \<mapsto> stored\<lparr>sc_Response := Some response\<rparr>)\<rparr>))"

text \<open>The loop of the two listings: values are appended until their number is the limit.\<close>

fun collect_until :: "int \<Rightarrow> ('v \<Rightarrow> bool) \<Rightarrow> 'v list \<Rightarrow> 'v list \<Rightarrow> 'v list" where
  "collect_until limit p acc [] = acc"
| "collect_until limit p acc (v # vs) =
     (if p v then (if int (length (acc @ [v])) = limit then acc @ [v] else collect_until limit p (acc @ [v]) vs)
      else collect_until limit p acc vs)"

definition ranged :: "string list \<Rightarrow> (string \<rightharpoonup> 'v) \<Rightarrow> 'v list" where
  "ranged order m = List.map_filter m order"

definition mem_ListPendingCallbacks :: "string list \<Rightarrow> string \<Rightarrow> int \<Rightarrow> memory_store \<Rightarrow> stored_callback list" where
  "mem_ListPendingCallbacks order proxyID limit s =
     (let limit' = (if limit \<le> 0 then 1000 else limit)
      in collect_until limit' (\<lambda>v. ev_ProxyID (sc_Event v) = proxyID \<and> \<not> sc_Completed v) [] (ranged order (ms_Callbacks s)))"

definition mem_MarkCallbackComplete :: "string \<Rightarrow> string \<Rightarrow> memory_store \<Rightarrow> unit go_result \<times> memory_store" where
  "mem_MarkCallbackComplete proxyID deliveryID s =
     (let key = storeKey proxyID deliveryID
      in case ms_Callbacks s key of
           None \<Rightarrow> (Inl ErrOperationNotFound, s)
         | Some stored \<Rightarrow> (Inr (), s\<lparr>ms_Callbacks := (ms_Callbacks s)(key \<mapsto> stored\<lparr>sc_Completed := True\<rparr>)\<rparr>))"

subsection \<open>Operations\<close>

definition mem_SaveOutgoing :: "http_request \<Rightarrow> memory_store \<Rightarrow> unit go_result \<times> memory_store" where
  "mem_SaveOutgoing request s =
     (let key = storeKey (hq_ProxyID request) (hq_RequestID request)
      in case ms_Operations s key of
           Some existing \<Rightarrow> (if sameRequest (so_Request existing) request then Inr () else Inl ErrRequestConflict, s)
         | None \<Rightarrow> (Inr (), s\<lparr>ms_Operations := (ms_Operations s)(key \<mapsto>
                      \<lparr>so_Request = request, so_Result = None, so_State = StateOutgoing\<rparr>)\<rparr>))"

definition mem_Load :: "string \<Rightarrow> string \<Rightarrow> memory_store \<Rightarrow> stored_operation go_result" where
  "mem_Load proxyID i s =
     (case ms_Operations s (storeKey proxyID i) of None \<Rightarrow> Inl ErrOperationNotFound | Some v \<Rightarrow> Inr v)"

definition mem_ListPending :: "string list \<Rightarrow> string \<Rightarrow> int \<Rightarrow> memory_store \<Rightarrow> stored_operation list" where
  "mem_ListPending order proxyID limit s =
     collect_until limit (\<lambda>v. hq_ProxyID (so_Request v) = proxyID \<and> so_State v \<noteq> StateComplete) [] (ranged order (ms_Operations s))"

definition mem_MarkAccepted :: "string \<Rightarrow> string \<Rightarrow> memory_store \<Rightarrow> unit go_result \<times> memory_store" where
  "mem_MarkAccepted proxyID i s =
     (let key = storeKey proxyID i
      in case ms_Operations s key of
           None \<Rightarrow> (Inl ErrOperationNotFound, s)
         | Some v \<Rightarrow> (Inr (), s\<lparr>ms_Operations := (ms_Operations s)(key \<mapsto> v\<lparr>so_State := StateAccepted\<rparr>)\<rparr>))"

definition mem_SaveResult :: "string \<Rightarrow> http_result \<Rightarrow> memory_store \<Rightarrow> http_result go_result \<times> memory_store" where
  "mem_SaveResult proxyID result s =
     (let key = storeKey proxyID (rs_RequestID result)
      in case ms_Operations s key of
           None \<Rightarrow> (Inl ErrOperationNotFound, s)
         | Some v \<Rightarrow>
             if rs_ProxyID result \<noteq> proxyID then (Inl ErrRequestConflict, s)
             else (let store = (Inr result, s\<lparr>ms_Operations := (ms_Operations s)(key \<mapsto>
                                 v\<lparr>so_Result := Some result, so_State := StateResultSaved\<rparr>)\<rparr>)
                   in case so_Result v of
                        None \<Rightarrow> store
                      | Some old \<Rightarrow> if rs_State old \<noteq> ''unknown'' \<and> rs_State result = ''unknown'' then (Inr old, s) else store))"

definition mem_MarkComplete :: "string \<Rightarrow> string \<Rightarrow> memory_store \<Rightarrow> unit go_result \<times> memory_store" where
  "mem_MarkComplete proxyID i s =
     (let key = storeKey proxyID i
      in case ms_Operations s key of
           None \<Rightarrow> (Inl ErrOperationNotFound, s)
         | Some v \<Rightarrow> (Inr (), s\<lparr>ms_Operations := (ms_Operations s)(key \<mapsto> v\<lparr>so_State := StateComplete\<rparr>)\<rparr>))"

subsection \<open>Keys and listings\<close>

text \<open>Proxy identifiers without a NUL byte make the keys unambiguous.\<close>

lemma storeKey_eq_iff:
  assumes "byte_of 0 \<notin> set p" "byte_of 0 \<notin> set p'"
  shows "storeKey p i = storeKey p' i' \<longleftrightarrow> p = p' \<and> i = i'"
proof
  assume eq: "storeKey p i = storeKey p' i'"
  have "p = takeWhile (\<lambda>c. c \<noteq> byte_of 0) (storeKey p i)" if "byte_of 0 \<notin> set p" for p i
    unfolding storeKey_def using that by (subst takeWhile_append2) auto
  then have "p = p'" using assms eq by metis
  then show "p = p' \<and> i = i'" using eq by (simp add: storeKey_def)
qed simp

lemma collect_until_take:
  "int (length acc) < limit \<Longrightarrow> collect_until limit p acc vs = acc @ take (nat limit - length acc) (filter p vs)"
proof (induction vs arbitrary: acc)
  case (Cons v vs)
  then show ?case
  proof (cases "p v \<and> int (length (acc @ [v])) \<noteq> limit")
    case True
    then have "nat limit - length acc = Suc (nat limit - length (acc @ [v]))" using Cons.prems by simp
    then show ?thesis using True Cons.IH [of "acc @ [v]"] Cons.prems by simp
  next
    case False
    have "nat limit - length acc = 1" if "int (length (acc @ [v])) = limit" using that by simp
    then show ?thesis using False Cons.IH [of acc] Cons.prems by auto
  qed
qed simp

lemma collect_until_all: "limit \<le> int (length acc) \<Longrightarrow> collect_until limit p acc vs = acc @ filter p vs"
  by (induction vs arbitrary: acc) auto

subsection \<open>The interfaces\<close>

definition mem_inv :: "memory_store \<Rightarrow> bool" where
  "mem_inv s \<longleftrightarrow> (\<forall>k x. ms_Operations s k = Some x \<longrightarrow>
     k = storeKey (hq_ProxyID (so_Request x)) (hq_RequestID (so_Request x)) \<and> byte_of 0 \<notin> set (hq_ProxyID (so_Request x))
     \<and> (\<forall>r. so_Result x = Some r \<longrightarrow> coerce_utf8 (rs_State r) = rs_State r))"

definition mem_view :: "memory_store \<Rightarrow> operations_view" where
  "mem_view s = (\<lambda>(p, i). if byte_of 0 \<in> set p then None else map_option canon_operation (ms_Operations s (storeKey p i)))"

lemma mem_view_upd:
  assumes "byte_of 0 \<notin> set p"
  shows "mem_view (s\<lparr>ms_Operations := (ms_Operations s)(storeKey p i \<mapsto> x)\<rparr>) = (mem_view s)((p, i) \<mapsto> canon_operation x)"
  using assms by (auto simp: mem_view_def fun_eq_iff storeKey_eq_iff)

lemma mem_view_at: "plain_id p \<Longrightarrow> mem_view s (p, i) = map_option canon_operation (ms_Operations s (storeKey p i))"
  by (simp add: mem_view_def plain_id_def)

lemmas mem_operations = mem_SaveOutgoing_def mem_Load_def mem_MarkAccepted_def mem_SaveResult_def mem_MarkComplete_def

lemma mem_inv_upd:
  "mem_inv s \<Longrightarrow> k = storeKey (hq_ProxyID (so_Request x)) (hq_RequestID (so_Request x)) \<Longrightarrow> byte_of 0 \<notin> set (hq_ProxyID (so_Request x)) \<Longrightarrow>
   (\<And>r. so_Result x = Some r \<Longrightarrow> coerce_utf8 (rs_State r) = rs_State r) \<Longrightarrow>
   mem_inv (s\<lparr>ms_Operations := (ms_Operations s)(k \<mapsto> x)\<rparr>)"
  by (auto simp: mem_inv_def)

lemma mem_keys:
  assumes "mem_inv s" "plain_id p" "ms_Operations s (storeKey p i) = Some x"
  shows "hq_ProxyID (so_Request x) = p \<and> hq_RequestID (so_Request x) = i"
proof -
  have "storeKey p i = storeKey (hq_ProxyID (so_Request x)) (hq_RequestID (so_Request x))" "byte_of 0 \<notin> set (hq_ProxyID (so_Request x))"
    using assms(1,3) unfolding mem_inv_def by blast+
  then show ?thesis using assms(2) storeKey_eq_iff by (simp add: plain_id_def)
qed

interpretation mem: client_store mem_inv mem_view "\<lambda>_. mem_SaveOutgoing" mem_Load "\<lambda>_. mem_MarkAccepted" "\<lambda>_. mem_SaveResult" "\<lambda>_. mem_MarkComplete"
proof
  fix s :: memory_store and q :: http_request and p i :: string and r :: http_result and now :: pg_time
  assume inv: "mem_inv s"
  { assume "plain_id (hq_ProxyID q)"
    then show "mem_inv (snd (mem_SaveOutgoing q s)) \<and>
        (fst (mem_SaveOutgoing q s), mem_view (snd (mem_SaveOutgoing q s))) = spec_save q (mem_view s)"
      using inv mem_view_at [of "hq_ProxyID q" s "hq_RequestID q"]
      by (auto simp: mem_SaveOutgoing_def spec_save_def Let_def mem_view_upd plain_id_def sameRequest_canon
            canon_operation_def fresh_operation_def intro!: mem_inv_upd split: option.splits) }
  { assume p: "plain_id p"
    show "map_sum id canon_operation (mem_Load p i s) = spec_load p i (mem_view s)"
      using mem_view_at [OF p] by (simp add: mem_Load_def spec_load_def split: option.splits)
    show "hq_ProxyID (so_Request x) = p \<and> hq_RequestID (so_Request x) = i" if "mem_Load p i s = Inr x" for x
      using that mem_keys [OF inv p] by (simp add: mem_Load_def split: option.splits)
    show "mem_inv (snd (mem_MarkAccepted p i s)) \<and> accepts p i (mem_view s) (fst (mem_MarkAccepted p i s)) (mem_view (snd (mem_MarkAccepted p i s)))"
      using inv p mem_view_at [OF p, of s i]
      by (auto simp: mem_MarkAccepted_def accepts_def Let_def mem_view_upd plain_id_def
            intro!: mem_inv_upd exI [of _ StateAccepted] split: option.splits) (auto simp: mem_inv_def)
    show "mem_inv (snd (mem_MarkComplete p i s)) \<and>
        (fst (mem_MarkComplete p i s), mem_view (snd (mem_MarkComplete p i s))) = spec_complete p i (mem_view s)"
      using inv p mem_view_at [OF p, of s i]
      by (auto simp: mem_MarkComplete_def spec_complete_def Let_def mem_view_upd plain_id_def
            intro!: mem_inv_upd split: option.splits) (auto simp: mem_inv_def)
    assume r: "plain_result r"
    { assume pr: "rs_ProxyID r = p"
      show "mem_inv (snd (mem_SaveResult p r s)) \<and>
          (map_sum id canon_http_result (fst (mem_SaveResult p r s)), mem_view (snd (mem_SaveResult p r s))) = spec_result p r (mem_view s)"
      proof (cases "ms_Operations s (storeKey p (rs_RequestID r))")
        case None
        then show ?thesis using inv mem_view_at [OF p] pr by (simp add: mem_SaveResult_def spec_result_def)
      next
        case (Some x)
        have old: "rs_State (canon_http_result r0) = rs_State r0" if "so_Result x = Some r0" for r0
          using inv Some that by (simp add: mem_inv_def)
        have known: "keeps_known (canon_operation x) r \<longleftrightarrow> (case so_Result x of None \<Rightarrow> False | Some r0 \<Rightarrow> rs_State r0 \<noteq> ''unknown'' \<and> rs_State r = ''unknown'')"
          using old by (auto simp: keeps_known_def split: option.splits)
        have inv': "mem_inv (s\<lparr>ms_Operations := (ms_Operations s)(storeKey p (rs_RequestID r) \<mapsto> x\<lparr>so_Result := Some r, so_State := StateResultSaved\<rparr>)\<rparr>)"
          using r inv Some by (intro mem_inv_upd inv) (auto simp: plain_result_def mem_inv_def)
        show ?thesis using mem_view_at [OF p, of s] p pr Some inv inv' known
          by (auto simp: mem_SaveResult_def spec_result_def Let_def mem_view_upd plain_id_def split: option.splits)
      qed }
    { assume "rs_ProxyID r \<noteq> p"
      then show "\<not> is_ok (fst (mem_SaveResult p r s)) \<and> snd (mem_SaveResult p r s) = s"
        by (simp add: mem_SaveResult_def is_ok_def Let_def split: option.splits) } }
qed

definition mem_callbacks_inv :: "memory_store \<Rightarrow> bool" where
  "mem_callbacks_inv s \<longleftrightarrow> (\<forall>k x. ms_Callbacks s k = Some x \<longrightarrow> coerce_utf8 (ev_EventID (sc_Event x)) = ev_EventID (sc_Event x))"

definition mem_callbacks_view :: "memory_store \<Rightarrow> callbacks_view" where
  "mem_callbacks_view s = (\<lambda>(p, i). if byte_of 0 \<in> set p then None else map_option canon_callback (ms_Callbacks s (storeKey p i)))"

lemma mem_callbacks_view_upd:
  assumes "byte_of 0 \<notin> set p"
  shows "mem_callbacks_view (s\<lparr>ms_Callbacks := (ms_Callbacks s)(storeKey p i \<mapsto> x)\<rparr>) = (mem_callbacks_view s)((p, i) \<mapsto> canon_callback x)"
  using assms by (auto simp: mem_callbacks_view_def fun_eq_iff storeKey_eq_iff)

lemma mem_callbacks_view_at: "plain_id p \<Longrightarrow> mem_callbacks_view s (p, i) = map_option canon_callback (ms_Callbacks s (storeKey p i))"
  by (simp add: mem_callbacks_view_def plain_id_def)

interpretation mem_callbacks: callback_store mem_callbacks_inv mem_callbacks_view
  "\<lambda>_. mem_SaveCallback" "\<lambda>_. mem_SaveCallbackResponse" "\<lambda>_. mem_MarkCallbackComplete"
proof
  fix s :: memory_store and e :: webhook_event and p i :: string and r :: webhook_response and now :: pg_time
  assume inv: "mem_callbacks_inv s"
  { assume e: "plain_event e"
    then show "mem_callbacks_inv (snd (mem_SaveCallback e s)) \<and>
        (map_sum id canon_callback (fst (mem_SaveCallback e s)), mem_callbacks_view (snd (mem_SaveCallback e s))) = spec_callback e (mem_callbacks_view s)"
      using inv mem_callbacks_view_at [of "ev_ProxyID e" s "ev_DeliveryID e"]
      by (auto simp: mem_SaveCallback_def spec_callback_def Let_def mem_callbacks_view_upd plain_event_def plain_id_def sameCallbackEvent_canon
            canon_callback_def fresh_callback_def mem_callbacks_inv_def split: option.splits) }
  { assume p: "plain_id p"
    show "mem_callbacks_inv (snd (mem_MarkCallbackComplete p i s)) \<and>
        (fst (mem_MarkCallbackComplete p i s), mem_callbacks_view (snd (mem_MarkCallbackComplete p i s))) = spec_finish p i (mem_callbacks_view s)"
      using inv p mem_callbacks_view_at [OF p, of s i]
      by (auto simp: mem_MarkCallbackComplete_def spec_finish_def Let_def mem_callbacks_view_upd plain_id_def mem_callbacks_inv_def split: option.splits)
    assume r: "plain_response r"
    show "mem_callbacks_inv (snd (mem_SaveCallbackResponse p r s)) \<and>
        responds p r (mem_callbacks_view s) (fst (mem_SaveCallbackResponse p r s)) (mem_callbacks_view (snd (mem_SaveCallbackResponse p r s)))"
    proof (cases "ms_Callbacks s (storeKey p (wp_DeliveryID r))")
      case None
      then show ?thesis using inv mem_callbacks_view_at [OF p] by (simp add: mem_SaveCallbackResponse_def responds_def)
    next
      case (Some x)
      have view: "mem_callbacks_view s (p, wp_DeliveryID r) = Some (canon_callback x)"
        using mem_callbacks_view_at [OF p] Some by simp
      let ?bad = "ev_EventID (sc_Event x) \<noteq> wp_EventID r \<or> (case sc_Response x of None \<Rightarrow> False | Some old \<Rightarrow> \<not> sameCallbackResponse old r)"
      have bad: "(ev_EventID (sc_Event (canon_callback x)) \<noteq> wp_EventID r \<or> (\<exists>r0. sc_Response (canon_callback x) = Some r0 \<and> \<not> sameCallbackResponse r0 r)) = ?bad"
        using inv Some by (auto simp: mem_callbacks_inv_def canon_webhook_event_def sameCallbackResponse_canon split: option.splits)
      have refl: "sameCallbackResponse (canon_webhook_response r) r"
        by (simp add: sameCallbackResponse_canon) (simp add: sameCallbackResponse_def jsonEqual_def)
      have inv': "mem_callbacks_inv (s\<lparr>ms_Callbacks := (ms_Callbacks s)(storeKey p (wp_DeliveryID r) \<mapsto> x\<lparr>sc_Response := Some r\<rparr>)\<rparr>)"
        using inv Some by (auto simp: mem_callbacks_inv_def)
      have new: "mem_callbacks_view (s\<lparr>ms_Callbacks := (ms_Callbacks s)(storeKey p (wp_DeliveryID r) \<mapsto> x\<lparr>sc_Response := Some r\<rparr>)\<rparr>)
          = (mem_callbacks_view s)((p, wp_DeliveryID r) \<mapsto> (canon_callback x)\<lparr>sc_Response := Some (canon_webhook_response r)\<rparr>)"
        using mem_callbacks_view_upd [of p s] p by (simp add: plain_id_def)
      show ?thesis
      proof (cases ?bad)
        case True
        then have "mem_SaveCallbackResponse p r s = (Inl ErrRequestConflict, s)"
          by (auto simp: mem_SaveCallbackResponse_def Some)
        then show ?thesis using inv True unfolding responds_def view option.case bad by simp
      next
        case False
        then have "mem_SaveCallbackResponse p r s
            = (Inr (), s\<lparr>ms_Callbacks := (ms_Callbacks s)(storeKey p (wp_DeliveryID r) \<mapsto> x\<lparr>sc_Response := Some r\<rparr>)\<rparr>)"
          by (auto simp: mem_SaveCallbackResponse_def Some)
        then show ?thesis using inv' new refl False unfolding responds_def view option.case bad by auto
      qed
    qed }
qed

end
