(* ===== verification/Postgres_Store.thy ===== *)
theory Postgres_Store
  imports Client_Store Sql_Table
begin

text \<open>
  \<^verbatim>\<open>client/postgres_store.go\<close>: the durable store of the client library over two tables, and that it
  provides the interfaces of \<open>Client_Store\<close>. Every operation is a function of the two tables and of the
  database clock; a jsonb column holds a JSON value and a NULL is \<open>None\<close>.
\<close>

record operation_row =
  or_proxy_id :: string
  or_request_id :: string
  or_request :: json
  or_result :: "json option"
  or_state :: client_state
  or_created_at :: pg_time
  or_updated_at :: pg_time

record callback_row =
  cb_proxy_id :: string
  cb_delivery_id :: string
  cb_event :: json
  cb_response :: "json option"
  cb_completed :: bool
  cb_created_at :: pg_time
  cb_updated_at :: pg_time

record client_db =
  cd_operations :: "operation_row list"
  cd_callbacks :: "callback_row list"

abbreviation or_key :: "operation_row \<Rightarrow> string \<times> string" where
  "or_key r \<equiv> (or_proxy_id r, or_request_id r)"

abbreviation cb_key :: "callback_row \<Rightarrow> string \<times> string" where
  "cb_key r \<equiv> (cb_proxy_id r, cb_delivery_id r)"

subsection \<open>Table names\<close>

definition prefix_start :: "char \<Rightarrow> bool" where
  "prefix_start c \<longleftrightarrow> c \<in> set ''abcdefghijklmnopqrstuvwxyzABCDEFGHIJKLMNOPQRSTUVWXYZ_''"

definition prefix_char :: "char \<Rightarrow> bool" where
  "prefix_char c \<longleftrightarrow> prefix_start c \<or> c \<in> set ''0123456789''"

definition WithTablePrefix :: "string \<Rightarrow> string go_result" where
  "WithTablePrefix p =
     (case p of
        [] \<Rightarrow> Inl (ErrText ''table prefix must contain only letters, digits and underscores and cannot start with a digit'')
      | c # cs \<Rightarrow>
          if prefix_start c \<and> list_all prefix_char cs then Inr p
          else Inl (ErrText ''table prefix must contain only letters, digits and underscores and cannot start with a digit''))"

definition quoteIdentifier :: "string \<Rightarrow> string" where
  "quoteIdentifier v = [CHR 0x22] @ concat (map (\<lambda>c. if c = CHR 0x22 then [c, c] else [c]) v) @ [CHR 0x22]"

subsection \<open>Reading rows\<close>

text \<open>\<^verbatim>\<open>COALESCE(x,'null'::jsonb)\<close>, then the decoding of everything but \<^verbatim>\<open>null\<close>.\<close>

definition read_optional :: "(json \<Rightarrow> 'a option) \<Rightarrow> json option \<Rightarrow> 'a option go_result" where
  "read_optional unmarshal column =
     (let j = coalesce column JNull
      in if j = JNull then Inr None else case unmarshal j of None \<Rightarrow> Inl ErrJSON | Some v \<Rightarrow> Inr (Some v))"

definition read_operation :: "operation_row \<Rightarrow> stored_operation go_result" where
  "read_operation r =
     (case unmarshal_http_request (or_request r) of
        None \<Rightarrow> Inl ErrJSON
      | Some q \<Rightarrow> go_try (read_optional unmarshal_http_result (or_result r))
                   (\<lambda>res. Inr \<lparr>so_Request = q, so_Result = res, so_State = or_state r\<rparr>))"

definition read_callback :: "callback_row \<Rightarrow> stored_callback go_result" where
  "read_callback r =
     (case unmarshal_webhook_event (cb_event r) of
        None \<Rightarrow> Inl ErrJSON
      | Some e \<Rightarrow> go_try (read_optional unmarshal_webhook_response (cb_response r))
                   (\<lambda>p. Inr \<lparr>sc_Event = e, sc_Response = p, sc_Completed = cb_completed r\<rparr>))"

fun read_rows :: "('r \<Rightarrow> 'v go_result) \<Rightarrow> 'r list \<Rightarrow> 'v list go_result" where
  "read_rows f [] = Inr []"
| "read_rows f (r # rs) = go_try (f r) (\<lambda>v. go_try (read_rows f rs) (\<lambda>vs. Inr (v # vs)))"

subsection \<open>Operations\<close>

definition pg_SaveOutgoing :: "pg_time \<Rightarrow> http_request \<Rightarrow> client_db \<Rightarrow> unit go_result \<times> client_db" where
  "pg_SaveOutgoing now request db =
     (case row_by or_key (hq_ProxyID request, hq_RequestID request) (cd_operations db) of
        None \<Rightarrow> (Inr (), db\<lparr>cd_operations := insert_row
                  \<lparr>or_proxy_id = hq_ProxyID request, or_request_id = hq_RequestID request, or_request = marshal_http_request request,
                   or_result = None, or_state = StateOutgoing, or_created_at = now, or_updated_at = now\<rparr> (cd_operations db)\<rparr>)
      | Some r \<Rightarrow>
          (case unmarshal_http_request (or_request r) of
             None \<Rightarrow> (Inl ErrRequestConflict, db)
           | Some saved \<Rightarrow> (if \<not> sameRequest saved request then Inl ErrRequestConflict else Inr (), db)))"

definition pg_Load :: "string \<Rightarrow> string \<Rightarrow> client_db \<Rightarrow> stored_operation go_result" where
  "pg_Load proxyID i db =
     (case row_by or_key (proxyID, i) (cd_operations db) of
        None \<Rightarrow> Inl ErrOperationNotFound
      | Some r \<Rightarrow> read_operation r)"

definition pg_limit :: "int \<Rightarrow> nat" where
  "pg_limit limit = (if limit \<le> 0 then 1000 else nat limit)"

definition pg_ListPending :: "string \<Rightarrow> int \<Rightarrow> client_db \<Rightarrow> stored_operation list go_result" where
  "pg_ListPending proxyID limit db =
     read_rows read_operation (order_limit or_created_at (pg_limit limit)
       (select_where (\<lambda>r. or_proxy_id r = proxyID \<and> or_state r \<noteq> StateComplete) (cd_operations db)))"

definition pg_MarkAccepted :: "pg_time \<Rightarrow> string \<Rightarrow> string \<Rightarrow> client_db \<Rightarrow> unit go_result \<times> client_db" where
  "pg_MarkAccepted now proxyID i db =
     (let p = (\<lambda>r. or_proxy_id r = proxyID \<and> or_request_id r = i);
          db' = db\<lparr>cd_operations := update_where p
                  (\<lambda>r. r\<lparr>or_state := if or_state r = StateOutgoing then StateAccepted else or_state r, or_updated_at := now\<rparr>)
                  (cd_operations db)\<rparr>
      in if rows_affected p (cd_operations db) = 0 then (Inl ErrOperationNotFound, db') else (Inr (), db'))"

definition pg_SaveResult :: "pg_time \<Rightarrow> string \<Rightarrow> http_result \<Rightarrow> client_db \<Rightarrow> http_result go_result \<times> client_db" where
  "pg_SaveResult now proxyID result db =
     (if rs_ProxyID result \<noteq> proxyID then (Inl ErrRequestConflict, db)
      else case row_by or_key (proxyID, rs_RequestID result) (cd_operations db) of
             None \<Rightarrow> (Inl ErrOperationNotFound, db)
           | Some r \<Rightarrow>
               (case read_optional unmarshal_http_result (or_result r) of
                  Inl e \<Rightarrow> (Inl e, db)
                | Inr current \<Rightarrow>
                    (let store = (Inr result, db\<lparr>cd_operations := update_where
                           (\<lambda>r. or_proxy_id r = proxyID \<and> or_request_id r = rs_RequestID result)
                           (\<lambda>r. r\<lparr>or_result := Some (marshal_http_result result), or_state := StateResultSaved, or_updated_at := now\<rparr>)
                           (cd_operations db)\<rparr>)
                     in case current of
                          None \<Rightarrow> store
                        | Some existing \<Rightarrow>
                            if rs_State existing \<noteq> ''unknown'' \<and> rs_State result = ''unknown'' then (Inr existing, db) else store)))"

definition pg_MarkComplete :: "pg_time \<Rightarrow> string \<Rightarrow> string \<Rightarrow> client_db \<Rightarrow> unit go_result \<times> client_db" where
  "pg_MarkComplete now proxyID i db =
     (let p = (\<lambda>r. or_proxy_id r = proxyID \<and> or_request_id r = i);
          db' = db\<lparr>cd_operations := update_where p (\<lambda>r. r\<lparr>or_state := StateComplete, or_updated_at := now\<rparr>) (cd_operations db)\<rparr>
      in if rows_affected p (cd_operations db) = 0 then (Inl ErrOperationNotFound, db') else (Inr (), db'))"

subsection \<open>Callbacks\<close>

definition pg_SaveCallback :: "pg_time \<Rightarrow> webhook_event \<Rightarrow> client_db \<Rightarrow> stored_callback go_result \<times> client_db" where
  "pg_SaveCallback now event db =
     (let key = (ev_ProxyID event, ev_DeliveryID event);
          db' = (if row_exists (\<lambda>r. cb_key r = key) (cd_callbacks db) then db
                 else db\<lparr>cd_callbacks := insert_row
                        \<lparr>cb_proxy_id = ev_ProxyID event, cb_delivery_id = ev_DeliveryID event, cb_event = marshal_webhook_event event,
                         cb_response = None, cb_completed = False, cb_created_at = now, cb_updated_at = now\<rparr> (cd_callbacks db)\<rparr>)
      in case row_by cb_key key (cd_callbacks db') of
           None \<Rightarrow> (Inl ErrNoRows, db')
         | Some r \<Rightarrow>
             (case unmarshal_webhook_event (cb_event r) of
                None \<Rightarrow> (Inl ErrJSON, db')
              | Some e \<Rightarrow> if \<not> sameCallbackEvent e event then (Inl ErrRequestConflict, db') else (read_callback r, db')))"

definition pg_SaveCallbackResponse :: "pg_time \<Rightarrow> string \<Rightarrow> webhook_response \<Rightarrow> client_db \<Rightarrow> unit go_result \<times> client_db" where
  "pg_SaveCallbackResponse now proxyID response db =
     (case row_by cb_key (proxyID, wp_DeliveryID response) (cd_callbacks db) of
        None \<Rightarrow> (Inl ErrOperationNotFound, db)
      | Some r \<Rightarrow>
          (case unmarshal_webhook_event (cb_event r) of
             None \<Rightarrow> (Inl ErrRequestConflict, db)
           | Some event \<Rightarrow>
               if ev_ProxyID event \<noteq> proxyID \<or> ev_EventID event \<noteq> wp_EventID response then (Inl ErrRequestConflict, db)
               else (case read_optional unmarshal_webhook_response (cb_response r) of
                       Inl e \<Rightarrow> (Inl ErrRequestConflict, db)
                     | Inr (Some stored) \<Rightarrow> (if \<not> sameCallbackResponse stored response then Inl ErrRequestConflict else Inr (), db)
                     | Inr None \<Rightarrow> (Inr (), db\<lparr>cd_callbacks := update_where
                           (\<lambda>r. cb_proxy_id r = proxyID \<and> cb_delivery_id r = wp_DeliveryID response)
                           (\<lambda>r. r\<lparr>cb_response := Some (marshal_webhook_response response), cb_updated_at := now\<rparr>) (cd_callbacks db)\<rparr>))))"

definition pg_ListPendingCallbacks :: "string \<Rightarrow> int \<Rightarrow> client_db \<Rightarrow> stored_callback list go_result" where
  "pg_ListPendingCallbacks proxyID limit db =
     read_rows read_callback (order_limit cb_created_at (pg_limit limit)
       (select_where (\<lambda>r. cb_proxy_id r = proxyID \<and> \<not> cb_completed r) (cd_callbacks db)))"

definition pg_MarkCallbackComplete :: "pg_time \<Rightarrow> string \<Rightarrow> string \<Rightarrow> client_db \<Rightarrow> unit go_result \<times> client_db" where
  "pg_MarkCallbackComplete now proxyID deliveryID db =
     (let p = (\<lambda>r. cb_proxy_id r = proxyID \<and> cb_delivery_id r = deliveryID);
          db' = db\<lparr>cd_callbacks := update_where p (\<lambda>r. r\<lparr>cb_completed := True, cb_updated_at := now\<rparr>) (cd_callbacks db)\<rparr>
      in if rows_affected p (cd_callbacks db) = 0 then (Inl ErrOperationNotFound, db') else (Inr (), db'))"

subsection \<open>Retention\<close>

definition done_operation :: "pg_time \<Rightarrow> operation_row \<Rightarrow> bool" where
  "done_operation before r \<longleftrightarrow> or_state r = StateComplete \<and> or_updated_at r < before"

definition done_callback :: "pg_time \<Rightarrow> callback_row \<Rightarrow> bool" where
  "done_callback before r \<longleftrightarrow> cb_completed r \<and> cb_updated_at r < before"

definition pg_Cleanup :: "pg_time \<Rightarrow> int \<Rightarrow> client_db \<Rightarrow> int \<times> client_db" where
  "pg_Cleanup before batch db =
     (let ops = map or_key (order_limit or_updated_at (pg_limit batch) (select_where (done_operation before) (cd_operations db)));
          cbs = map cb_key (order_limit cb_updated_at (pg_limit batch) (select_where (done_callback before) (cd_callbacks db)))
      in (int (rows_affected (\<lambda>r. or_key r \<in> set ops) (cd_operations db)) + int (rows_affected (\<lambda>r. cb_key r \<in> set cbs) (cd_callbacks db)),
          db\<lparr>cd_operations := delete_where (\<lambda>r. or_key r \<in> set ops) (cd_operations db),
             cd_callbacks := delete_where (\<lambda>r. cb_key r \<in> set cbs) (cd_callbacks db)\<rparr>))"

subsection \<open>A table as a map of decoded rows\<close>

definition table_view :: "('r \<Rightarrow> 'k) \<Rightarrow> ('r \<Rightarrow> 'v go_result) \<Rightarrow> 'r list \<Rightarrow> 'k \<Rightarrow> 'v option" where
  "table_view key read t k = (case row_by key k t of None \<Rightarrow> None | Some r \<Rightarrow> (case read r of Inl _ \<Rightarrow> None | Inr x \<Rightarrow> Some x))"

lemma table_view_insert:
  "row_by key (key r) t = None \<Longrightarrow> read r = Inr x \<Longrightarrow> table_view key read (insert_row r t) = (table_view key read t)(key r \<mapsto> x)"
  by (auto simp: table_view_def row_by_insert)

lemma table_view_update:
  assumes "\<And>r. key (f r) = key r" and "row_by key k t = Some r" and "read (f r) = Inr x"
  shows "table_view key read (update_where (\<lambda>r. key r = k) f t) = (table_view key read t)(k \<mapsto> x)"
proof
  fix k'
  have "row_by key k' t = Some r' \<Longrightarrow> key r' = k'" for r' by (drule row_by_Some_mem) simp
  then show "table_view key read (update_where (\<lambda>r. key r = k) f t) k' = ((table_view key read t)(k \<mapsto> x)) k'"
    using assms(2,3) by (auto simp: table_view_def row_by_update [of key f, OF assms(1)] split: option.splits)
qed

lemma rows_affected_none: "row_by key k t = None \<Longrightarrow> rows_affected (\<lambda>r. key r = k) t = 0"
  by (auto simp: rows_affected_eq_0 row_by_None_iff)

lemma rows_affected_some: "row_by key k t = Some r \<Longrightarrow> rows_affected (\<lambda>r. key r = k) t \<noteq> 0"
  by (drule row_by_Some_mem) (auto simp: rows_affected_eq_0)

lemma update_where_unmatched: "row_by key k t = None \<Longrightarrow> update_where (\<lambda>r. key r = k) f t = t"
  by (rule update_where_none [OF rows_affected_none])

lemma list_all_update_where: "list_all ok t \<Longrightarrow> (\<And>r. ok r \<Longrightarrow> ok (f r)) \<Longrightarrow> list_all ok (update_where p f t)"
  by (auto simp: list_all_iff set_update_where)

lemma list_all_row_by: "list_all ok t \<Longrightarrow> row_by key k t = Some r \<Longrightarrow> ok r"
  by (drule row_by_Some_mem) (auto simp: list_all_iff)

subsection \<open>The store of operations\<close>

definition op_row_ok :: "operation_row \<Rightarrow> bool" where
  "op_row_ok r \<longleftrightarrow> (\<exists>q. wf_http_request q \<and> or_request r = marshal_http_request q
        \<and> coerce_utf8 (hq_ProxyID q) = or_proxy_id r \<and> hq_RequestID q = or_request_id r)
     \<and> (case or_result r of None \<Rightarrow> True | Some j \<Rightarrow> \<exists>x. plain_result x \<and> j = marshal_http_result x)"

definition pg_inv :: "client_db \<Rightarrow> bool" where
  "pg_inv db \<longleftrightarrow> unique_by or_key (cd_operations db) \<and> list_all op_row_ok (cd_operations db)"

definition pg_view :: "client_db \<Rightarrow> operations_view" where
  "pg_view db = table_view or_key read_operation (cd_operations db)"

lemma marshal_not_null [simp]: "marshal_http_result x \<noteq> JNull" "marshal_webhook_response y \<noteq> JNull"
  by (simp_all add: marshal_http_result_def marshal_webhook_response_def marshal_struct_def)

lemma read_optional_simps [simp]:
  "read_optional u None = Inr None"
  "j \<noteq> JNull \<Longrightarrow> u j = Some x \<Longrightarrow> read_optional u (Some j) = Inr (Some x)"
  by (simp_all add: read_optional_def)

lemma read_operation_ok:
  assumes "wf_http_request q" "or_request r = marshal_http_request q" "or_result r = map_option marshal_http_result x"
    and "\<And>y. x = Some y \<Longrightarrow> wf_http_result y"
  shows "read_operation r = Inr \<lparr>so_Request = canon_http_request q, so_Result = map_option canon_http_result x, so_State = or_state r\<rparr>"
proof (cases x)
  case None
  then show ?thesis using assms by (simp add: read_operation_def http_request_codec.decode_encode go_try_def)
next
  case (Some y)
  then show ?thesis using assms
    by (simp add: read_operation_def http_request_codec.decode_encode http_result_codec.decode_encode go_try_def)
qed

lemma op_row_okE:
  assumes "op_row_ok r"
  obtains q x where "wf_http_request q" "or_request r = marshal_http_request q" "or_result r = map_option marshal_http_result x"
    "\<And>y. x = Some y \<Longrightarrow> plain_result y" "coerce_utf8 (hq_ProxyID q) = or_proxy_id r" "hq_RequestID q = or_request_id r"
proof (cases "or_result r")
  case None
  then show thesis using assms that [of _ None] by (auto simp: op_row_ok_def)
next
  case (Some j)
  then obtain q x where "wf_http_request q" "or_request r = marshal_http_request q" "plain_result x" "j = marshal_http_result x"
    "coerce_utf8 (hq_ProxyID q) = or_proxy_id r" "hq_RequestID q = or_request_id r"
    using assms by (auto simp: op_row_ok_def)
  then show thesis using that [of q "Some x"] Some by simp
qed

lemma pg_view_row:
  assumes "pg_inv db" "row_by or_key k (cd_operations db) = Some r"
  obtains x where "read_operation r = Inr x" "pg_view db k = Some x" "canon_operation x = x" "so_State x = or_state r"
    "\<And>y. so_Result x = Some y \<Longrightarrow> coerce_utf8 (rs_State y) = rs_State y"
    "\<And>st t. read_operation (r\<lparr>or_state := st, or_updated_at := t\<rparr>) = Inr (x\<lparr>so_State := st\<rparr>)"
    "\<And>y st t. plain_result y \<Longrightarrow> read_operation (r\<lparr>or_result := Some (marshal_http_result y), or_state := st, or_updated_at := t\<rparr>)
        = Inr (x\<lparr>so_Result := Some (canon_http_result y), so_State := st\<rparr>)"
    "read_optional unmarshal_http_result (or_result r) = Inr (so_Result x)"
    "hq_ProxyID (so_Request x) = or_proxy_id r" "hq_RequestID (so_Request x) = coerce_utf8 (or_request_id r)"
proof -
  have "op_row_ok r" using assms by (auto simp: pg_inv_def intro: list_all_row_by)
  then obtain q y where q: "wf_http_request q" "or_request r = marshal_http_request q" "or_result r = map_option marshal_http_result y"
    "\<And>z. y = Some z \<Longrightarrow> plain_result z" "coerce_utf8 (hq_ProxyID q) = or_proxy_id r" "hq_RequestID q = or_request_id r"
    by (rule op_row_okE) (rule that; assumption)
  have wf: "wf_http_result z" if "y = Some z" for z using q(4) [OF that] by (simp add: plain_result_def)
  let ?x = "\<lparr>so_Request = canon_http_request q, so_Result = map_option canon_http_result y, so_State = or_state r\<rparr>"
  have read: "read_operation r = Inr ?x" by (rule read_operation_ok [OF q(1-3) wf])
  show thesis
  proof (rule that [of ?x])
    show "read_operation r = Inr ?x" by (rule read)
    show "pg_view db k = Some ?x" using read assms(2) by (simp add: pg_view_def table_view_def)
    show "canon_operation ?x = ?x"
      using q(1) wf by (cases y) (simp_all add: canon_operation_def http_request_codec.canon_canon http_result_codec.canon_canon)
    show "so_State ?x = or_state r" by simp
    show "coerce_utf8 (rs_State z) = rs_State z" if "so_Result ?x = Some z" for z
      using that q(4) by (auto simp: plain_result_def canon_http_result_def)
    show "read_operation (r\<lparr>or_state := st, or_updated_at := t\<rparr>) = Inr (?x\<lparr>so_State := st\<rparr>)" for st t
      using read_operation_ok [of q "r\<lparr>or_state := st, or_updated_at := t\<rparr>" y] q wf by simp
    show "read_operation (r\<lparr>or_result := Some (marshal_http_result z), or_state := st, or_updated_at := t\<rparr>)
        = Inr (?x\<lparr>so_Result := Some (canon_http_result z), so_State := st\<rparr>)" if "plain_result z" for z st t
      using read_operation_ok [of q "r\<lparr>or_result := Some (marshal_http_result z), or_state := st, or_updated_at := t\<rparr>" "Some z"] q that
      by (simp add: plain_result_def)
    show "read_optional unmarshal_http_result (or_result r) = Inr (so_Result ?x)"
      using q(3) wf by (cases y) (simp_all add: http_result_codec.decode_encode)
    show "hq_ProxyID (so_Request ?x) = or_proxy_id r" "hq_RequestID (so_Request ?x) = coerce_utf8 (or_request_id r)"
      using q(5,6) by (simp_all add: canon_http_request_def)
  qed
qed

lemma pg_inv_update:
  "pg_inv db \<Longrightarrow> (\<And>r. or_key (f r) = or_key r) \<Longrightarrow> (\<And>r. op_row_ok r \<Longrightarrow> op_row_ok (f r)) \<Longrightarrow>
   pg_inv (db\<lparr>cd_operations := update_where p f (cd_operations db)\<rparr>)"
  by (simp add: pg_inv_def list_all_update_where unique_by_update [of or_key])

lemma pg_view_update:
  assumes "\<And>r. or_key (f r) = or_key r" "row_by or_key (p, i) (cd_operations db) = Some r" "read_operation (f r) = Inr x"
  shows "pg_view (db\<lparr>cd_operations := update_where (\<lambda>r. or_proxy_id r = p \<and> or_request_id r = i) f (cd_operations db)\<rparr>) = (pg_view db)((p, i) \<mapsto> x)"
  using table_view_update [of or_key f "(p, i)" "cd_operations db" r read_operation x, OF assms] by (simp add: pg_view_def)

lemma pg_view_none: "row_by or_key k (cd_operations db) = None \<Longrightarrow> pg_view db k = None"
  by (simp add: pg_view_def table_view_def)

lemma or_unmatched:
  assumes "row_by or_key (p, i) (cd_operations db) = None"
  shows "rows_affected (\<lambda>r. or_proxy_id r = p \<and> or_request_id r = i) (cd_operations db) = 0"
    "db\<lparr>cd_operations := update_where (\<lambda>r. or_proxy_id r = p \<and> or_request_id r = i) f (cd_operations db)\<rparr> = db"
  using rows_affected_none [OF assms] update_where_unmatched [OF assms] by simp_all

lemma or_matched:
  "row_by or_key (p, i) (cd_operations db) = Some r \<Longrightarrow> rows_affected (\<lambda>r. or_proxy_id r = p \<and> or_request_id r = i) (cd_operations db) \<noteq> 0"
  using rows_affected_some [of or_key "(p, i)" "cd_operations db" r] by simp

lemma pg_SaveOutgoing_law:
  assumes "pg_inv s" "wf_http_request q" "plain_id (hq_ProxyID q)"
  shows "pg_inv (snd (pg_SaveOutgoing now q s)) \<and> (fst (pg_SaveOutgoing now q s), pg_view (snd (pg_SaveOutgoing now q s))) = spec_save q (pg_view s)"
proof (cases "row_by or_key (hq_ProxyID q, hq_RequestID q) (cd_operations s)")
  case None
  let ?r = "\<lparr>or_proxy_id = hq_ProxyID q, or_request_id = hq_RequestID q, or_request = marshal_http_request q,
                   or_result = None, or_state = StateOutgoing, or_created_at = now, or_updated_at = now\<rparr>"
  have "read_operation ?r = Inr (fresh_operation q)"
    using read_operation_ok [of q ?r None] assms(2) by (simp add: fresh_operation_def)
  then have "table_view or_key read_operation (insert_row ?r (cd_operations s)) = (table_view or_key read_operation (cd_operations s))(or_key ?r \<mapsto> fresh_operation q)"
    using None by (intro table_view_insert) simp_all
  moreover have "op_row_ok ?r" using assms(2,3) by (auto simp: op_row_ok_def plain_id_def)
  moreover have "unique_by or_key (insert_row ?r (cd_operations s))"
    using None assms(1) by (intro unique_by_insert) (simp_all add: pg_inv_def)
  ultimately show ?thesis using None assms(1) pg_view_none [OF None]
    by (simp add: pg_SaveOutgoing_def spec_save_def pg_view_def pg_inv_def insert_row_def)
next
  case (Some r)
  obtain x where x: "read_operation r = Inr x" "pg_view s (hq_ProxyID q, hq_RequestID q) = Some x"
    by (rule pg_view_row [OF assms(1) Some]) (rule that; assumption)
  then have "unmarshal_http_request (or_request r) = Some (so_Request x)"
    by (auto simp: read_operation_def go_try_eq_Inr split: option.splits)
  then show ?thesis using Some x(2) assms(1) by (simp add: pg_SaveOutgoing_def spec_save_def)
qed

lemma pg_SaveResult_law:
  assumes "pg_inv s" "plain_result r" "rs_ProxyID r = p"
  shows "pg_inv (snd (pg_SaveResult now p r s))
    \<and> (map_sum id canon_http_result (fst (pg_SaveResult now p r s)), pg_view (snd (pg_SaveResult now p r s))) = spec_result p r (pg_view s)"
proof (cases "row_by or_key (p, rs_RequestID r) (cd_operations s)")
  case None
  then show ?thesis using assms pg_view_none [OF None] by (simp add: pg_SaveResult_def spec_result_def)
next
  case (Some row)
  let ?f = "\<lambda>y. y\<lparr>or_result := Some (marshal_http_result r), or_state := StateResultSaved, or_updated_at := now\<rparr>"
  let ?s = "s\<lparr>cd_operations := update_where (\<lambda>y. or_proxy_id y = p \<and> or_request_id y = rs_RequestID r) ?f (cd_operations s)\<rparr>"
  obtain x where x: "pg_view s (p, rs_RequestID r) = Some x" "canon_operation x = x" "read_operation (?f row) = Inr (x\<lparr>so_Result := Some (canon_http_result r), so_State := StateResultSaved\<rparr>)"
    "read_optional unmarshal_http_result (or_result row) = Inr (so_Result x)"
    by (rule pg_view_row [OF assms(1) Some]) (rule that; (assumption | use assms(2) in blast))
  have inv: "pg_inv ?s" using assms(1,2) by (intro pg_inv_update) (auto simp: op_row_ok_def)
  have view: "pg_view ?s = (pg_view s)((p, rs_RequestID r) \<mapsto> x\<lparr>so_Result := Some (canon_http_result r), so_State := StateResultSaved\<rparr>)"
    using Some x(3) by (intro pg_view_update) simp_all
  have res: "map_option canon_http_result (so_Result x) = so_Result x" using arg_cong [OF x(2), of so_Result] by simp
  show ?thesis
  proof (cases "keeps_known x r")
    case True
    then obtain r0 where r0: "so_Result x = Some r0" "rs_State r0 \<noteq> ''unknown''" "rs_State r = ''unknown''" by (auto simp: keeps_known_def)
    then have "pg_SaveResult now p r s = (Inr r0, s)" using assms(3) Some x(4) by (simp add: pg_SaveResult_def)
    then show ?thesis using True x(1) r0 res assms(1) by (simp add: spec_result_def)
  next
    case False
    then have "pg_SaveResult now p r s = (Inr r, ?s)"
      using assms(3) Some x(4) by (auto simp: pg_SaveResult_def keeps_known_def Let_def split: option.splits)
    then show ?thesis using False x(1) inv view by (simp add: spec_result_def)
  qed
qed

interpretation pg: client_store pg_inv pg_view pg_SaveOutgoing pg_Load pg_MarkAccepted pg_SaveResult pg_MarkComplete
proof
  fix s :: client_db and q :: http_request and p i :: string and r :: http_result and now :: pg_time
  assume inv: "pg_inv s"
  { assume "plain_id (hq_ProxyID q)" "wf_http_request q"
    then show "pg_inv (snd (pg_SaveOutgoing now q s)) \<and> (fst (pg_SaveOutgoing now q s), pg_view (snd (pg_SaveOutgoing now q s))) = spec_save q (pg_view s)"
      by (intro pg_SaveOutgoing_law [OF inv]) }
  show "map_sum id canon_operation (pg_Load p i s) = spec_load p i (pg_view s)"
  proof (cases "row_by or_key (p, i) (cd_operations s)")
    case None
    then show ?thesis using pg_view_none [OF None] by (simp add: pg_Load_def spec_load_def)
  next
    case (Some row)
    obtain x where "read_operation row = Inr x" "pg_view s (p, i) = Some x" "canon_operation x = x"
      by (rule pg_view_row [OF inv Some]) (rule that; assumption)
    then show ?thesis using Some by (simp add: pg_Load_def spec_load_def)
  qed
  { fix x
    assume "coerce_utf8 i = i" and l: "pg_Load p i s = Inr x"
    then obtain row where row: "row_by or_key (p, i) (cd_operations s) = Some row" by (auto simp: pg_Load_def split: option.splits)
    obtain y where "read_operation row = Inr y" "hq_ProxyID (so_Request y) = or_proxy_id row" "hq_RequestID (so_Request y) = coerce_utf8 (or_request_id row)"
      by (rule pg_view_row [OF inv row]) (rule that; assumption)
    then show "hq_ProxyID (so_Request x) = p \<and> hq_RequestID (so_Request x) = i"
      using l row row_by_Some_mem [OF row] \<open>coerce_utf8 i = i\<close> by (auto simp: pg_Load_def) }
  show "pg_inv (snd (pg_MarkAccepted now p i s)) \<and> accepts p i (pg_view s) (fst (pg_MarkAccepted now p i s)) (pg_view (snd (pg_MarkAccepted now p i s)))"
  proof (cases "row_by or_key (p, i) (cd_operations s)")
    case None
    then show ?thesis using inv or_unmatched [OF None] pg_view_none [OF None] by (simp add: pg_MarkAccepted_def accepts_def Let_def)
  next
    case (Some row)
    let ?f = "\<lambda>r. r\<lparr>or_state := if or_state r = StateOutgoing then StateAccepted else or_state r, or_updated_at := now\<rparr>"
    let ?st = "if or_state row = StateOutgoing then StateAccepted else or_state row"
    obtain x where x: "pg_view s (p, i) = Some x" "so_State x = or_state row" "read_operation (?f row) = Inr (x\<lparr>so_State := ?st\<rparr>)"
      by (rule pg_view_row [OF inv Some]) (rule that; (assumption | blast))
    have "pg_inv (snd (pg_MarkAccepted now p i s))"
      using pg_inv_update [OF inv, of ?f] by (simp add: pg_MarkAccepted_def Let_def op_row_ok_def)
    moreover have "pg_view (snd (pg_MarkAccepted now p i s)) = (pg_view s)((p, i) \<mapsto> x\<lparr>so_State := ?st\<rparr>)"
      using pg_view_update [of ?f p i s row, OF _ Some x(3)] by (simp add: pg_MarkAccepted_def Let_def)
    moreover have "fst (pg_MarkAccepted now p i s) = Inr ()" using or_matched [OF Some] by (simp add: pg_MarkAccepted_def Let_def)
    ultimately show ?thesis using x(1,2) by (auto simp: accepts_def)
  qed
  show "pg_inv (snd (pg_MarkComplete now p i s)) \<and> (fst (pg_MarkComplete now p i s), pg_view (snd (pg_MarkComplete now p i s))) = spec_complete p i (pg_view s)"
  proof (cases "row_by or_key (p, i) (cd_operations s)")
    case None
    then show ?thesis using inv or_unmatched [OF None] pg_view_none [OF None] by (simp add: pg_MarkComplete_def spec_complete_def Let_def)
  next
    case (Some row)
    let ?f = "\<lambda>r. r\<lparr>or_state := StateComplete, or_updated_at := now\<rparr>"
    obtain x where x: "pg_view s (p, i) = Some x" "read_operation (?f row) = Inr (x\<lparr>so_State := StateComplete\<rparr>)"
      by (rule pg_view_row [OF inv Some]) (rule that; (assumption | blast))
    have "pg_inv (snd (pg_MarkComplete now p i s))"
      using pg_inv_update [OF inv, of ?f] by (simp add: pg_MarkComplete_def Let_def op_row_ok_def)
    moreover have "pg_view (snd (pg_MarkComplete now p i s)) = (pg_view s)((p, i) \<mapsto> x\<lparr>so_State := StateComplete\<rparr>)"
      using pg_view_update [of ?f p i s row, OF _ Some x(2)] by (simp add: pg_MarkComplete_def Let_def)
    moreover have "fst (pg_MarkComplete now p i s) = Inr ()" using or_matched [OF Some] by (simp add: pg_MarkComplete_def Let_def)
    ultimately show ?thesis using x(1) by (simp add: spec_complete_def)
  qed
  assume "plain_result r"
  { assume "rs_ProxyID r = p"
    with \<open>plain_result r\<close> show "pg_inv (snd (pg_SaveResult now p r s)) \<and>
        (map_sum id canon_http_result (fst (pg_SaveResult now p r s)), pg_view (snd (pg_SaveResult now p r s))) = spec_result p r (pg_view s)"
      by (rule pg_SaveResult_law [OF inv]) }
  { assume "rs_ProxyID r \<noteq> p"
    then show "\<not> is_ok (fst (pg_SaveResult now p r s)) \<and> snd (pg_SaveResult now p r s) = s"
      by (simp add: pg_SaveResult_def is_ok_def) }
qed

subsection \<open>The store of callbacks\<close>

definition cb_row_ok :: "callback_row \<Rightarrow> bool" where
  "cb_row_ok r \<longleftrightarrow> (\<exists>e. cb_event r = marshal_webhook_event e \<and> coerce_utf8 (ev_ProxyID e) = cb_proxy_id r)
     \<and> (case cb_response r of None \<Rightarrow> True | Some j \<Rightarrow> \<exists>p. in_int64 (wp_StatusCode p) \<and> j = marshal_webhook_response p)"

definition pg_callbacks_inv :: "client_db \<Rightarrow> bool" where
  "pg_callbacks_inv db \<longleftrightarrow> list_all cb_row_ok (cd_callbacks db)"

definition pg_callbacks_view :: "client_db \<Rightarrow> callbacks_view" where
  "pg_callbacks_view db = table_view cb_key read_callback (cd_callbacks db)"

lemma read_callback_ok:
  assumes "cb_event r = marshal_webhook_event e" "cb_response r = map_option marshal_webhook_response p"
    and "\<And>y. p = Some y \<Longrightarrow> in_int64 (wp_StatusCode y)"
  shows "read_callback r = Inr \<lparr>sc_Event = canon_webhook_event e, sc_Response = map_option canon_webhook_response p, sc_Completed = cb_completed r\<rparr>"
  using assms by (cases p) (simp_all add: read_callback_def webhook_event_codec.decode_encode webhook_response_codec.decode_encode go_try_def)

lemma cb_row_okE:
  assumes "cb_row_ok r"
  obtains e p where "cb_event r = marshal_webhook_event e" "coerce_utf8 (ev_ProxyID e) = cb_proxy_id r"
    "cb_response r = map_option marshal_webhook_response p" "\<And>y. p = Some y \<Longrightarrow> in_int64 (wp_StatusCode y)"
proof (cases "cb_response r")
  case None
  then show thesis using assms that [of _ None] by (auto simp: cb_row_ok_def)
next
  case (Some j)
  then obtain e p where "cb_event r = marshal_webhook_event e" "coerce_utf8 (ev_ProxyID e) = cb_proxy_id r"
    "in_int64 (wp_StatusCode p)" "j = marshal_webhook_response p"
    using assms by (auto simp: cb_row_ok_def)
  then show thesis using that [of e "Some p"] Some by simp
qed

lemma pg_callbacks_view_row:
  assumes "pg_callbacks_inv db" "row_by cb_key (p, i) (cd_callbacks db) = Some r"
  obtains x where "read_callback r = Inr x" "pg_callbacks_view db (p, i) = Some x" "canon_callback x = x"
    "unmarshal_webhook_event (cb_event r) = Some (sc_Event x)" "ev_ProxyID (sc_Event x) = p"
    "read_optional unmarshal_webhook_response (cb_response r) = Inr (sc_Response x)"
    "\<And>t. read_callback (r\<lparr>cb_completed := True, cb_updated_at := t\<rparr>) = Inr (x\<lparr>sc_Completed := True\<rparr>)"
    "\<And>y t. plain_response y \<Longrightarrow> read_callback (r\<lparr>cb_response := Some (marshal_webhook_response y), cb_updated_at := t\<rparr>)
        = Inr (x\<lparr>sc_Response := Some (canon_webhook_response y)\<rparr>)"
proof -
  have key: "cb_proxy_id r = p" using row_by_Some_mem [OF assms(2)] by auto
  have "cb_row_ok r" using assms by (simp add: pg_callbacks_inv_def list_all_row_by)
  then obtain e y where e: "cb_event r = marshal_webhook_event e" "coerce_utf8 (ev_ProxyID e) = cb_proxy_id r"
    "cb_response r = map_option marshal_webhook_response y" "\<And>z. y = Some z \<Longrightarrow> in_int64 (wp_StatusCode z)"
    by (rule cb_row_okE) (rule that; assumption)
  let ?x = "\<lparr>sc_Event = canon_webhook_event e, sc_Response = map_option canon_webhook_response y, sc_Completed = cb_completed r\<rparr>"
  have read: "read_callback r = Inr ?x" by (rule read_callback_ok [OF e(1,3,4)])
  show thesis
  proof (rule that [of ?x])
    show "read_callback r = Inr ?x" by (rule read)
    show "pg_callbacks_view db (p, i) = Some ?x" using read assms(2) by (simp add: pg_callbacks_view_def table_view_def)
    show "canon_callback ?x = ?x"
      using e(4) by (cases y) (simp_all add: canon_callback_def webhook_event_codec.canon_canon webhook_response_codec.canon_canon)
    show "unmarshal_webhook_event (cb_event r) = Some (sc_Event ?x)" using e(1) by (simp add: webhook_event_codec.decode_encode)
    show "ev_ProxyID (sc_Event ?x) = p" using e(2) key by (simp add: canon_webhook_event_def)
    show "read_optional unmarshal_webhook_response (cb_response r) = Inr (sc_Response ?x)"
      using e(3,4) by (cases y) (simp_all add: webhook_response_codec.decode_encode)
    show "read_callback (r\<lparr>cb_completed := True, cb_updated_at := t\<rparr>) = Inr (?x\<lparr>sc_Completed := True\<rparr>)" for t
      using read_callback_ok [of "r\<lparr>cb_completed := True, cb_updated_at := t\<rparr>" e y] e by simp
    show "read_callback (r\<lparr>cb_response := Some (marshal_webhook_response z), cb_updated_at := t\<rparr>)
        = Inr (?x\<lparr>sc_Response := Some (canon_webhook_response z)\<rparr>)" if "plain_response z" for z t
      using read_callback_ok [of "r\<lparr>cb_response := Some (marshal_webhook_response z), cb_updated_at := t\<rparr>" e "Some z"] e that
      by (simp add: plain_response_def)
  qed
qed

lemma pg_callbacks_view_update:
  assumes "\<And>r. cb_key (f r) = cb_key r" "row_by cb_key (p, i) (cd_callbacks db) = Some r" "read_callback (f r) = Inr x"
  shows "pg_callbacks_view (db\<lparr>cd_callbacks := update_where (\<lambda>r. cb_proxy_id r = p \<and> cb_delivery_id r = i) f (cd_callbacks db)\<rparr>)
    = (pg_callbacks_view db)((p, i) \<mapsto> x)"
  using table_view_update [of cb_key f "(p, i)" "cd_callbacks db" r read_callback x, OF assms] by (simp add: pg_callbacks_view_def)

lemma pg_callbacks_inv_update:
  "pg_callbacks_inv db \<Longrightarrow> (\<And>r. cb_row_ok r \<Longrightarrow> cb_row_ok (f r)) \<Longrightarrow> pg_callbacks_inv (db\<lparr>cd_callbacks := update_where p f (cd_callbacks db)\<rparr>)"
  by (simp add: pg_callbacks_inv_def list_all_update_where)

lemma pg_SaveCallback_law:
  assumes "pg_callbacks_inv s" "plain_event e"
  shows "pg_callbacks_inv (snd (pg_SaveCallback now e s))
    \<and> (map_sum id canon_callback (fst (pg_SaveCallback now e s)), pg_callbacks_view (snd (pg_SaveCallback now e s))) = spec_callback e (pg_callbacks_view s)"
proof (cases "row_by cb_key (ev_ProxyID e, ev_DeliveryID e) (cd_callbacks s)")
  case None
  let ?r = "\<lparr>cb_proxy_id = ev_ProxyID e, cb_delivery_id = ev_DeliveryID e, cb_event = marshal_webhook_event e,
                         cb_response = None, cb_completed = False, cb_created_at = now, cb_updated_at = now\<rparr>"
  let ?s = "s\<lparr>cd_callbacks := insert_row ?r (cd_callbacks s)\<rparr>"
  have read: "read_callback ?r = Inr (fresh_callback e)" using read_callback_ok [of ?r e None] by (simp add: fresh_callback_def)
  have view: "pg_callbacks_view ?s = (pg_callbacks_view s)((ev_ProxyID e, ev_DeliveryID e) \<mapsto> fresh_callback e)"
    using table_view_insert [of cb_key ?r "cd_callbacks s" read_callback] None read by (simp add: pg_callbacks_view_def)
  have found: "row_by cb_key (ev_ProxyID e, ev_DeliveryID e) (insert_row ?r (cd_callbacks s)) = Some ?r"
    using row_by_insert [of cb_key ?r "cd_callbacks s"] None by simp
  have "\<not> row_exists (\<lambda>r. cb_key r = (ev_ProxyID e, ev_DeliveryID e)) (cd_callbacks s)"
    using None by (auto simp: row_exists_iff row_by_None_iff)
  moreover have "sameCallbackEvent (canon_webhook_event e) e" by (simp add: sameCallbackEvent_canon) (simp add: sameCallbackEvent_def jsonEqual_def)
  ultimately have save: "pg_SaveCallback now e s = (Inr (fresh_callback e), ?s)"
    using found read by (simp add: pg_SaveCallback_def webhook_event_codec.decode_encode)
  have "pg_callbacks_inv ?s" using assms by (auto simp: pg_callbacks_inv_def insert_row_def cb_row_ok_def plain_event_def plain_id_def)
  moreover have "canon_callback (fresh_callback e) = fresh_callback e"
    by (simp add: fresh_callback_def canon_callback_def webhook_event_codec.canon_canon)
  moreover have "pg_callbacks_view s (ev_ProxyID e, ev_DeliveryID e) = None" using None by (simp add: pg_callbacks_view_def table_view_def)
  ultimately show ?thesis using save view by (simp add: spec_callback_def)
next
  case (Some r)
  obtain x where x: "read_callback r = Inr x" "pg_callbacks_view s (ev_ProxyID e, ev_DeliveryID e) = Some x" "canon_callback x = x"
    "unmarshal_webhook_event (cb_event r) = Some (sc_Event x)"
    by (rule pg_callbacks_view_row [OF assms(1) Some]) (rule that; assumption)
  have "row_exists (\<lambda>r. cb_key r = (ev_ProxyID e, ev_DeliveryID e)) (cd_callbacks s)"
    using row_by_Some_mem [OF Some] by (auto simp: row_exists_iff)
  then have "pg_SaveCallback now e s = (if sameCallbackEvent (sc_Event x) e then Inr x else Inl ErrRequestConflict, s)"
    using Some x(1,4) by (simp add: pg_SaveCallback_def)
  then show ?thesis using x(2,3) assms(1) by (simp add: spec_callback_def)
qed

lemma pg_SaveCallbackResponse_law:
  assumes "pg_callbacks_inv s" "plain_response r"
  shows "pg_callbacks_inv (snd (pg_SaveCallbackResponse now p r s))
    \<and> responds p r (pg_callbacks_view s) (fst (pg_SaveCallbackResponse now p r s)) (pg_callbacks_view (snd (pg_SaveCallbackResponse now p r s)))"
proof (cases "row_by cb_key (p, wp_DeliveryID r) (cd_callbacks s)")
  case None
  then show ?thesis using assms by (simp add: pg_SaveCallbackResponse_def responds_def pg_callbacks_view_def table_view_def)
next
  case (Some row)
  let ?f = "\<lambda>y. y\<lparr>cb_response := Some (marshal_webhook_response r), cb_updated_at := now\<rparr>"
  let ?s = "s\<lparr>cd_callbacks := update_where (\<lambda>y. cb_proxy_id y = p \<and> cb_delivery_id y = wp_DeliveryID r) ?f (cd_callbacks s)\<rparr>"
  obtain x where x: "pg_callbacks_view s (p, wp_DeliveryID r) = Some x"
    "unmarshal_webhook_event (cb_event row) = Some (sc_Event x)" "ev_ProxyID (sc_Event x) = p"
    "read_optional unmarshal_webhook_response (cb_response row) = Inr (sc_Response x)"
    "read_callback (?f row) = Inr (x\<lparr>sc_Response := Some (canon_webhook_response r)\<rparr>)"
    by (rule pg_callbacks_view_row [OF assms(1) Some]) (rule that; (assumption | use assms(2) in blast))
  have inv: "pg_callbacks_inv ?s" using assms by (intro pg_callbacks_inv_update) (auto simp: cb_row_ok_def plain_response_def)
  have view: "pg_callbacks_view ?s = (pg_callbacks_view s)((p, wp_DeliveryID r) \<mapsto> x\<lparr>sc_Response := Some (canon_webhook_response r)\<rparr>)"
    using Some x(5) by (intro pg_callbacks_view_update) simp_all
  have refl: "sameCallbackResponse (canon_webhook_response r) r"
    by (simp add: sameCallbackResponse_canon) (simp add: sameCallbackResponse_def jsonEqual_def)
  have eq: "pg_SaveCallbackResponse now p r s =
      (if ev_EventID (sc_Event x) \<noteq> wp_EventID r then (Inl ErrRequestConflict, s)
       else case sc_Response x of None \<Rightarrow> (Inr (), ?s)
            | Some old \<Rightarrow> (if sameCallbackResponse old r then Inr () else Inl ErrRequestConflict, s))"
    using Some x(2-4) by (auto simp: pg_SaveCallbackResponse_def split: option.splits)
  show ?thesis
  proof (cases "sc_Response x")
    case None
    then show ?thesis using inv view refl x(1) assms(1) unfolding eq responds_def by auto
  next
    case (Some old)
    then have "(pg_callbacks_view s)((p, wp_DeliveryID r) \<mapsto> x\<lparr>sc_Response := Some old\<rparr>) = pg_callbacks_view s" using x(1) by auto
    then show ?thesis using Some x(1) assms(1) unfolding eq responds_def by (auto intro!: exI [of _ old])
  qed
qed

interpretation pg_callbacks: callback_store pg_callbacks_inv pg_callbacks_view pg_SaveCallback pg_SaveCallbackResponse pg_MarkCallbackComplete
proof
  fix s :: client_db and e :: webhook_event and p i :: string and r :: webhook_response and now :: pg_time
  assume inv: "pg_callbacks_inv s"
  show "pg_callbacks_inv (snd (pg_MarkCallbackComplete now p i s)) \<and>
      (fst (pg_MarkCallbackComplete now p i s), pg_callbacks_view (snd (pg_MarkCallbackComplete now p i s))) = spec_finish p i (pg_callbacks_view s)"
  proof (cases "row_by cb_key (p, i) (cd_callbacks s)")
    case None
    then show ?thesis using inv rows_affected_none [OF None] update_where_unmatched [OF None]
      by (simp add: pg_MarkCallbackComplete_def spec_finish_def Let_def pg_callbacks_view_def table_view_def)
  next
    case (Some row)
    let ?f = "\<lambda>r. r\<lparr>cb_completed := True, cb_updated_at := now\<rparr>"
    obtain x where x: "pg_callbacks_view s (p, i) = Some x" "read_callback (?f row) = Inr (x\<lparr>sc_Completed := True\<rparr>)"
      by (rule pg_callbacks_view_row [OF inv Some]) (rule that; (assumption | blast))
    have "pg_callbacks_inv (snd (pg_MarkCallbackComplete now p i s))"
      using pg_callbacks_inv_update [OF inv, of ?f] by (simp add: pg_MarkCallbackComplete_def Let_def cb_row_ok_def)
    moreover have "pg_callbacks_view (snd (pg_MarkCallbackComplete now p i s)) = (pg_callbacks_view s)((p, i) \<mapsto> x\<lparr>sc_Completed := True\<rparr>)"
      using pg_callbacks_view_update [of ?f p i s row, OF _ Some x(2)] by (simp add: pg_MarkCallbackComplete_def Let_def)
    moreover have "fst (pg_MarkCallbackComplete now p i s) = Inr ()"
      using rows_affected_some [OF Some] by (simp add: pg_MarkCallbackComplete_def Let_def)
    ultimately show ?thesis using x(1) by (simp add: spec_finish_def)
  qed
qed (simp_all add: pg_SaveCallback_law pg_SaveCallbackResponse_law)

end
