(* ===== verification/Store_Properties.thy ===== *)
theory Store_Properties
  imports Memory_Store Postgres_Store
begin

text \<open>
  What the client library can rely on, proved once in the interfaces of \<open>Client_Store\<close> and carried to
  both stores by their interpretations; and where the two stores differ.
\<close>

subsection \<open>Sequences of operations on a store\<close>

fun pg_apply :: "pg_time \<times> store_op \<Rightarrow> client_db \<Rightarrow> client_db" where
  "pg_apply (now, OpSave q) db = snd (pg_SaveOutgoing now q db)"
| "pg_apply (now, OpAccept p i) db = snd (pg_MarkAccepted now p i db)"
| "pg_apply (now, OpResult p r) db = snd (pg_SaveResult now p r db)"
| "pg_apply (now, OpComplete p i) db = snd (pg_MarkComplete now p i db)"

fun mem_apply :: "pg_time \<times> store_op \<Rightarrow> memory_store \<Rightarrow> memory_store" where
  "mem_apply (now, OpSave q) s = snd (mem_SaveOutgoing q s)"
| "mem_apply (now, OpAccept p i) s = snd (mem_MarkAccepted p i s)"
| "mem_apply (now, OpResult p r) s = snd (mem_SaveResult p r s)"
| "mem_apply (now, OpComplete p i) s = snd (mem_MarkComplete p i s)"

fun pg_callback_apply :: "pg_time \<times> callback_op \<Rightarrow> client_db \<Rightarrow> client_db" where
  "pg_callback_apply (now, OpEvent e) db = snd (pg_SaveCallback now e db)"
| "pg_callback_apply (now, OpRespond p r) db = snd (pg_SaveCallbackResponse now p r db)"
| "pg_callback_apply (now, OpFinish p i) db = snd (pg_MarkCallbackComplete now p i db)"

fun mem_callback_apply :: "pg_time \<times> callback_op \<Rightarrow> memory_store \<Rightarrow> memory_store" where
  "mem_callback_apply (now, OpEvent e) s = snd (mem_SaveCallback e s)"
| "mem_callback_apply (now, OpRespond p r) s = snd (mem_SaveCallbackResponse p r s)"
| "mem_callback_apply (now, OpFinish p i) s = snd (mem_MarkCallbackComplete p i s)"

lemma pg_apply_ops: "pg.apply_ops xs db = fold pg_apply xs db"
proof -
  have "(\<lambda>(now, x). pg.apply_op now x) = pg_apply" by (auto simp: fun_eq_iff) (case_tac b; simp)
  then show ?thesis by (simp add: pg.apply_ops_def)
qed

lemma mem_apply_ops: "mem.apply_ops xs s = fold mem_apply xs s"
proof -
  have "(\<lambda>(now, x). mem.apply_op now x) = mem_apply" by (auto simp: fun_eq_iff) (case_tac b; simp)
  then show ?thesis by (simp add: mem.apply_ops_def)
qed

lemma pg_apply_callbacks: "pg_callbacks.apply_callbacks xs db = fold pg_callback_apply xs db"
proof -
  have "(\<lambda>(now, x). pg_callbacks.apply_callback now x) = pg_callback_apply" by (auto simp: fun_eq_iff) (case_tac b; simp)
  then show ?thesis by (simp add: pg_callbacks.apply_callbacks_def)
qed

lemma mem_apply_callbacks: "mem_callbacks.apply_callbacks xs s = fold mem_callback_apply xs s"
proof -
  have "(\<lambda>(now, x). mem_callbacks.apply_callback now x) = mem_callback_apply" by (auto simp: fun_eq_iff) (case_tac b; simp)
  then show ?thesis by (simp add: mem_callbacks.apply_callbacks_def)
qed

subsection \<open>Operations\<close>

definition sample_stored :: http_request where
  "sample_stored = zero_http_request\<lparr>hq_RequestID := ''r1'', hq_ClientID := ''shop'', hq_ProxyID := ''p1'', hq_Method := ''GET'', hq_URL := ''http://bank/''\<rparr>"

definition sample_unknown :: http_result where
  "sample_unknown = zero_http_result\<lparr>rs_RequestID := ''r1'', rs_ProxyID := ''p1'', rs_State := ''unknown''\<rparr>"

definition empty_client_db :: client_db where
  "empty_client_db = \<lparr>cd_operations = [], cd_callbacks = []\<rparr>"

lemma empty_stores:
  "pg_inv empty_client_db" "pg_view empty_client_db k = None" "mem_inv NewMemoryStore" "mem_view NewMemoryStore k = None"
  "pg_callbacks_inv empty_client_db" "mem_callbacks_inv NewMemoryStore"
  by (auto simp: empty_client_db_def pg_inv_def pg_view_def table_view_def NewMemoryStore_def mem_inv_def mem_view_def
        pg_callbacks_inv_def mem_callbacks_inv_def split: prod.splits)

text \<open>
  C30: A request that was saved stays saved: whatever sequence of operations follows, with requests,
  results and confirmations of any operation in any order, loading it returns the request as it was
  saved (up to the replacement of invalid UTF-8), from the PostgreSQL store and from the memory store.
\<close>

theorem saved_requests_are_permanent:
  assumes "wf_http_request q" and "plain_id (hq_ProxyID q)" and "list_all (\<lambda>(now, x). plain_op x) ops"
    and "pg_inv db" and "pg_view db (hq_ProxyID q, hq_RequestID q) = None"
    and "mem_inv s" and "mem_view s (hq_ProxyID q, hq_RequestID q) = None"
  shows "(\<exists>x. pg_Load (hq_ProxyID q) (hq_RequestID q) (fold pg_apply ops (snd (pg_SaveOutgoing now q db))) = Inr x
        \<and> canon_http_request (so_Request x) = canon_http_request q)
    \<and> (\<exists>x. mem_Load (hq_ProxyID q) (hq_RequestID q) (fold mem_apply ops (snd (mem_SaveOutgoing q s))) = Inr x
        \<and> canon_http_request (so_Request x) = canon_http_request q)"
  using pg.saved_request_is_permanent [OF assms(4,1,2,5,3), of now] mem.saved_request_is_permanent [OF assms(6,1,2,7,3)]
  by (simp add: pg_apply_ops mem_apply_ops)

theorem saved_requests_are_permanent_witness:
  "\<exists>x. pg_Load ''p1'' ''r1'' (fold pg_apply [(2, OpAccept ''p1'' ''r1''), (3, OpResult ''p1'' sample_unknown), (4, OpSave (sample_stored\<lparr>hq_Method := ''PUT''\<rparr>))]
      (snd (pg_SaveOutgoing 1 sample_stored empty_client_db))) = Inr x \<and> canon_http_request (so_Request x) = canon_http_request sample_stored"
proof -
  let ?ops = "[(2, OpAccept ''p1'' ''r1''), (3, OpResult ''p1'' sample_unknown), (4, OpSave (sample_stored\<lparr>hq_Method := ''PUT''\<rparr>))]"
  have "wf_http_request sample_stored" "plain_id (hq_ProxyID sample_stored)" "list_all (\<lambda>(now, x). plain_op x) ?ops" by code_simp+
  from saved_requests_are_permanent [OF this empty_stores(1,2,3,4), of 1] show ?thesis
    by (simp add: sample_stored_def)
qed

text \<open>
  Only the PostgreSQL store keeps a late acceptance from undoing progress: there marking an operation
  as accepted never lowers the state of any operation, while in the memory store it turns a completed
  operation back into an accepted, hence pending one.
\<close>

lemma late_acceptance_keeps_progress:
  "(\<forall>now p i db k x. pg_inv db \<longrightarrow> pg_view db k = Some x \<longrightarrow>
      (\<exists>y. pg_view (snd (pg_MarkAccepted now p i db)) k = Some y \<and> so_Result y = so_Result x \<and> so_State x \<le> so_State y))
   \<and> (\<exists>s x y. mem_Load ''p1'' ''r1'' s = Inr x \<and> so_State x = StateComplete
        \<and> mem_Load ''p1'' ''r1'' (snd (mem_MarkAccepted ''p1'' ''r1'' s)) = Inr y \<and> so_State y < so_State x)"
proof (intro conjI allI impI)
  fix now p i db k x
  assume inv: "pg_inv db" and x: "pg_view db k = Some x"
  have rank: "so_State x \<le> StateAccepted" if "so_State x = StateOutgoing" using that by (simp add: less_eq_client_state_def)
  show "\<exists>y. pg_view (snd (pg_MarkAccepted now p i db)) k = Some y \<and> so_Result y = so_Result x \<and> so_State x \<le> so_State y"
  proof (cases "row_by or_key (p, i) (cd_operations db)")
    case None
    then show ?thesis using or_unmatched [OF None] x by (simp add: pg_MarkAccepted_def Let_def)
  next
    case (Some row)
    let ?f = "\<lambda>r. r\<lparr>or_state := if or_state r = StateOutgoing then StateAccepted else or_state r, or_updated_at := now\<rparr>"
    let ?st = "if or_state row = StateOutgoing then StateAccepted else or_state row"
    obtain y where y: "pg_view db (p, i) = Some y" "so_State y = or_state row" "read_operation (?f row) = Inr (y\<lparr>so_State := ?st\<rparr>)"
      by (rule pg_view_row [OF inv Some]) (rule that; (assumption | blast))
    have "pg_view (snd (pg_MarkAccepted now p i db)) = (pg_view db)((p, i) \<mapsto> y\<lparr>so_State := ?st\<rparr>)"
      using pg_view_update [of ?f p i db row, OF _ Some y(3)] by (simp add: pg_MarkAccepted_def Let_def)
    then show ?thesis using x y(1,2) rank by (cases "k = (p, i)") auto
  qed
next
  let ?x = "\<lparr>so_Request = sample_stored, so_Result = Some sample_unknown, so_State = StateComplete\<rparr>"
  let ?s = "NewMemoryStore\<lparr>ms_Operations := [storeKey ''p1'' ''r1'' \<mapsto> ?x]\<rparr>"
  show "\<exists>s x y. mem_Load ''p1'' ''r1'' s = Inr x \<and> so_State x = StateComplete
      \<and> mem_Load ''p1'' ''r1'' (snd (mem_MarkAccepted ''p1'' ''r1'' s)) = Inr y \<and> so_State y < so_State x"
    by (intro exI [of _ ?s] exI [of _ ?x] exI [of _ "?x\<lparr>so_State := StateAccepted\<rparr>"])
      (simp add: mem_Load_def mem_MarkAccepted_def less_client_state_def)
qed

subsection \<open>Pending operations\<close>

lemma read_rows_ok: "(\<And>r. r \<in> set rs \<Longrightarrow> f r = Inr (g r)) \<Longrightarrow> read_rows f rs = Inr (map g rs)"
  by (induction rs) (simp_all add: go_try_def)

lemma filter_delete_where: "(\<And>r. r \<in> set t \<Longrightarrow> p r \<Longrightarrow> \<not> q r) \<Longrightarrow> filter p (delete_where q t) = filter p t"
  by (induction t) (auto simp: delete_where_def)

lemma cleanup_keeps_pending:
  assumes "unique_by or_key (cd_operations db)" and "r \<in> set (cd_operations db)" and "or_state r \<noteq> StateComplete"
  shows "or_key r \<notin> set (map or_key (order_limit or_updated_at n (select_where (done_operation before) (cd_operations db))))"
proof
  assume "or_key r \<in> set (map or_key (order_limit or_updated_at n (select_where (done_operation before) (cd_operations db))))"
  then obtain d where d: "d \<in> set (order_limit or_updated_at n (select_where (done_operation before) (cd_operations db)))" "or_key d = or_key r" by auto
  have "d \<in> set (select_where (done_operation before) (cd_operations db))" by (rule subsetD [OF order_limit_subset d(1)])
  then have d': "d \<in> set (cd_operations db)" "or_state d = StateComplete" by (auto simp: sql_simps done_operation_def)
  have "Some d = Some r" using row_by_of_mem [OF assms(1) d'(1)] row_by_of_mem [OF assms(1,2)] unfolding d(2) by (rule box_equals [OF refl])
  then have "d = r" by simp
  then show False using d'(2) assms(3) by simp
qed

definition pending_row :: "string \<Rightarrow> operation_row \<Rightarrow> bool" where
  "pending_row p r \<longleftrightarrow> or_proxy_id r = p \<and> or_state r \<noteq> StateComplete"

text \<open>
  Listing the pending operations of a proxy succeeds,
  returns only unfinished operations, all of them if they are within the limit, and running the retention
  in between, with any bound and batch, makes no difference.
\<close>

lemma pg_pending_listed:
  assumes inv: "pg_inv db"
  shows "\<exists>xs. pg_ListPending p limit db = Inr xs
    \<and> (\<forall>x \<in> set xs. so_State x \<noteq> StateComplete \<and> (\<exists>i. pg_view db (p, i) = Some x))
    \<and> (rows_affected (pending_row p) (cd_operations db) \<le> pg_limit limit \<longrightarrow>
        (\<forall>i x. pg_view db (p, i) = Some x \<longrightarrow> so_State x \<noteq> StateComplete \<longrightarrow> x \<in> set xs))
    \<and> pg_ListPending p limit (snd (pg_Cleanup before batch db)) = Inr xs"
proof -
  have uniq: "unique_by or_key (cd_operations db)" using inv by (simp add: pg_inv_def)
  let ?pend = "select_where (\<lambda>r. or_proxy_id r = p \<and> or_state r \<noteq> StateComplete) (cd_operations db)"
  let ?rows = "order_limit or_created_at (pg_limit limit) ?pend"
  define g where "g r = the (pg_view db (or_key r))" for r
  have row: "read_operation r = Inr (g r) \<and> pg_view db (or_key r) = Some (g r) \<and> so_State (g r) = or_state r" if r: "r \<in> set (cd_operations db)" for r
  proof -
    obtain x where "read_operation r = Inr x" "pg_view db (or_key r) = Some x" "so_State x = or_state r"
      by (rule pg_view_row [OF inv row_by_of_mem [OF uniq r]]) (rule that; assumption)
    then show ?thesis by (simp add: g_def)
  qed
  have sub: "r \<in> set (cd_operations db) \<and> pending_row p r" if "r \<in> set ?rows" for r
    using that order_limit_subset [of or_created_at "pg_limit limit" ?pend] by (auto simp: sql_simps pending_row_def)
  have list: "pg_ListPending p limit db = Inr (map g ?rows)"
    unfolding pg_ListPending_def by (rule read_rows_ok) (use sub row in blast)
  let ?doomed = "map or_key (order_limit or_updated_at (pg_limit batch) (select_where (done_operation before) (cd_operations db)))"
  have "filter (\<lambda>r. or_proxy_id r = p \<and> or_state r \<noteq> StateComplete) (delete_where (\<lambda>r. or_key r \<in> set ?doomed) (cd_operations db))
      = filter (\<lambda>r. or_proxy_id r = p \<and> or_state r \<noteq> StateComplete) (cd_operations db)"
    by (rule filter_delete_where) (use cleanup_keeps_pending [OF uniq] in blast)
  then have same: "pg_ListPending p limit (snd (pg_Cleanup before batch db)) = pg_ListPending p limit db"
    by (simp add: pg_ListPending_def pg_Cleanup_def Let_def select_where_def)
  have listed: "\<forall>x \<in> set (map g ?rows). so_State x \<noteq> StateComplete \<and> (\<exists>i. pg_view db (p, i) = Some x)"
  proof
    fix x assume "x \<in> set (map g ?rows)"
    then obtain r where r: "r \<in> set ?rows" "x = g r" unfolding set_map by (rule imageE)
    have "pg_view db (p, or_request_id r) = Some x" "so_State x = or_state r" "or_state r \<noteq> StateComplete"
      using row [OF sub [OF r(1), THEN conjunct1]] sub [OF r(1)] r(2) unfolding pending_row_def by (simp_all only: not_False_eq_True)
    then show "so_State x \<noteq> StateComplete \<and> (\<exists>i. pg_view db (p, i) = Some x)" by (intro conjI exI [of _ "or_request_id r"]) simp_all
  qed
  have all: "x \<in> set (map g ?rows)" if lim: "rows_affected (pending_row p) (cd_operations db) \<le> pg_limit limit"
    and v: "pg_view db (p, i) = Some x" "so_State x \<noteq> StateComplete" for i x
  proof -
    obtain r where r: "row_by or_key (p, i) (cd_operations db) = Some r"
      using v(1) by (auto simp: pg_view_def table_view_def split: option.splits)
    then have mem: "r \<in> set (cd_operations db)" "or_key r = (p, i)" by (auto dest: row_by_Some_mem)
    have "length ?pend \<le> pg_limit limit" using lim by (simp add: rows_affected_def select_where_def pending_row_def [abs_def])
    then have "set ?rows = set ?pend" by (simp add: order_limit_def)
    moreover have "g r = x" "or_state r \<noteq> StateComplete" using row [OF mem(1)] mem(2) v by auto
    ultimately show ?thesis using mem by (auto simp: sql_simps intro!: image_eqI [of _ g r])
  qed
  show ?thesis using list same listed all by (intro exI [of _ "map g ?rows"] conjI allI impI) simp_all
qed

subsection \<open>Callbacks\<close>

definition sample_reply :: "int \<Rightarrow> webhook_response" where
  "sample_reply status = zero_webhook_response\<lparr>wp_EventID := ''e1'', wp_DeliveryID := ''d1'', wp_ClientID := ''shop'', wp_StatusCode := status\<rparr>"

definition sample_callback :: webhook_event where
  "sample_callback = zero_webhook_event\<lparr>ev_EventID := ''e1'', ev_DeliveryID := ''d1'', ev_ProxyID := ''p1''\<rparr>"

text \<open>
  A callback is answered once: two responses that a store takes for the same delivery, at any two
  moments of any sequence of callback operations, are the same response; a second, different one is
  refused. So a handler that runs again after a crash cannot send another answer.
\<close>

lemma callbacks_are_answered_once:
  assumes "plain_id p" and "plain_response r1" and "plain_response r2" and "wp_DeliveryID r2 = wp_DeliveryID r1"
    and "list_all (\<lambda>(now, x). plain_callback_op x) ops" and "pg_callbacks_inv db" and "mem_callbacks_inv s"
  shows "(is_ok (fst (pg_SaveCallbackResponse t1 p r1 db))
        \<and> is_ok (fst (pg_SaveCallbackResponse t2 p r2 (fold pg_callback_apply ops (snd (pg_SaveCallbackResponse t1 p r1 db)))))
        \<longrightarrow> sameCallbackResponse r1 r2)
    \<and> (is_ok (fst (mem_SaveCallbackResponse p r1 s))
        \<and> is_ok (fst (mem_SaveCallbackResponse p r2 (fold mem_callback_apply ops (snd (mem_SaveCallbackResponse p r1 s)))))
        \<longrightarrow> sameCallbackResponse r1 r2)"
  using pg_callbacks.one_response [OF assms(6,1-5), of t1 t2] mem_callbacks.one_response [OF assms(7,1-5)]
  by (auto simp: pg_apply_callbacks mem_apply_callbacks)

end
