(* ===== verification/Client_Core.thy ===== *)
theory Client_Core
  imports Client_Store Transport_Core
begin

text \<open>
  \<^verbatim>\<open>client/client.go\<close>: the configuration of the client library, its maps of channels, signing and
  publishing, decoding and the four NATS handlers. A buffered channel is the list of the values in it;
  a message handler is a function of the message and the client's maps.
\<close>

record client_config =
  cc_ClientID :: string
  cc_ProxyID :: string
  cc_Signer :: bytes
  cc_ProxyPublicKey :: bytes
  cc_RequireProxySignature :: bool
  cc_RetryInterval :: go_duration
  cc_MaxRetryInterval :: go_duration
  cc_Retention :: go_duration
  cc_CleanupInterval :: go_duration
  cc_CallbackWorkers :: int

definition natsToken :: "string \<Rightarrow> bool" where
  "natsToken v \<longleftrightarrow> v \<noteq> [] \<and>
     list_all (\<lambda>c. \<not> (c = CHR ''.'' \<or> c = CHR ''*'' \<or> c = CHR ''>'' \<or> c = CHR '' '' \<or> c = CHR 0x09 \<or> c = CHR 0x0D \<or> c = CHR 0x0A)) v"

text \<open>The checks and defaults of \<^verbatim>\<open>New\<close>; the flags say whether a connection and a store are given.\<close>

definition client_defaults :: "client_config \<Rightarrow> client_config" where
  "client_defaults cfg = cfg\<lparr>
     cc_RetryInterval := if cc_RetryInterval cfg \<le> 0 then 1000000000 else cc_RetryInterval cfg,
     cc_MaxRetryInterval := if cc_MaxRetryInterval cfg \<le> 0 then 30000000000 else cc_MaxRetryInterval cfg,
     cc_Retention := if cc_Retention cfg \<le> 0 then 30 * 24 * 3600000000000 else cc_Retention cfg,
     cc_CleanupInterval := if cc_CleanupInterval cfg \<le> 0 then 3600000000000 else cc_CleanupInterval cfg,
     cc_CallbackWorkers := if cc_CallbackWorkers cfg \<le> 0 then 8 else cc_CallbackWorkers cfg\<rparr>"

definition client_New :: "bool \<Rightarrow> bool \<Rightarrow> client_config \<Rightarrow> client_config go_result" where
  "client_New has_conn has_store cfg =
     check (has_conn \<and> has_store) (ErrText ''NATS connection and durable store are required'') (
     check (cc_ClientID cfg \<noteq> [] \<and> cc_ProxyID cfg \<noteq> []) (ErrText ''client_id and proxy_id are required'') (
     check (natsToken (cc_ClientID cfg) \<and> natsToken (cc_ProxyID cfg)) (ErrText ''client_id and proxy_id must each be a single NATS token'') (
     check (length (cc_Signer cfg) = PrivateKeySize) (ErrText ''client signing key is required'') (
     check (\<not> (cc_RequireProxySignature cfg \<and> length (cc_ProxyPublicKey cfg) \<noteq> PublicKeySize)) (ErrText ''proxy public key is required'') (
     Inr (client_defaults cfg))))))"

lemma client_New_ok:
  assumes "client_New a b cfg0 = Inr cfg"
  shows "cfg = client_defaults cfg0 \<and> cc_ClientID cfg0 \<noteq> [] \<and> natsToken (cc_ClientID cfg0) \<and> natsToken (cc_ProxyID cfg0)
    \<and> length (cc_Signer cfg0) = PrivateKeySize"
  using assms by (simp add: client_New_def check_def split: if_splits)

subsection \<open>Channels\<close>

record client =
  ct_acceptance :: "string \<rightharpoonup> acceptance list"
  ct_results :: "string \<rightharpoonup> http_result list"
  ct_confirmed :: "string \<rightharpoonup> unit list"
  ct_control :: "string \<rightharpoonup> webhook_control_result list"

definition no_channels :: client where
  "no_channels = \<lparr>ct_acceptance = Map.empty, ct_results = Map.empty, ct_confirmed = Map.empty, ct_control = Map.empty\<rparr>"

text \<open>A send that is dropped when there is no channel or its buffer is full.\<close>

definition trySend :: "nat \<Rightarrow> string \<Rightarrow> 'a \<Rightarrow> (string \<rightharpoonup> 'a list) \<Rightarrow> (string \<rightharpoonup> 'a list)" where
  "trySend cap k v chans =
     (case chans k of None \<Rightarrow> chans | Some buf \<Rightarrow> if length buf < cap then chans(k \<mapsto> buf @ [v]) else chans)"

subsection \<open>Messages\<close>

definition client_subject :: "client_config \<Rightarrow> string \<Rightarrow> string" where
  "client_subject cfg ending = ''client.'' @ cc_ClientID cfg @ ''.proxy.'' @ cc_ProxyID cfg @ ''.'' @ ending"

definition client_publish ::
  "client_config \<Rightarrow> crypto_lib \<Rightarrow> wire_lib \<Rightarrow> io \<Rightarrow> string \<Rightarrow> string \<Rightarrow> json \<Rightarrow> unit go_result \<times> nats_msg list" where
  "client_publish cfg lib wl io subject typ payload =
     (let data = wl_env_text wl (NewEnvelope lib (io_entropy io) (io_clock io) typ (wl_text wl payload) (cc_Signer cfg))
      in if io_published io then (Inr (), [\<lparr>nm_Subject = subject, nm_Data = data\<rparr>]) else (Inl ErrUnavailable, []))"

definition client_decode ::
  "client_config \<Rightarrow> crypto_lib \<Rightarrow> wire_lib \<Rightarrow> go_time \<Rightarrow> (json \<Rightarrow> 'a option) \<Rightarrow> string \<Rightarrow> bytes \<Rightarrow> 'a go_result" where
  "client_decode cfg lib wl clock unmarshal typ data =
     (case wl_env_parse wl data of
        None \<Rightarrow> Inl ErrJSON
      | Some e \<Rightarrow>
          check (en_Type e = typ) (ErrText ''unexpected message type'') (
          go_try (if cc_RequireProxySignature cfg then Verify lib clock e [cc_ProxyPublicKey cfg] 300000000000 else Inr ())
            (\<lambda>_. read_json wl unmarshal (en_Payload e))))"

definition handleAcceptance :: "client_config \<Rightarrow> crypto_lib \<Rightarrow> wire_lib \<Rightarrow> go_time \<Rightarrow> bytes \<Rightarrow> client \<Rightarrow> client" where
  "handleAcceptance cfg lib wl clock data c =
     (case client_decode cfg lib wl clock unmarshal_acceptance TypeAcceptance data of
        Inl _ \<Rightarrow> c
      | Inr v \<Rightarrow> c\<lparr>ct_acceptance := trySend 4 (ac_RequestID v) v (ct_acceptance c)\<rparr>)"

definition handleResult :: "client_config \<Rightarrow> crypto_lib \<Rightarrow> wire_lib \<Rightarrow> go_time \<Rightarrow> bytes \<Rightarrow> client \<Rightarrow> client" where
  "handleResult cfg lib wl clock data c =
     (case client_decode cfg lib wl clock unmarshal_http_result TypeHTTPResult data of
        Inl _ \<Rightarrow> c
      | Inr v \<Rightarrow> c\<lparr>ct_results := trySend 4 (rs_RequestID v) v (ct_results c)\<rparr>)"

definition handleConfirmed :: "client_config \<Rightarrow> crypto_lib \<Rightarrow> wire_lib \<Rightarrow> go_time \<Rightarrow> bytes \<Rightarrow> client \<Rightarrow> client" where
  "handleConfirmed cfg lib wl clock data c =
     (case client_decode cfg lib wl clock unmarshal_ack_confirmed TypeACKConfirmed data of
        Inl _ \<Rightarrow> c
      | Inr v \<Rightarrow> c\<lparr>ct_confirmed := trySend 2 (kc_DeliveryID v) () (ct_confirmed c)\<rparr>)"

definition handleControlResult :: "client_config \<Rightarrow> crypto_lib \<Rightarrow> wire_lib \<Rightarrow> go_time \<Rightarrow> bytes \<Rightarrow> client \<Rightarrow> client" where
  "handleControlResult cfg lib wl clock data c =
     (case client_decode cfg lib wl clock unmarshal_control_result TypeWebhookControlResult data of
        Inl _ \<Rightarrow> c
      | Inr v \<Rightarrow> c\<lparr>ct_control := trySend 4 (cr_CommandID v) v (ct_control c)\<rparr>)"

subsection \<open>What decoding guarantees\<close>

lemma dec_members_keeps:
  assumes "dec_members fs ms x = Some y" "P x"
    and "\<And>f v a b. f \<in> set fs \<Longrightarrow> jf_dec f v a = Some b \<Longrightarrow> P a \<Longrightarrow> P b"
  shows "P y"
  using assms(1,2)
proof (induction ms arbitrary: x)
  case (Cons m ms)
  obtain k v where m: "m = (k, v)" by (cases m)
  show ?case
  proof (cases "find_field fs k")
    case None
    then show ?thesis using Cons m by simp
  next
    case (Some f)
    have f: "f \<in> set fs" using Some by (auto simp: find_field_def find_Some_iff split: option.splits)
    obtain x' where x': "jf_dec f v x = Some x'" "dec_members fs ms x' = Some y"
      using Cons.prems(1) m Some by (auto split: option.splits)
    show ?thesis by (rule Cons.IH [OF x'(2) assms(3) [OF f x'(1) Cons.prems(2)]])
  qed
qed simp

text \<open>Results as decoded from JSON have numbers of 64 bits and valid text.\<close>

lemma unmarshal_result_plain:
  assumes "unmarshal_http_result j = Some r"
  shows "plain_result r"
proof -
  have zero: "plain_result zero_http_result"
    by (simp add: plain_result_def zero_http_result_def wf_http_result_def in_int64_def)
  have field: "plain_result b" if "f \<in> set http_result_fields" "jf_dec f v a = Some b" "plain_result a" for f v a b
    using that by (auto simp: http_result_fields_def field_defs plain_result_def wf_http_result_def split: json.splits if_splits)
  show ?thesis
    using assms zero dec_members_keeps [where P = plain_result, OF _ zero field]
    by (auto simp: unmarshal_http_result_def unmarshal_struct_def split: json.splits)
qed

lemma client_decode_ok: "client_decode cfg lib wl clock unmarshal typ data = Inr v \<Longrightarrow> \<exists>j. unmarshal j = Some v"
  by (auto simp: client_decode_def go_try_def check_def read_json_def split: option.splits sum.splits if_splits)

lemma trySend_at: "trySend cap k v m k' = Some buf \<Longrightarrow> x \<in> set buf \<Longrightarrow> (\<exists>old. m k' = Some old \<and> x \<in> set old) \<or> x = v \<and> k' = k"
  by (auto simp: trySend_def split: option.splits if_splits)

end
