(* ===== verification/Client_Outgoing.thy ===== *)
theory Client_Outgoing
  imports Client_Core Http_Executor
begin

text \<open>
  \<^verbatim>\<open>client/outgoing.go\<close>: the client's side of an exchange. An operation is saved, announced until it is
  accepted, its acceptance recorded and confirmed, its result saved and confirmed, and completed.

  \<^verbatim>\<open>execute\<close> is cut at its blocking points: \<open>op_phase\<close> is what the goroutine waits for, with the values of
  its variables, and each function below is the code from one such point to the next. The store is the
  record of its methods; every call of it takes a \<open>fault\<close>, since a call can fail before or after its effect.
\<close>

record 's store_api =
  sa_SaveOutgoing :: "pg_time \<Rightarrow> http_request \<Rightarrow> 's \<Rightarrow> unit go_result \<times> 's"
  sa_Load :: "string \<Rightarrow> string \<Rightarrow> 's \<Rightarrow> stored_operation go_result"
  sa_MarkAccepted :: "pg_time \<Rightarrow> string \<Rightarrow> string \<Rightarrow> 's \<Rightarrow> unit go_result \<times> 's"
  sa_SaveResult :: "pg_time \<Rightarrow> string \<Rightarrow> http_result \<Rightarrow> 's \<Rightarrow> http_result go_result \<times> 's"
  sa_MarkComplete :: "pg_time \<Rightarrow> string \<Rightarrow> string \<Rightarrow> 's \<Rightarrow> unit go_result \<times> 's"
  sa_Cleanup :: "pg_time \<Rightarrow> int \<Rightarrow> 's \<Rightarrow> 's"

datatype run_error = RunError go_error | OutcomeUnknownError string string

definition OutcomeUnknown_text :: "string \<Rightarrow> string \<Rightarrow> string" where
  "OutcomeUnknown_text requestID cause = ''HTTP outcome is unknown for '' @ requestID @ '': '' @ cause"

record operation_outcome =
  oo_result :: http_result
  oo_err :: "run_error option"

datatype op_phase =
    Requesting http_request go_duration
  | AckingAcceptance http_request delivery_ack go_duration
  | AwaitingResult http_request
  | AckingResult http_request delivery_ack http_result go_duration

datatype client_msg =
    RequestMsg http_request
  | AckMsg string string delivery_ack
  | CommandMsg string json
  | ResponseMsg string webhook_response

subsection \<open>Requests and responses of \<^verbatim>\<open>net/http\<close>\<close>

definition requestHeaders :: "http_header \<Rightarrow> string \<Rightarrow> int \<Rightarrow> header_field list" where
  "requestHeaders h host len =
     concat (map (\<lambda>k. map (\<lambda>v. \<lparr>hf_Name = k, hf_Value = v\<rparr>) (header_values h k)) (sort (map fst h)))
     @ (if host \<noteq> [] then [\<lparr>hf_Name = ''Host'', hf_Value = host\<rparr>] else [])
     @ (if 0 \<le> len then [\<lparr>hf_Name = ''Content-Length'', hf_Value = FormatInt len\<rparr>] else [])"

definition fieldsToHeader :: "header_field list \<Rightarrow> http_header" where
  "fieldsToHeader fs = fold (\<lambda>f h. header_add (hf_Name f) (hf_Value f) h) fs []"

text \<open>
  \<^verbatim>\<open>RoundTrip\<close> up to \<open>start\<close>: the identifier and the policy come from the caller's context, the timeout from
  its deadline. The body is what could be read of the request's body, or the error of reading it.
\<close>

definition round_trip_request ::
  "client_config \<Rightarrow> bytes \<Rightarrow> go_time \<Rightarrow> string \<Rightarrow> retry_policy \<Rightarrow> go_time option \<Rightarrow> http_call \<Rightarrow> bytes go_result \<Rightarrow> http_request go_result" where
  "round_trip_request cfg entropy clock ctx_id policy deadline req body =
     go_try body (\<lambda>b.
       let timeout = (case deadline of None \<Rightarrow> 0 | Some t \<Rightarrow> Since t clock)
       in check (0 \<le> timeout) (ErrText ''context deadline exceeded'') (Inr
            (zero_http_request\<lparr>hq_RequestID := (if ctx_id = [] then ''req_'' @ randomID entropy else ctx_id), hq_ClientID := cc_ClientID cfg, hq_ProxyID := cc_ProxyID cfg,
             hq_Method := hc_Method req, hq_URL := hc_URL req, hq_Headers := requestHeaders (hc_Header req) (hc_Host req) (hc_ContentLength req),
             hq_Body := b, hq_Timeout := timeout, hq_Retry := policy, hq_CreatedAt := clock\<rparr>)))"

definition round_trip_response :: "operation_outcome \<Rightarrow> (run_error + http_response)" where
  "round_trip_response o1 =
     (case oo_err o1 of
        Some e \<Rightarrow> Inl e
      | None \<Rightarrow> Inr \<lparr>hr_StatusCode = rs_StatusCode (oo_result o1), hr_Header = fieldsToHeader (rs_Headers (oo_result o1)),
                    hr_Body = rs_Body (oo_result o1), hr_broken = False\<rparr>)"

text \<open>\<^verbatim>\<open>Do\<close> up to \<open>start\<close>.\<close>

definition do_request :: "client_config \<Rightarrow> bytes \<Rightarrow> go_time \<Rightarrow> http_request \<Rightarrow> http_request" where
  "do_request cfg entropy clock q = q\<lparr>
     hq_RequestID := if hq_RequestID q = [] then ''req_'' @ randomID entropy else hq_RequestID q,
     hq_ClientID := cc_ClientID cfg, hq_ProxyID := cc_ProxyID cfg,
     hq_CreatedAt := if hq_CreatedAt q = 0 then clock else hq_CreatedAt q\<rparr>"

subsection \<open>Waiting times\<close>

definition nextBackoff :: "go_duration \<Rightarrow> go_duration \<Rightarrow> go_duration" where
  "nextBackoff current maximum =
     (let cur = (if current \<le> 0 then 1000000000 else current);
          next = wrap64 (cur * 2)
      in if next < cur \<or> maximum < next then maximum else next)"

subsection \<open>The run of an operation\<close>

text \<open>What a run does next: it waits in a phase, or it is finished; with the messages it has published.\<close>

type_synonym 's run_step = "client_msg list \<times> (operation_outcome + op_phase) \<times> 's"

definition failed_run :: "run_error \<Rightarrow> operation_outcome + op_phase" where
  "failed_run e = Inl \<lparr>oo_result = zero_http_result, oo_err = Some e\<rparr>"

definition stored_outcome :: "http_result \<Rightarrow> string \<Rightarrow> operation_outcome" where
  "stored_outcome r rid =
     \<lparr>oo_result = r, oo_err = (if rs_State r = ''unknown'' then Some (OutcomeUnknownError rid (rs_Error r)) else None)\<rparr>"

definition accepted_acks :: "client_config \<Rightarrow> string" where
  "accepted_acks cfg = ''proxy.'' @ cc_ProxyID cfg @ ''.accepted_acks''"

definition result_acks :: "client_config \<Rightarrow> string" where
  "result_acks cfg = ''proxy.'' @ cc_ProxyID cfg @ ''.result_acks''"

definition execute_begin :: "client_config \<Rightarrow> http_request \<Rightarrow> 's \<Rightarrow> 's run_step" where
  "execute_begin cfg req s = ([RequestMsg req], Inr (Requesting req (cc_RetryInterval cfg)), s)"

text \<open>An acceptance arrives: it ends the loop unless it names no request.\<close>

definition execute_accepted ::
  "'s store_api \<Rightarrow> client_config \<Rightarrow> pg_time \<Rightarrow> fault \<Rightarrow> http_request \<Rightarrow> go_duration \<Rightarrow> acceptance \<Rightarrow> 's \<Rightarrow> 's run_step" where
  "execute_accepted api cfg now flt req delay acc s =
     (if ac_RequestID acc = [] then ([RequestMsg req], Inr (Requesting req delay), s)
      else if \<not> ac_Accepted acc
      then ([], failed_run (RunError (ErrText (''proxy rejected request ('' @ ac_ErrorCode acc @ ''): '' @ ac_Error acc))), s)
      else case db_call flt (sa_MarkAccepted api now (hq_ProxyID req) (hq_RequestID req)) s of
             (Inl e, s') \<Rightarrow> ([], failed_run (RunError (ErrText (''persist acceptance: '' @ error_text e))), s')
           | (Inr _, s') \<Rightarrow>
               let ack = \<lparr>da_RequestID = hq_RequestID req, da_DeliveryID = ac_DeliveryID acc, da_ClientID = cc_ClientID cfg\<rparr>
               in ([AckMsg (accepted_acks cfg) TypeAcceptanceACK ack], Inr (AckingAcceptance req ack (cc_RetryInterval cfg)), s'))"

text \<open>A result arrives.\<close>

definition execute_result ::
  "'s store_api \<Rightarrow> client_config \<Rightarrow> pg_time \<Rightarrow> fault \<Rightarrow> http_request \<Rightarrow> http_result \<Rightarrow> 's \<Rightarrow> 's run_step" where
  "execute_result api cfg now flt req result s =
     (case db_call flt (sa_SaveResult api now (hq_ProxyID req) result) s of
        (Inl e, s') \<Rightarrow> ([], failed_run (RunError (ErrText (''persist HTTP result: '' @ error_text e))), s')
      | (Inr effective, s') \<Rightarrow>
          let ack = \<lparr>da_RequestID = hq_RequestID req, da_DeliveryID = rs_ResultID result, da_ClientID = cc_ClientID cfg\<rparr>
          in ([AckMsg (result_acks cfg) TypeResultACK ack], Inr (AckingResult req ack effective (cc_RetryInterval cfg)), s'))"

text \<open>A confirmation arrives: \<^verbatim>\<open>ackUntilConfirmed\<close> returns, and \<^verbatim>\<open>execute\<close> continues.\<close>

definition execute_confirmed :: "'s store_api \<Rightarrow> pg_time \<Rightarrow> fault \<Rightarrow> op_phase \<Rightarrow> 's \<Rightarrow> 's run_step" where
  "execute_confirmed api now flt ph s =
     (case ph of
        AckingAcceptance req ack d \<Rightarrow> ([], Inr (AwaitingResult req), s)
      | AckingResult req ack effective d \<Rightarrow>
          (case db_call flt (sa_MarkComplete api now (hq_ProxyID req) (hq_RequestID req)) s of
             (Inl e, s') \<Rightarrow> ([], failed_run (RunError e), s')
           | (Inr _, s') \<Rightarrow> ([], Inl (stored_outcome effective (hq_RequestID req)), s'))
      | _ \<Rightarrow> ([], Inr ph, s))"

text \<open>The timer fires: the message is published again and the wait grows.\<close>

definition execute_timer :: "client_config \<Rightarrow> op_phase \<Rightarrow> client_msg list \<times> op_phase" where
  "execute_timer cfg ph =
     (case ph of
        Requesting req d \<Rightarrow> ([RequestMsg req], Requesting req (nextBackoff d (cc_MaxRetryInterval cfg)))
      | AckingAcceptance req ack d \<Rightarrow>
          ([AckMsg (accepted_acks cfg) TypeAcceptanceACK ack], AckingAcceptance req ack (nextBackoff d (cc_MaxRetryInterval cfg)))
      | AckingResult req ack effective d \<Rightarrow>
          ([AckMsg (result_acks cfg) TypeResultACK ack], AckingResult req ack effective (nextBackoff d (cc_MaxRetryInterval cfg)))
      | AwaitingResult req \<Rightarrow> ([], ph))"

text \<open>The channel of confirmations that a phase listens on.\<close>

fun phase_delivery :: "op_phase \<Rightarrow> string option" where
  "phase_delivery (AckingAcceptance req ack d) = Some (da_DeliveryID ack)"
| "phase_delivery (AckingResult req ack eff d) = Some (da_DeliveryID ack)"
| "phase_delivery _ = None"

subsection \<open>Starting a run\<close>

text \<open>
  \<^verbatim>\<open>start\<close>: saving, loading, and joining a run, finishing from the stored result or beginning a run.
  The answer is the identifier under which the run is known, or the outcome.
\<close>

datatype start_answer = StartFailed go_error | Joined string | AlreadyDone operation_outcome | Begun http_request

definition client_start ::
  "'s store_api \<Rightarrow> pg_time \<Rightarrow> fault \<Rightarrow> bool \<Rightarrow> http_request \<Rightarrow> (string \<Rightarrow> bool) \<Rightarrow> 's \<Rightarrow> start_answer \<times> 's" where
  "client_start api now flt load_fails request running s =
     (if hq_RequestID request = [] then (StartFailed (ErrText ''request_id is required''), s)
      else case db_call flt (sa_SaveOutgoing api now request) s of
             (Inl e, s') \<Rightarrow> (StartFailed (ErrText (''persist outgoing request: '' @ error_text e)), s')
           | (Inr _, s') \<Rightarrow>
               (case (if load_fails then Inl ErrUnavailable else sa_Load api (hq_ProxyID request) (hq_RequestID request) s') of
                  Inl e \<Rightarrow> (StartFailed (ErrText (''load outgoing request: '' @ error_text e)), s')
                | Inr stored \<Rightarrow>
                    let rid = hq_RequestID (so_Request stored)
                    in if running rid then (Joined rid, s')
                       else case (so_State stored, so_Result stored) of
                              (StateComplete, Some r) \<Rightarrow> (AlreadyDone (stored_outcome r rid), s')
                            | _ \<Rightarrow> (Begun (so_Request stored), s')))"

end
