(* ===== verification/Client_System.thy ===== *)
theory Client_System
  imports Client_Outgoing Transition_System Memory_Store Postgres_Store
begin

text \<open>
  The client library as a step relation: any number of operations run at the same time over one store,
  NATS messages arrive in any order, timers fire, calls of the store fail, the retention runs, and the
  process can stop at every point and start again with an empty memory and the same store.

  One process at a time uses the store for a client and proxy, as the library requires for its
  in-memory map of runs to be of use.
\<close>

record 's client_sys =
  cy_client :: client
  cy_runs :: "string \<rightharpoonup> op_phase"
  cy_store :: 's
  cy_sent :: "client_msg list"
  cy_outcomes :: "(string \<times> operation_outcome) list"

text \<open>The channels that \<^verbatim>\<open>start\<close> makes for a run and deletes after it.\<close>

definition open_channels :: "string \<Rightarrow> client \<Rightarrow> client" where
  "open_channels rid c = c\<lparr>ct_acceptance := (ct_acceptance c)(rid \<mapsto> []), ct_results := (ct_results c)(rid \<mapsto> [])\<rparr>"

definition close_channels :: "string \<Rightarrow> client \<Rightarrow> client" where
  "close_channels rid c = c\<lparr>ct_acceptance := (ct_acceptance c)(rid := None), ct_results := (ct_results c)(rid := None)\<rparr>"

text \<open>The channel of confirmations of \<^verbatim>\<open>ackUntilConfirmed\<close>: made on entry, deleted on return.\<close>

definition listen :: "op_phase \<Rightarrow> client \<Rightarrow> client" where
  "listen ph c = (case phase_delivery ph of None \<Rightarrow> c | Some d \<Rightarrow> c\<lparr>ct_confirmed := (ct_confirmed c)(d \<mapsto> [])\<rparr>)"

definition unlisten :: "op_phase \<Rightarrow> client \<Rightarrow> client" where
  "unlisten ph c = (case phase_delivery ph of None \<Rightarrow> c | Some d \<Rightarrow> c\<lparr>ct_confirmed := (ct_confirmed c)(d := None)\<rparr>)"

text \<open>A run goes on to its next phase, or ends.\<close>

definition advance :: "string \<Rightarrow> client \<Rightarrow> 's run_step \<Rightarrow> 's client_sys \<Rightarrow> 's client_sys" where
  "advance rid c st y =
     (case st of (msgs, nxt, s) \<Rightarrow>
        let y' = y\<lparr>cy_store := s, cy_sent := cy_sent y @ msgs\<rparr>
        in case nxt of
             Inr ph \<Rightarrow> y'\<lparr>cy_client := listen ph c, cy_runs := (cy_runs y)(rid \<mapsto> ph)\<rparr>
           | Inl out \<Rightarrow> y'\<lparr>cy_client := close_channels rid c, cy_runs := (cy_runs y)(rid := None), cy_outcomes := (rid, out) # cy_outcomes y\<rparr>)"

text \<open>What callers pass to \<^verbatim>\<open>start\<close>: a request for this proxy with 64-bit numbers and a valid identifier.\<close>

definition plain_request :: "client_config \<Rightarrow> http_request \<Rightarrow> bool" where
  "plain_request cfg q \<longleftrightarrow> wf_http_request q \<and> hq_ProxyID q = cc_ProxyID cfg \<and> coerce_utf8 (hq_RequestID q) = hq_RequestID q"

text \<open>A step of the library itself, or a message that has arrived.\<close>

datatype client_event = Own | Heard go_time bytes

inductive client_event_step ::
  "'s store_api \<Rightarrow> client_config \<Rightarrow> crypto_lib \<Rightarrow> wire_lib \<Rightarrow> 's client_sys \<Rightarrow> client_event \<Rightarrow> 's client_sys \<Rightarrow> bool"
  for api cfg lib wl
where
  begin_run: "plain_request cfg q \<Longrightarrow>
     client_start api now flt lf q (\<lambda>rid. cy_runs y rid \<noteq> None) (cy_store y) = (Begun req, s) \<Longrightarrow>
     client_event_step api cfg lib wl y Own (advance (hq_RequestID req) (open_channels (hq_RequestID req) (cy_client y)) (execute_begin cfg req s) y)"
| no_run: "plain_request cfg q \<Longrightarrow>
     client_start api now flt lf q (\<lambda>rid. cy_runs y rid \<noteq> None) (cy_store y) = (ans, s) \<Longrightarrow> (\<forall>req. ans \<noteq> Begun req) \<Longrightarrow>
     client_event_step api cfg lib wl y Own (y\<lparr>cy_store := s\<rparr>)"
| accepted: "cy_runs y rid = Some (Requesting req d) \<Longrightarrow> ct_acceptance (cy_client y) rid = Some (acc # rest) \<Longrightarrow>
     c = (cy_client y)\<lparr>ct_acceptance := (ct_acceptance (cy_client y))(rid \<mapsto> rest)\<rparr> \<Longrightarrow>
     client_event_step api cfg lib wl y Own (advance rid c (execute_accepted api cfg now flt req d acc (cy_store y)) y)"
| result: "cy_runs y rid = Some (AwaitingResult req) \<Longrightarrow> ct_results (cy_client y) rid = Some (r # rest) \<Longrightarrow>
     c = (cy_client y)\<lparr>ct_results := (ct_results (cy_client y))(rid \<mapsto> rest)\<rparr> \<Longrightarrow>
     client_event_step api cfg lib wl y Own (advance rid c (execute_result api cfg now flt req r (cy_store y)) y)"
| confirmed: "cy_runs y rid = Some ph \<Longrightarrow> phase_delivery ph = Some d \<Longrightarrow> ct_confirmed (cy_client y) d = Some (u # rest) \<Longrightarrow>
     client_event_step api cfg lib wl y Own (advance rid (unlisten ph (cy_client y)) (execute_confirmed api now flt ph (cy_store y)) y)"
| timer: "cy_runs y rid = Some ph \<Longrightarrow> execute_timer cfg ph = (msgs, ph') \<Longrightarrow>
     client_event_step api cfg lib wl y Own (y\<lparr>cy_runs := (cy_runs y)(rid \<mapsto> ph'), cy_sent := cy_sent y @ msgs\<rparr>)"
| cancelled: "cy_runs y rid = Some ph \<Longrightarrow>
     client_event_step api cfg lib wl y Own (advance rid (unlisten ph (cy_client y)) ([], failed_run (RunError ErrContextDone), cy_store y) y)"
| message: "c \<in> {handleAcceptance cfg lib wl clock data (cy_client y), handleResult cfg lib wl clock data (cy_client y),
       handleConfirmed cfg lib wl clock data (cy_client y), handleControlResult cfg lib wl clock data (cy_client y)} \<Longrightarrow>
     client_event_step api cfg lib wl y (Heard clock data) (y\<lparr>cy_client := c\<rparr>)"
| callbacks: "client_event_step api cfg lib wl y Own (y\<lparr>cy_client := (cy_client y)\<lparr>ct_confirmed := m, ct_control := m'\<rparr>\<rparr>)"
| retention: "client_event_step api cfg lib wl y Own (y\<lparr>cy_store := sa_Cleanup api before batch (cy_store y)\<rparr>)"
| crash: "client_event_step api cfg lib wl y Own (y\<lparr>cy_client := no_channels, cy_runs := Map.empty\<rparr>)"

text \<open>A step of either kind.\<close>

definition client_step ::
  "'s store_api \<Rightarrow> client_config \<Rightarrow> crypto_lib \<Rightarrow> wire_lib \<Rightarrow> 's client_sys \<Rightarrow> 's client_sys \<Rightarrow> bool" where
  "client_step api cfg lib wl y y' \<longleftrightarrow> (\<exists>e. client_event_step api cfg lib wl y e y')"

lemma client_stepI: "client_event_step api cfg lib wl y e y' \<Longrightarrow> client_step api cfg lib wl y y'"
  by (auto simp: client_step_def)

text \<open>A process starts with a sound store and nothing in memory.\<close>

definition client_init :: "('s \<Rightarrow> bool) \<Rightarrow> ('s \<Rightarrow> operations_view) \<Rightarrow> 's client_sys \<Rightarrow> bool" where
  "client_init ok view y \<longleftrightarrow> ok (cy_store y) \<and> cy_client y = no_channels \<and> cy_runs y = Map.empty \<and> cy_sent y = []
     \<and> (\<forall>k x. view (cy_store y) k = Some x \<longrightarrow> so_State x = StateComplete \<longrightarrow> so_Result x \<noteq> None)"

subsection \<open>The invariant, for every store that keeps the contract\<close>

fun phase_request :: "op_phase \<Rightarrow> http_request" where
  "phase_request (Requesting q d) = q"
| "phase_request (AckingAcceptance q ack d) = q"
| "phase_request (AwaitingResult q) = q"
| "phase_request (AckingResult q ack eff d) = q"

text \<open>What the store holds while a run is in a phase.\<close>

fun phase_stored :: "op_phase \<Rightarrow> stored_operation \<Rightarrow> bool" where
  "phase_stored (Requesting q d) x = True"
| "phase_stored (AckingAcceptance q ack d) x = (so_State x \<noteq> StateOutgoing)"
| "phase_stored (AwaitingResult q) x = (so_State x \<noteq> StateOutgoing)"
| "phase_stored (AckingResult q ack eff d) x = (so_State x \<noteq> StateOutgoing \<and> so_Result x = Some (canon_http_result eff))"

fun phase_ack :: "op_phase \<Rightarrow> bool" where
  "phase_ack (AckingAcceptance q ack d) = (da_RequestID ack = hq_RequestID q)"
| "phase_ack (AckingResult q ack eff d) = (da_RequestID ack = hq_RequestID q)"
| "phase_ack _ = True"

definition run_ok :: "string \<Rightarrow> operations_view \<Rightarrow> string \<Rightarrow> op_phase \<Rightarrow> bool" where
  "run_ok p v rid ph \<longleftrightarrow> hq_RequestID (phase_request ph) = rid \<and> hq_ProxyID (phase_request ph) = p \<and> phase_ack ph
     \<and> (\<exists>x. v (p, rid) = Some x \<and> so_State x \<noteq> StateComplete \<and> phase_stored ph x)"

text \<open>A message about an operation is published only while the store holds what the message says.\<close>

definition justified :: "client_config \<Rightarrow> operations_view \<Rightarrow> client_msg \<Rightarrow> bool" where
  "justified cfg v m =
     (case m of
        RequestMsg q \<Rightarrow> (\<exists>x. v (cc_ProxyID cfg, hq_RequestID q) = Some x)
      | AckMsg subject typ ack \<Rightarrow>
          (\<exists>x. v (cc_ProxyID cfg, da_RequestID ack) = Some x \<and> so_State x \<noteq> StateOutgoing \<and> (typ = TypeResultACK \<longrightarrow> so_Result x \<noteq> None))
      | _ \<Rightarrow> True)"

locale client_store_retention = client_store inv view save load accept result complete
  for inv :: "'s \<Rightarrow> bool" and view :: "'s \<Rightarrow> operations_view"
    and save :: "pg_time \<Rightarrow> http_request \<Rightarrow> 's \<Rightarrow> unit go_result \<times> 's"
    and load :: "string \<Rightarrow> string \<Rightarrow> 's \<Rightarrow> stored_operation go_result"
    and accept :: "pg_time \<Rightarrow> string \<Rightarrow> string \<Rightarrow> 's \<Rightarrow> unit go_result \<times> 's"
    and result :: "pg_time \<Rightarrow> string \<Rightarrow> http_result \<Rightarrow> 's \<Rightarrow> http_result go_result \<times> 's"
    and complete :: "pg_time \<Rightarrow> string \<Rightarrow> string \<Rightarrow> 's \<Rightarrow> unit go_result \<times> 's" +
  fixes cleanup :: "pg_time \<Rightarrow> int \<Rightarrow> 's \<Rightarrow> 's"
  assumes cleanup_law: "inv s \<Longrightarrow> inv (cleanup before batch s)
      \<and> (\<forall>k. view (cleanup before batch s) k = view s k \<or> (\<exists>x. view s k = Some x \<and> so_State x = StateComplete \<and> view (cleanup before batch s) k = None))"
begin

definition api :: "'s store_api" where
  "api = \<lparr>sa_SaveOutgoing = save, sa_Load = load, sa_MarkAccepted = accept, sa_SaveResult = result, sa_MarkComplete = complete, sa_Cleanup = cleanup\<rparr>"

definition sys_ok :: "client_config \<Rightarrow> 's client_sys \<Rightarrow> bool" where
  "sys_ok cfg y \<longleftrightarrow> inv (cy_store y)
     \<and> (\<forall>k x. view (cy_store y) k = Some x \<longrightarrow> so_State x = StateComplete \<longrightarrow> so_Result x \<noteq> None)
     \<and> (\<forall>rid ph. cy_runs y rid = Some ph \<longrightarrow> run_ok (cc_ProxyID cfg) (view (cy_store y)) rid ph)
     \<and> (\<forall>rid buf r. ct_results (cy_client y) rid = Some buf \<longrightarrow> r \<in> set buf \<longrightarrow> plain_result r \<and> rs_RequestID r = rid)"

lemma sys_okD:
  assumes "sys_ok cfg y"
  shows "inv (cy_store y)" "view (cy_store y) k = Some x \<Longrightarrow> so_State x = StateComplete \<Longrightarrow> so_Result x \<noteq> None"
    "cy_runs y rid = Some ph \<Longrightarrow> run_ok (cc_ProxyID cfg) (view (cy_store y)) rid ph"
    "ct_results (cy_client y) rid = Some buf \<Longrightarrow> r \<in> set buf \<Longrightarrow> plain_result r \<and> rs_RequestID r = rid"
  using assms unfolding sys_ok_def by blast+

lemma call_cases:
  assumes "db_call flt f s = (r, s')"
  shows "(s' = s \<or> s' = snd (f s)) \<and> (\<forall>v. r = Inr v \<longrightarrow> f s = (Inr v, s'))"
  using assms by (auto simp: db_call_def split: fault.splits)

text \<open>A change of the store that concerns one operation.\<close>

definition only :: "string \<times> string \<Rightarrow> 's \<Rightarrow> 's \<Rightarrow> bool" where
  "only k s s' \<longleftrightarrow> inv s' \<and> (\<forall>k'. k' \<noteq> k \<longrightarrow> view s' k' = view s k')"

lemma only_refl: "inv s \<Longrightarrow> only k s s"
  by (simp add: only_def)

text \<open>
  If the entry of the changed operation is sound and the run of the operation, if there still is one,
  agrees with it, then all is well after the change.
\<close>

lemma sys_ok_change:
  assumes "sys_ok cfg y" "only (cc_ProxyID cfg, rid) (cy_store y) s'"
    and "\<And>x. view s' (cc_ProxyID cfg, rid) = Some x \<Longrightarrow> so_State x = StateComplete \<Longrightarrow> so_Result x \<noteq> None"
    and "cy_store y' = s'" and "\<And>rid'. rid' \<noteq> rid \<Longrightarrow> cy_runs y' rid' = cy_runs y rid'"
    and "\<And>ph. cy_runs y' rid = Some ph \<Longrightarrow> run_ok (cc_ProxyID cfg) (view s') rid ph"
    and "\<And>i buf r. ct_results (cy_client y') i = Some buf \<Longrightarrow> r \<in> set buf \<Longrightarrow>
           \<exists>buf'. ct_results (cy_client y) i = Some buf' \<and> r \<in> set buf'"
  shows "sys_ok cfg y'"
proof -
  have same: "view s' k = view (cy_store y) k" if "k \<noteq> (cc_ProxyID cfg, rid)" for k
    using assms(2) that unfolding only_def by blast
  have "inv s'" using assms(2) by (simp add: only_def)
  moreover have "so_Result x \<noteq> None" if "view s' k = Some x" "so_State x = StateComplete" for k x
    using that assms(3) same [of k] sys_okD(2) [OF assms(1), of k x] by (cases "k = (cc_ProxyID cfg, rid)") simp_all
  moreover have "run_ok (cc_ProxyID cfg) (view s') i ph" if "cy_runs y' i = Some ph" for i ph
  proof (cases "i = rid")
    case True
    then show ?thesis using assms(6) that by simp
  next
    case False
    then have "cy_runs y i = Some ph" using that assms(5) by simp
    then have "run_ok (cc_ProxyID cfg) (view (cy_store y)) i ph" by (rule sys_okD(3) [OF assms(1)])
    then show ?thesis using same [of "(cc_ProxyID cfg, i)"] False by (simp add: run_ok_def)
  qed
  moreover have "plain_result r \<and> rs_RequestID r = i" if "ct_results (cy_client y') i = Some buf" "r \<in> set buf" for i buf r
    using assms(7) [OF that] sys_okD(4) [OF assms(1)] by blast
  ultimately show ?thesis unfolding sys_ok_def assms(4) by blast
qed

lemma accept_effect:
  assumes "inv s" "plain_id p" "db_call flt (accept now p i) s = (r, s')" "view s (p, i) = Some x" "so_State x \<noteq> StateComplete"
  shows "only (p, i) s s' \<and> (\<exists>x'. view s' (p, i) = Some x' \<and> so_State x' \<noteq> StateComplete \<and> so_Result x' = so_Result x
    \<and> (is_ok r \<longrightarrow> so_State x' \<noteq> StateOutgoing))"
proof -
  have law: "inv (snd (accept now p i s))" "accepts p i (view s) (fst (accept now p i s)) (view (snd (accept now p i s)))"
    using accept_law [OF assms(1,2)] by simp_all
  have c: "s' = s \<or> s' = snd (accept now p i s)" "\<And>v. r = Inr v \<Longrightarrow> accept now p i s = (Inr v, s')"
    using call_cases [OF assms(3)] by auto
  obtain st where st: "view (snd (accept now p i s)) = (view s)((p, i) \<mapsto> x\<lparr>so_State := st\<rparr>)"
    "st = StateAccepted \<or> so_State x \<noteq> StateOutgoing \<and> st = so_State x"
    using law(2) assms(4) by (auto simp: accepts_def)
  show ?thesis
  proof (cases "s' = snd (accept now p i s)")
    case True
    then show ?thesis using law(1) st assms(5) by (auto simp: only_def)
  next
    case False
    then have "s' = s" "\<not> is_ok r" using c by (auto simp: is_ok_def split: sum.splits)
    then show ?thesis using assms by (simp add: only_def)
  qed
qed

lemma result_effect:
  assumes "inv s" "plain_id p" "plain_result res" "db_call flt (result now p res) s = (r, s')" "view s (p, rs_RequestID res) = Some x"
    "so_State x \<noteq> StateComplete" "so_State x \<noteq> StateOutgoing"
  shows "only (p, rs_RequestID res) s s' \<and> (\<exists>x'. view s' (p, rs_RequestID res) = Some x' \<and> so_State x' \<noteq> StateComplete \<and> so_State x' \<noteq> StateOutgoing
    \<and> (\<forall>eff. r = Inr eff \<longrightarrow> so_Result x' = Some (canon_http_result eff)))"
proof (cases "rs_ProxyID res = p")
  case False
  then have "\<not> is_ok (fst (result now p res s))" "snd (result now p res s) = s" using result_foreign assms by auto
  then have "s' = s" "\<not> is_ok r" using call_cases [OF assms(4)] by (auto simp: is_ok_def split: sum.splits)
  then show ?thesis using assms by (auto simp: only_def is_ok_def)
next
  case True
  have law: "inv (snd (result now p res s))"
    "(map_sum id canon_http_result (fst (result now p res s)), view (snd (result now p res s))) = spec_result p res (view s)"
    using result_law [OF assms(1-3) True] by simp_all
  have c: "s' = s \<or> s' = snd (result now p res s)" "\<And>v. r = Inr v \<Longrightarrow> result now p res s = (Inr v, s')"
    using call_cases [OF assms(4)] by auto
  have eff: "\<exists>x'. view (snd (result now p res s)) = (view s)((p, rs_RequestID res) \<mapsto> x') \<and> so_State x' \<noteq> StateComplete \<and> so_State x' \<noteq> StateOutgoing
      \<and> (\<forall>e. fst (result now p res s) = Inr e \<longrightarrow> so_Result x' = Some (canon_http_result e))"
  proof (cases "keeps_known x res")
    case True
    then obtain r0 where "so_Result x = Some r0" by (auto simp: keeps_known_def)
    then show ?thesis using law(2) assms(5-7) True by (intro exI [of _ x]) (auto simp: spec_result_def)
  next
    case False
    then show ?thesis using law(2) assms(5)
      by (intro exI [of _ "x\<lparr>so_Result := Some (canon_http_result res), so_State := StateResultSaved\<rparr>"]) (auto simp: spec_result_def)
  qed
  show ?thesis
  proof (cases "s' = snd (result now p res s)")
    case True
    have "fst (result now p res s) = Inr v" if "r = Inr v" for v using c(2) [OF that] by simp
    then show ?thesis using law(1) eff True by (auto simp: only_def)
  next
    case False
    then have "s' = s" "\<not> is_ok r" using c by (auto simp: is_ok_def split: sum.splits)
    then show ?thesis using assms by (auto simp: only_def is_ok_def)
  qed
qed

lemma complete_effect:
  assumes "inv s" "plain_id p" "db_call flt (complete now p i) s = (r, s')" "view s (p, i) = Some x"
  shows "only (p, i) s s' \<and> (\<exists>x'. view s' (p, i) = Some x' \<and> so_Result x' = so_Result x \<and> (is_ok r \<longrightarrow> so_State x' = StateComplete))"
proof -
  have law: "inv (snd (complete now p i s))" "view (snd (complete now p i s)) = (view s)((p, i) \<mapsto> x\<lparr>so_State := StateComplete\<rparr>)"
    using complete_law [OF assms(1,2), of now i] assms(4) by (auto simp: spec_complete_def)
  have c: "s' = s \<or> s' = snd (complete now p i s)" "\<And>v. r = Inr v \<Longrightarrow> complete now p i s = (Inr v, s')"
    using call_cases [OF assms(3)] by auto
  show ?thesis
  proof (cases "s' = snd (complete now p i s)")
    case True
    then show ?thesis using law by (auto simp: only_def)
  next
    case False
    then have "s' = s" "\<not> is_ok r" using c by (auto simp: is_ok_def split: sum.splits)
    then show ?thesis using assms by (simp add: only_def)
  qed
qed

lemma save_effect:
  assumes "inv s" "plain_id (hq_ProxyID q)" "wf_http_request q" "db_call flt (save now q) s = (r, s')"
  shows "only (hq_ProxyID q, hq_RequestID q) s s'
    \<and> (view s' (hq_ProxyID q, hq_RequestID q) = view s (hq_ProxyID q, hq_RequestID q)
       \<or> view s (hq_ProxyID q, hq_RequestID q) = None \<and> view s' (hq_ProxyID q, hq_RequestID q) = Some (fresh_operation q))
    \<and> (is_ok r \<longrightarrow> view s' (hq_ProxyID q, hq_RequestID q) \<noteq> None)"
proof -
  have law: "inv (snd (save now q s))" "(fst (save now q s), view (snd (save now q s))) = spec_save q (view s)"
    using save_law [OF assms(1-3)] by simp_all
  have c: "s' = s \<or> s' = snd (save now q s)" "\<And>v. r = Inr v \<Longrightarrow> save now q s = (Inr v, s')"
    using call_cases [OF assms(4)] by auto
  show ?thesis
  proof (cases "s' = snd (save now q s)")
    case True
    then show ?thesis using law by (auto simp: only_def spec_save_def split: option.splits)
  next
    case False
    then have "s' = s" "\<not> is_ok r" using c by (auto simp: is_ok_def split: sum.splits)
    then show ?thesis using assms by (simp add: only_def)
  qed
qed

lemma sys_ok_advance:
  assumes "sys_ok cfg y" "only (cc_ProxyID cfg, rid) (cy_store y) s'"
    and "\<And>x. view s' (cc_ProxyID cfg, rid) = Some x \<Longrightarrow> so_State x = StateComplete \<Longrightarrow> so_Result x \<noteq> None"
    and "\<And>i buf r. ct_results c i = Some buf \<Longrightarrow> r \<in> set buf \<Longrightarrow> \<exists>buf'. ct_results (cy_client y) i = Some buf' \<and> r \<in> set buf'"
    and "\<And>ph. nxt = Inr ph \<Longrightarrow> run_ok (cc_ProxyID cfg) (view s') rid ph"
  shows "sys_ok cfg (advance rid c (msgs, nxt, s') y)"
proof (rule sys_ok_change [OF assms(1-3)])
  show "cy_store (advance rid c (msgs, nxt, s') y) = s'" by (simp add: advance_def Let_def split: sum.splits)
  show "cy_runs (advance rid c (msgs, nxt, s') y) i = cy_runs y i" if "i \<noteq> rid" for i
    using that by (simp add: advance_def Let_def split: sum.splits)
  show "run_ok (cc_ProxyID cfg) (view s') rid ph" if "cy_runs (advance rid c (msgs, nxt, s') y) rid = Some ph" for ph
    using that assms(5) by (auto simp: advance_def Let_def split: sum.splits)
  have "ct_results (listen ph c) = ct_results c" for ph by (simp add: listen_def split: option.splits)
  then show "\<exists>buf'. ct_results (cy_client y) i = Some buf' \<and> r \<in> set buf'"
    if "ct_results (cy_client (advance rid c (msgs, nxt, s') y)) i = Some buf" "r \<in> set buf" for i buf r
    using that assms(4) by (auto simp: advance_def Let_def close_channels_def split: sum.splits if_splits)
qed

lemma unlisten_results [simp]: "ct_results (unlisten ph c) = ct_results c"
  by (simp add: unlisten_def split: option.splits)

text \<open>What each kind of step does; the new messages are justified by the store they are sent with.\<close>

lemma begin_run_ok:
  assumes "sys_ok cfg y" "plain_id (cc_ProxyID cfg)" "plain_request cfg q"
    and "client_start api now flt lf q (\<lambda>rid. cy_runs y rid \<noteq> None) (cy_store y) = (ans, s)"
  shows "(case ans of Begun req \<Rightarrow> run_ok (cc_ProxyID cfg) (view s) (hq_RequestID q) (Requesting req (cc_RetryInterval cfg)) \<and> hq_RequestID req = hq_RequestID q
            \<and> cy_runs y (hq_RequestID q) = None | _ \<Rightarrow> True)
    \<and> only (cc_ProxyID cfg, hq_RequestID q) (cy_store y) s
    \<and> (\<forall>x. view s (cc_ProxyID cfg, hq_RequestID q) = Some x \<longrightarrow> so_State x = StateComplete \<longrightarrow> so_Result x \<noteq> None)
    \<and> (\<forall>ph. cy_runs y (hq_RequestID q) = Some ph \<longrightarrow> view s (cc_ProxyID cfg, hq_RequestID q) = view (cy_store y) (cc_ProxyID cfg, hq_RequestID q))"
proof (cases "hq_RequestID q = []")
  case True
  then show ?thesis using assms by (auto simp: client_start_def only_def sys_ok_def)
next
  case False
  have inv: "inv (cy_store y)" and done_: "\<And>k x. view (cy_store y) k = Some x \<Longrightarrow> so_State x = StateComplete \<Longrightarrow> so_Result x \<noteq> None"
    and runs: "\<And>rid ph. cy_runs y rid = Some ph \<Longrightarrow> run_ok (cc_ProxyID cfg) (view (cy_store y)) rid ph"
    using sys_okD [OF assms(1)] by blast+
  have q: "wf_http_request q" "hq_ProxyID q = cc_ProxyID cfg" "coerce_utf8 (hq_RequestID q) = hq_RequestID q"
    using assms(3) by (simp_all add: plain_request_def)
  obtain r s1 where call: "db_call flt (save now q) (cy_store y) = (r, s1)" by (cases "db_call flt (save now q) (cy_store y)")
  have s1: "s = s1" using assms(4) False call by (auto simp: client_start_def api_def Let_def split: sum.splits if_splits client_state.splits option.splits)
  have eff: "only (cc_ProxyID cfg, hq_RequestID q) (cy_store y) s"
    "view s (cc_ProxyID cfg, hq_RequestID q) = view (cy_store y) (cc_ProxyID cfg, hq_RequestID q)
       \<or> view (cy_store y) (cc_ProxyID cfg, hq_RequestID q) = None \<and> view s (cc_ProxyID cfg, hq_RequestID q) = Some (fresh_operation q)"
    "is_ok r \<Longrightarrow> view s (cc_ProxyID cfg, hq_RequestID q) \<noteq> None"
    using save_effect [OF inv _ q(1) call] assms(2) q(2) s1 by auto
  have entry: "so_Result x \<noteq> None" if "view s (cc_ProxyID cfg, hq_RequestID q) = Some x" "so_State x = StateComplete" for x
    using eff(2) that done_ by (auto simp: fresh_operation_def)
  have keep: "view s (cc_ProxyID cfg, hq_RequestID q) = view (cy_store y) (cc_ProxyID cfg, hq_RequestID q)" if "cy_runs y (hq_RequestID q) = Some ph" for ph
    using runs [OF that] eff(2) by (auto simp: run_ok_def)
  have begun: "run_ok (cc_ProxyID cfg) (view s) (hq_RequestID q) (Requesting req (cc_RetryInterval cfg)) \<and> hq_RequestID req = hq_RequestID q
      \<and> cy_runs y (hq_RequestID q) = None" if ans: "ans = Begun req" for req
  proof -
    obtain stored where st: "load (cc_ProxyID cfg) (hq_RequestID q) s = Inr stored" "req = so_Request stored"
        "cy_runs y (hq_RequestID (so_Request stored)) = None" "\<not> (so_State stored = StateComplete \<and> so_Result stored \<noteq> None)"
      using assms(4) False call s1 q(2) ans
      by (auto simp: client_start_def api_def Let_def split: sum.splits if_splits client_state.splits option.splits)
    have inv': "inv s" using eff(1) by (simp add: only_def)
    have keys: "hq_ProxyID req = cc_ProxyID cfg" "hq_RequestID req = hq_RequestID q"
      using load_keys [OF inv' assms(2) q(3) st(1)] st(2) by simp_all
    have "map_sum id canon_operation (load (cc_ProxyID cfg) (hq_RequestID q) s) = spec_load (cc_ProxyID cfg) (hq_RequestID q) (view s)"
      by (rule load_law [OF inv' assms(2)])
    then have v: "view s (cc_ProxyID cfg, hq_RequestID q) = Some (canon_operation stored)"
      by (simp add: st(1) spec_load_def split: option.splits)
    have "so_State stored \<noteq> StateComplete" using entry [OF v] st(4) by auto
    then show ?thesis using keys v st(2,3) by (simp add: run_ok_def)
  qed
  show ?thesis
  proof (intro conjI allI impI)
    show "case ans of Begun req \<Rightarrow> run_ok (cc_ProxyID cfg) (view s) (hq_RequestID q) (Requesting req (cc_RetryInterval cfg)) \<and> hq_RequestID req = hq_RequestID q
            \<and> cy_runs y (hq_RequestID q) = None | _ \<Rightarrow> True"
    proof (cases ans)
      case (Begun req)
      from begun [OF Begun] show ?thesis unfolding Begun start_answer.case .
    qed simp_all
  qed (use eff(1) entry keep in blast)+
qed

definition step_ok :: "client_config \<Rightarrow> 's client_sys \<Rightarrow> 's client_sys \<Rightarrow> bool" where
  "step_ok cfg y y' \<longleftrightarrow> sys_ok cfg y'
     \<and> (\<exists>msgs. cy_sent y' = cy_sent y @ msgs \<and> (\<forall>m \<in> set msgs. justified cfg (view (cy_store y')) m))
     \<and> (\<forall>rid out. cy_outcomes y' = (rid, out) # cy_outcomes y \<longrightarrow> oo_err out = None \<longrightarrow>
          (\<exists>x. view (cy_store y') (cc_ProxyID cfg, rid) = Some x \<and> so_State x = StateComplete \<and> so_Result x = Some (canon_http_result (oo_result out))))"

lemma quiet_step_ok: "sys_ok cfg y' \<Longrightarrow> cy_sent y' = cy_sent y \<Longrightarrow> cy_outcomes y' = cy_outcomes y \<Longrightarrow> step_ok cfg y y'"
  by (simp add: step_ok_def)

lemma advance_ok:
  assumes "sys_ok cfg (advance rid c (msgs, nxt, s') y)" and "\<And>m. m \<in> set msgs \<Longrightarrow> justified cfg (view s') m"
    and "\<And>out. nxt = Inl out \<Longrightarrow> oo_err out = None \<Longrightarrow>
      \<exists>x. view s' (cc_ProxyID cfg, rid) = Some x \<and> so_State x = StateComplete \<and> so_Result x = Some (canon_http_result (oo_result out))"
  shows "step_ok cfg y (advance rid c (msgs, nxt, s') y)"
proof -
  have "cy_store (advance rid c (msgs, nxt, s') y) = s'" "cy_sent (advance rid c (msgs, nxt, s') y) = cy_sent y @ msgs"
    "cy_outcomes (advance rid c (msgs, nxt, s') y) = (case nxt of Inl out \<Rightarrow> (rid, out) # cy_outcomes y | Inr _ \<Rightarrow> cy_outcomes y)"
    by (simp_all add: advance_def Let_def split: sum.splits)
  then show ?thesis using assms by (auto simp: step_ok_def split: sum.splits)
qed

lemma accepted_ok:
  assumes ok: "sys_ok cfg y" "plain_id (cc_ProxyID cfg)" and run: "cy_runs y rid = Some (Requesting req d)"
    and chan: "ct_results c = ct_results (cy_client y)"
  shows "step_ok cfg y (advance rid c (execute_accepted api cfg now flt req d acc (cy_store y)) y)"
proof -
  let ?P = "cc_ProxyID cfg" and ?s = "cy_store y"
  have r: "run_ok ?P (view ?s) rid (Requesting req d)" by (rule sys_okD(3) [OF ok(1) run])
  then obtain x where x: "view ?s (?P, rid) = Some x" "so_State x \<noteq> StateComplete" and req: "hq_RequestID req = rid" "hq_ProxyID req = ?P"
    by (auto simp: run_ok_def)
  have same: "step_ok cfg y (advance rid c (msgs, nxt, ?s) y)"
    if "\<And>ph. nxt = Inr ph \<Longrightarrow> ph = Requesting req d" "\<And>out. nxt = Inl out \<Longrightarrow> oo_err out \<noteq> None" "\<And>m. m \<in> set msgs \<Longrightarrow> m = RequestMsg req" for msgs nxt
  proof (rule advance_ok)
    show "sys_ok cfg (advance rid c (msgs, nxt, ?s) y)"
    proof (rule sys_ok_advance [OF ok(1) only_refl [OF sys_okD(1) [OF ok(1)]] sys_okD(2) [OF ok(1)]])
      show "run_ok ?P (view ?s) rid ph" if "nxt = Inr ph" for ph using \<open>\<And>ph. nxt = Inr ph \<Longrightarrow> ph = Requesting req d\<close> [OF that] r by simp
    qed (use chan in auto)
    show "justified cfg (view ?s) m" if "m \<in> set msgs" for m
      using \<open>\<And>m. m \<in> set msgs \<Longrightarrow> m = RequestMsg req\<close> [OF that] x(1) req(1) by (simp add: justified_def)
  qed (use \<open>\<And>out. nxt = Inl out \<Longrightarrow> oo_err out \<noteq> None\<close> in blast)
  show ?thesis
  proof (cases "ac_RequestID acc = [] \<or> \<not> ac_Accepted acc")
    case True
    then show ?thesis by (auto simp: execute_accepted_def failed_run_def intro!: same)
  next
    case False
    obtain r s' where call: "db_call flt (accept now ?P rid) ?s = (r, s')" by (cases "db_call flt (accept now ?P rid) ?s")
    have eff: "only (?P, rid) ?s s' \<and> (\<exists>x'. view s' (?P, rid) = Some x' \<and> so_State x' \<noteq> StateComplete \<and> so_Result x' = so_Result x
        \<and> (is_ok r \<longrightarrow> so_State x' \<noteq> StateOutgoing))"
      by (rule accept_effect [OF sys_okD(1) [OF ok(1)] ok(2) call x])
    then obtain x' where x': "view s' (?P, rid) = Some x'" "so_State x' \<noteq> StateComplete" "is_ok r \<Longrightarrow> so_State x' \<noteq> StateOutgoing" by blast
    let ?ack = "\<lparr>da_RequestID = rid, da_DeliveryID = ac_DeliveryID acc, da_ClientID = cc_ClientID cfg\<rparr>"
    have eq: "execute_accepted api cfg now flt req d acc ?s = (case r of
        Inl e \<Rightarrow> ([], failed_run (RunError (ErrText (''persist acceptance: '' @ error_text e))), s')
      | Inr _ \<Rightarrow> ([AckMsg (accepted_acks cfg) TypeAcceptanceACK ?ack], Inr (AckingAcceptance req ?ack (cc_RetryInterval cfg)), s'))"
      using False call req by (simp add: execute_accepted_def api_def Let_def split: sum.splits)
    have adv: "sys_ok cfg (advance rid c (msgs, nxt, s') y)" if "\<And>ph. nxt = Inr ph \<Longrightarrow> run_ok ?P (view s') rid ph" for msgs nxt
      by (rule sys_ok_advance [OF ok(1)]) (use eff x'(1,2) chan that in auto)
    show ?thesis
    proof (cases r)
      case (Inl e)
      then show ?thesis unfolding eq by (simp only: sum.case) (rule advance_ok [OF adv], auto simp: failed_run_def)
    next
      case (Inr u)
      have rok: "run_ok ?P (view s') rid (AckingAcceptance req ?ack (cc_RetryInterval cfg))"
        using x' req Inr by (simp add: run_ok_def is_ok_def)
      then show ?thesis unfolding eq Inr
        by (simp only: sum.case) (rule advance_ok [OF adv], use x' Inr in \<open>auto simp: justified_def is_ok_def TypeAcceptanceACK_def TypeResultACK_def\<close>)
    qed
  qed
qed

lemma result_ok:
  assumes ok: "sys_ok cfg y" "plain_id (cc_ProxyID cfg)" and run: "cy_runs y rid = Some (AwaitingResult req)"
    and res: "plain_result res" "rs_RequestID res = rid"
    and chan: "\<And>i buf r. ct_results c i = Some buf \<Longrightarrow> r \<in> set buf \<Longrightarrow> \<exists>buf'. ct_results (cy_client y) i = Some buf' \<and> r \<in> set buf'"
  shows "step_ok cfg y (advance rid c (execute_result api cfg now flt req res (cy_store y)) y)"
proof -
  let ?P = "cc_ProxyID cfg" and ?s = "cy_store y"
  obtain x where x: "view ?s (?P, rid) = Some x" "so_State x \<noteq> StateComplete" "so_State x \<noteq> StateOutgoing"
    and req: "hq_RequestID req = rid" "hq_ProxyID req = ?P"
    using sys_okD(3) [OF ok(1) run] by (auto simp: run_ok_def)
  obtain r s' where call: "db_call flt (result now ?P res) ?s = (r, s')" by (cases "db_call flt (result now ?P res) ?s")
  have eff: "only (?P, rid) ?s s' \<and> (\<exists>x'. view s' (?P, rid) = Some x' \<and> so_State x' \<noteq> StateComplete \<and> so_State x' \<noteq> StateOutgoing
      \<and> (\<forall>e. r = Inr e \<longrightarrow> so_Result x' = Some (canon_http_result e)))"
    using result_effect [OF sys_okD(1) [OF ok(1)] ok(2) res(1) call] x res(2) by simp
  then obtain x' where x': "view s' (?P, rid) = Some x'" "so_State x' \<noteq> StateComplete" "so_State x' \<noteq> StateOutgoing"
    "\<And>e. r = Inr e \<Longrightarrow> so_Result x' = Some (canon_http_result e)" by blast
  let ?ack = "\<lparr>da_RequestID = rid, da_DeliveryID = rs_ResultID res, da_ClientID = cc_ClientID cfg\<rparr>"
  have eq: "execute_result api cfg now flt req res ?s = (case r of
      Inl e \<Rightarrow> ([], failed_run (RunError (ErrText (''persist HTTP result: '' @ error_text e))), s')
    | Inr e \<Rightarrow> ([AckMsg (result_acks cfg) TypeResultACK ?ack], Inr (AckingResult req ?ack e (cc_RetryInterval cfg)), s'))"
    using call req by (simp add: execute_result_def api_def Let_def split: sum.splits)
  have adv: "sys_ok cfg (advance rid c (msgs, nxt, s') y)" if "\<And>ph. nxt = Inr ph \<Longrightarrow> run_ok ?P (view s') rid ph" for msgs nxt
    by (rule sys_ok_advance [OF ok(1)]) (use eff x'(1,2) chan that in auto)
  show ?thesis
  proof (cases r)
    case (Inl e)
    then show ?thesis unfolding eq by (simp only: sum.case) (rule advance_ok [OF adv], auto simp: failed_run_def)
  next
    case (Inr e)
    have "run_ok ?P (view s') rid (AckingResult req ?ack e (cc_RetryInterval cfg))"
      using x' req Inr by (simp add: run_ok_def)
    then show ?thesis unfolding eq Inr
      by (simp only: sum.case) (rule advance_ok [OF adv], use x' Inr in \<open>auto simp: justified_def\<close>)
  qed
qed

lemma confirmed_ok:
  assumes ok: "sys_ok cfg y" "plain_id (cc_ProxyID cfg)" and run: "cy_runs y rid = Some ph" "phase_delivery ph = Some d"
    and chan: "ct_results c = ct_results (cy_client y)"
  shows "step_ok cfg y (advance rid c (execute_confirmed api now flt ph (cy_store y)) y)"
proof -
  let ?P = "cc_ProxyID cfg" and ?s = "cy_store y"
  have rok: "run_ok ?P (view ?s) rid ph" by (rule sys_okD(3) [OF ok(1) run(1)])
  from run(2) consider (acc) q ack t where "ph = AckingAcceptance q ack t" | (res) q ack eff t where "ph = AckingResult q ack eff t"
    by (cases ph) simp_all
  then show ?thesis
  proof cases
    case acc
    have "run_ok ?P (view ?s) rid (AwaitingResult q)" using rok acc by (simp add: run_ok_def)
    then show ?thesis unfolding acc execute_confirmed_def op_phase.case
      by (intro advance_ok sys_ok_advance [OF ok(1) only_refl [OF sys_okD(1) [OF ok(1)]] sys_okD(2) [OF ok(1)]]) (use chan in auto)
  next
    case res
    obtain x where x: "view ?s (?P, rid) = Some x" "so_Result x = Some (canon_http_result eff)" and req: "hq_RequestID q = rid" "hq_ProxyID q = ?P"
      using rok res by (auto simp: run_ok_def)
    obtain r s' where call: "db_call flt (complete now ?P rid) ?s = (r, s')" by (cases "db_call flt (complete now ?P rid) ?s")
    have e: "only (?P, rid) ?s s' \<and> (\<exists>x'. view s' (?P, rid) = Some x' \<and> so_Result x' = so_Result x \<and> (is_ok r \<longrightarrow> so_State x' = StateComplete))"
      by (rule complete_effect [OF sys_okD(1) [OF ok(1)] ok(2) call x(1)])
    then obtain x' where x': "view s' (?P, rid) = Some x'" "so_Result x' = Some (canon_http_result eff)" "is_ok r \<Longrightarrow> so_State x' = StateComplete"
      using x(2) by auto
    have eq: "execute_confirmed api now flt ph ?s = (case r of
        Inl e \<Rightarrow> ([], failed_run (RunError e), s') | Inr _ \<Rightarrow> ([], Inl (stored_outcome eff rid), s'))"
      using call req by (simp add: execute_confirmed_def res api_def split: sum.splits)
    have adv: "sys_ok cfg (advance rid c ([], Inl out, s') y)" for out
      by (rule sys_ok_advance [OF ok(1)]) (use e x'(1,2) chan in auto)
    show ?thesis
    proof (cases r)
      case (Inl e)
      then show ?thesis unfolding eq failed_run_def by (simp only: sum.case) (rule advance_ok [OF adv], auto)
    next
      case (Inr u)
      then show ?thesis unfolding eq
        by (simp only: sum.case) (rule advance_ok [OF adv], use x' Inr in \<open>auto simp: stored_outcome_def is_ok_def\<close>)
    qed
  qed
qed

lemma timer_ok:
  assumes ok: "sys_ok cfg y" and run: "cy_runs y rid = Some ph" and t: "execute_timer cfg ph = (msgs, ph')"
  shows "step_ok cfg y (y\<lparr>cy_runs := (cy_runs y)(rid \<mapsto> ph'), cy_sent := cy_sent y @ msgs\<rparr>)"
proof -
  have rok: "run_ok (cc_ProxyID cfg) (view (cy_store y)) rid ph" by (rule sys_okD(3) [OF ok run])
  have types: "TypeAcceptanceACK \<noteq> TypeResultACK" by (simp add: TypeAcceptanceACK_def TypeResultACK_def)
  have rok': "run_ok (cc_ProxyID cfg) (view (cy_store y)) rid ph'" and just: "\<forall>m \<in> set msgs. justified cfg (view (cy_store y)) m"
    using rok t types by (cases ph; auto simp: execute_timer_def run_ok_def justified_def)+
  have "sys_ok cfg (y\<lparr>cy_runs := (cy_runs y)(rid \<mapsto> ph'), cy_sent := cy_sent y @ msgs\<rparr>)"
  proof (rule sys_ok_change [where rid = rid, OF ok only_refl [OF sys_okD(1) [OF ok]] sys_okD(2) [OF ok]])
    show "run_ok (cc_ProxyID cfg) (view (cy_store y)) rid p"
      if "cy_runs (y\<lparr>cy_runs := (cy_runs y)(rid \<mapsto> ph'), cy_sent := cy_sent y @ msgs\<rparr>) rid = Some p" for p
      using that rok' by simp
  qed simp_all
  then show ?thesis using just by (simp add: step_ok_def)
qed

lemma handlers_results:
  assumes "c \<in> {handleAcceptance cfg lib wl clock data c0, handleResult cfg lib wl clock data c0,
       handleConfirmed cfg lib wl clock data c0, handleControlResult cfg lib wl clock data c0}"
    and "ct_results c i = Some buf" "r \<in> set buf"
  shows "(\<exists>buf'. ct_results c0 i = Some buf' \<and> r \<in> set buf') \<or> plain_result r \<and> rs_RequestID r = i"
proof (cases "c = handleResult cfg lib wl clock data c0")
  case True
  show ?thesis
  proof (cases "client_decode cfg lib wl clock unmarshal_http_result TypeHTTPResult data")
    case (Inl e)
    then show ?thesis using True assms(2,3) by (simp add: handleResult_def)
  next
    case (Inr v)
    obtain j where "unmarshal_http_result j = Some v" using client_decode_ok [OF Inr] by (rule exE)
    then have "plain_result v" by (rule unmarshal_result_plain)
    moreover have "trySend 4 (rs_RequestID v) v (ct_results c0) i = Some buf" using True Inr assms(2) by (simp add: handleResult_def)
    ultimately show ?thesis using trySend_at [of 4 "rs_RequestID v" v "ct_results c0" i buf r] assms(3) by auto
  qed
next
  case False
  then have "ct_results c = ct_results c0"
    using assms(1) by (auto simp: handleAcceptance_def handleConfirmed_def handleControlResult_def split: sum.splits)
  then show ?thesis using assms(2,3) by auto
qed

lemma retention_ok:
  assumes ok: "sys_ok cfg y"
  shows "sys_ok cfg (y\<lparr>cy_store := cleanup before batch (cy_store y)\<rparr>)"
proof -
  let ?s = "cy_store y" and ?s' = "cleanup before batch (cy_store y)"
  have law: "inv ?s'" "\<And>k. view ?s' k = view ?s k \<or> (\<exists>x. view ?s k = Some x \<and> so_State x = StateComplete \<and> view ?s' k = None)"
    using cleanup_law [OF sys_okD(1) [OF ok]] by blast+
  have "so_Result x \<noteq> None" if "view ?s' k = Some x" "so_State x = StateComplete" for k x
    using law(2) [of k] that sys_okD(2) [OF ok, of k x] by auto
  moreover have "run_ok (cc_ProxyID cfg) (view ?s') rid ph" if "cy_runs y rid = Some ph" for rid ph
    using sys_okD(3) [OF ok that] law(2) [of "(cc_ProxyID cfg, rid)"] by (auto simp: run_ok_def)
  moreover have "plain_result r \<and> rs_RequestID r = rid" if "ct_results (cy_client y) rid = Some buf" "r \<in> set buf" for rid buf r
    using sys_okD(4) [OF ok that] .
  ultimately show ?thesis using law(1) unfolding sys_ok_def by simp
qed

theorem client_event_step_ok:
  assumes "client_event_step api cfg lib wl y e y'" "sys_ok cfg y" "plain_id (cc_ProxyID cfg)"
  shows "step_ok cfg y y'"
  using assms(1)
proof cases
  case (begin_run q now flt lf req s)
  note b = begin_run_ok [OF assms(2,3) begin_run(3,4), unfolded start_answer.case]
  have id: "hq_RequestID req = hq_RequestID q" using b by blast
  have "step_ok cfg y (advance (hq_RequestID q) (open_channels (hq_RequestID q) (cy_client y)) ([RequestMsg req], Inr (Requesting req (cc_RetryInterval cfg)), s) y)"
  proof (rule advance_ok)
    show "sys_ok cfg (advance (hq_RequestID q) (open_channels (hq_RequestID q) (cy_client y)) ([RequestMsg req], Inr (Requesting req (cc_RetryInterval cfg)), s) y)"
      by (rule sys_ok_advance [OF assms(2)]) (use b in \<open>auto simp: open_channels_def split: if_splits\<close>)
    show "justified cfg (view s) m" if "m \<in> set [RequestMsg req]" for m
      using that b by (auto simp: justified_def run_ok_def)
  qed simp
  then show ?thesis unfolding begin_run(2) execute_begin_def id .
next
  case (no_run q now flt lf ans s)
  note b = begin_run_ok [OF assms(2,3) no_run(3,4)]
  have "sys_ok cfg (y\<lparr>cy_store := s\<rparr>)"
  proof (rule sys_ok_change [where rid = "hq_RequestID q", OF assms(2)])
    show "run_ok (cc_ProxyID cfg) (view s) (hq_RequestID q) ph" if "cy_runs (y\<lparr>cy_store := s\<rparr>) (hq_RequestID q) = Some ph" for ph
    proof -
      have run: "cy_runs y (hq_RequestID q) = Some ph" using that by simp
      have "view s (cc_ProxyID cfg, hq_RequestID q) = view (cy_store y) (cc_ProxyID cfg, hq_RequestID q)" using b run by blast
      then show ?thesis using sys_okD(3) [OF assms(2) run] by (simp add: run_ok_def)
    qed
  qed (use b in simp_all)
  then show ?thesis unfolding no_run(2) by (rule quiet_step_ok) simp_all
next
  case (accepted rid req d acc rest c now flt)
  have "ct_results c = ct_results (cy_client y)" unfolding accepted(5) by simp
  then show ?thesis unfolding accepted(2) by (rule accepted_ok [OF assms(2,3) accepted(3)])
next
  case (result rid req r rest c now flt)
  have r: "plain_result r" "rs_RequestID r = rid" using sys_okD(4) [OF assms(2) result(4), of r] by simp_all
  show ?thesis unfolding result(2)
    by (rule result_ok [OF assms(2,3) result(3) r]) (use result(4,5) in \<open>auto split: if_splits\<close>)
next
  case (confirmed rid ph d u rest now flt)
  show ?thesis unfolding confirmed(2) by (rule confirmed_ok [OF assms(2,3) confirmed(3,4)]) simp
next
  case (timer rid ph msgs ph')
  then show ?thesis using timer_ok [OF assms(2)] by simp
next
  case (cancelled rid ph)
  show ?thesis unfolding cancelled(2) failed_run_def
    by (intro advance_ok sys_ok_advance [OF assms(2) only_refl [OF sys_okD(1) [OF assms(2)]] sys_okD(2) [OF assms(2)]]) auto
next
  case (message c clock data)
  have "plain_result r \<and> rs_RequestID r = rid" if "ct_results c rid = Some buf" "r \<in> set buf" for rid buf r
    using handlers_results [OF message(3) that] sys_okD(4) [OF assms(2)] by blast
  then have "sys_ok cfg (y\<lparr>cy_client := c\<rparr>)" using assms(2) unfolding sys_ok_def by simp
  then show ?thesis unfolding message(2) by (rule quiet_step_ok) simp_all
next
  case (callbacks m m')
  have "sys_ok cfg y'" using assms(2) unfolding callbacks(2) sys_ok_def by simp
  then show ?thesis by (rule quiet_step_ok) (simp_all add: callbacks(2))
next
  case (retention before batch)
  have "sys_ok cfg y'" using retention_ok [OF assms(2)] unfolding retention(2) by (simp add: api_def)
  then show ?thesis by (rule quiet_step_ok) (simp_all add: retention(2))
next
  case crash
  have "sys_ok cfg (y\<lparr>cy_client := no_channels, cy_runs := Map.empty\<rparr>)" using assms(2) unfolding sys_ok_def by (simp add: no_channels_def)
  then show ?thesis unfolding crash(2) by (rule quiet_step_ok) simp_all
qed

theorem client_step_ok:
  "client_step api cfg lib wl y y' \<Longrightarrow> sys_ok cfg y \<Longrightarrow> plain_id (cc_ProxyID cfg) \<Longrightarrow> step_ok cfg y y'"
  using client_event_step_ok by (auto simp: client_step_def)

theorem client_reachable_ok:
  assumes "reach (client_init inv view) (client_step api cfg lib wl) y" "plain_id (cc_ProxyID cfg)"
  shows "sys_ok cfg y"
  using assms(1)
proof (induction rule: reach.induct)
  case (start y)
  then show ?case unfolding client_init_def sys_ok_def by (simp add: no_channels_def)
next
  case (step y y')
  then show ?case using client_step_ok [OF step(2) step.IH assms(2)] by (simp add: step_ok_def)
qed

end

subsection \<open>The two stores\<close>

definition pg_api :: "client_db store_api" where
  "pg_api = \<lparr>sa_SaveOutgoing = pg_SaveOutgoing, sa_Load = pg_Load, sa_MarkAccepted = pg_MarkAccepted, sa_SaveResult = pg_SaveResult,
     sa_MarkComplete = pg_MarkComplete, sa_Cleanup = (\<lambda>before batch db. snd (pg_Cleanup before batch db))\<rparr>"

text \<open>The memory store has no method \<^verbatim>\<open>Cleanup\<close>.\<close>

definition mem_api :: "memory_store store_api" where
  "mem_api = \<lparr>sa_SaveOutgoing = (\<lambda>_. mem_SaveOutgoing), sa_Load = mem_Load, sa_MarkAccepted = (\<lambda>_. mem_MarkAccepted), sa_SaveResult = (\<lambda>_. mem_SaveResult),
     sa_MarkComplete = (\<lambda>_. mem_MarkComplete), sa_Cleanup = (\<lambda>before batch s. s)\<rparr>"

lemma pg_Cleanup_law:
  assumes inv: "pg_inv s"
  shows "pg_inv (snd (pg_Cleanup before batch s))
    \<and> (\<forall>k. pg_view (snd (pg_Cleanup before batch s)) k = pg_view s k
        \<or> (\<exists>x. pg_view s k = Some x \<and> so_State x = StateComplete \<and> pg_view (snd (pg_Cleanup before batch s)) k = None))"
proof -
  have uniq: "unique_by or_key (cd_operations s)" using inv by (simp add: pg_inv_def)
  let ?old = "order_limit or_updated_at (pg_limit batch) (select_where (done_operation before) (cd_operations s))"
  let ?p = "\<lambda>r. or_key r \<in> set (map or_key ?old)"
  have ops: "cd_operations (snd (pg_Cleanup before batch s)) = delete_where ?p (cd_operations s)"
    by (simp add: pg_Cleanup_def Let_def)
  have "pg_inv (snd (pg_Cleanup before batch s))"
    using inv unfolding pg_inv_def ops by (auto simp: unique_by_delete list_all_iff sql_simps)
  moreover have "pg_view (snd (pg_Cleanup before batch s)) k = pg_view s k
      \<or> (\<exists>x. pg_view s k = Some x \<and> so_State x = StateComplete \<and> pg_view (snd (pg_Cleanup before batch s)) k = None)" for k
  proof (cases "k \<in> set (map or_key ?old)")
    case False
    have "row_by or_key k (delete_where ?p (cd_operations s)) = row_by or_key k (cd_operations s)"
      by (rule row_by_delete_other) (use False in auto)
    then show ?thesis by (simp add: pg_view_def table_view_def ops)
  next
    case True
    then obtain d where d: "d \<in> set ?old" "or_key d = k" by auto
    have "d \<in> set (select_where (done_operation before) (cd_operations s))" by (rule subsetD [OF order_limit_subset d(1)])
    then have d': "d \<in> set (cd_operations s)" "or_state d = StateComplete" by (auto simp: sql_simps done_operation_def)
    have row: "row_by or_key k (cd_operations s) = Some d" using row_by_of_mem [OF uniq d'(1)] d(2) by simp
    obtain x where "pg_view s k = Some x" "so_State x = or_state d"
      by (rule pg_view_row [OF inv row]) (rule that; assumption)
    moreover have "row_by or_key k (delete_where ?p (cd_operations s)) = None"
      using True by (auto simp: row_by_None_iff sql_simps)
    ultimately show ?thesis using d'(2) by (simp add: pg_view_def table_view_def ops)
  qed
  ultimately show ?thesis by blast
qed

interpretation pg_client: client_store_retention pg_inv pg_view pg_SaveOutgoing pg_Load pg_MarkAccepted pg_SaveResult pg_MarkComplete
  "\<lambda>before batch db. snd (pg_Cleanup before batch db)"
  by unfold_locales (rule pg_Cleanup_law)

interpretation mem_client: client_store_retention mem_inv mem_view "\<lambda>_. mem_SaveOutgoing" mem_Load "\<lambda>_. mem_MarkAccepted"
  "\<lambda>_. mem_SaveResult" "\<lambda>_. mem_MarkComplete" "\<lambda>before batch s. s"
  by unfold_locales simp

lemma client_apis: "pg_client.api = pg_api" "mem_client.api = mem_api"
  by (simp_all add: pg_client.api_def mem_client.api_def pg_api_def mem_api_def)

end
