(* ===== verification/Client_Callbacks.thy ===== *)
theory Client_Callbacks
  imports Client_Outgoing Memory_Store Postgres_Store
begin

text \<open>
  \<^verbatim>\<open>client/callback.go\<close>: commands on callback routes, and the handling of callback events by an
  \<^verbatim>\<open>http.Handler\<close> of the application, which is a parameter (\<open>serve\<close>), as is the check that
  \<^verbatim>\<open>http.NewRequestWithContext\<close> makes of method and address (\<open>build\<close>, which gives the host).

  As in \<open>Client_Outgoing\<close>, a function is the code from one blocking point to the next.
\<close>

record 's callback_api =
  ca_SaveCallback :: "pg_time \<Rightarrow> webhook_event \<Rightarrow> 's \<Rightarrow> stored_callback go_result \<times> 's"
  ca_SaveCallbackResponse :: "pg_time \<Rightarrow> string \<Rightarrow> webhook_response \<Rightarrow> 's \<Rightarrow> unit go_result \<times> 's"
  ca_MarkCallbackComplete :: "pg_time \<Rightarrow> string \<Rightarrow> string \<Rightarrow> 's \<Rightarrow> unit go_result \<times> 's"

subsection \<open>Commands\<close>

definition command_id :: "bytes \<Rightarrow> string \<Rightarrow> string" where
  "command_id entropy i = (if i = [] then ''cmd_'' @ randomID entropy else i)"

definition RegisterCallback :: "client_config \<Rightarrow> bytes \<Rightarrow> webhook_register \<Rightarrow> webhook_register" where
  "RegisterCallback cfg entropy command =
     command\<lparr>wr_ClientID := cc_ClientID cfg, wr_CommandID := command_id entropy (wr_CommandID command)\<rparr>"

definition UpdateCallback :: "client_config \<Rightarrow> bytes \<Rightarrow> webhook_update \<Rightarrow> webhook_update" where
  "UpdateCallback cfg entropy command =
     command\<lparr>wu_ClientID := cc_ClientID cfg, wu_CommandID := command_id entropy (wu_CommandID command)\<rparr>"

text \<open>\<^verbatim>\<open>WebhookUnsubscribe\<close> has the fields of \<^verbatim>\<open>WebhookSubscribe\<close>.\<close>

definition SubscribeCallback :: "client_config \<Rightarrow> bytes \<Rightarrow> string \<Rightarrow> string \<Rightarrow> webhook_subscribe" where
  "SubscribeCallback cfg entropy webhookID subscriberID =
     \<lparr>ws_CommandID = ''cmd_'' @ randomID entropy, ws_ClientID = cc_ClientID cfg, ws_WebhookID = webhookID, ws_SubscriberID = subscriberID\<rparr>"

definition DeleteCallback :: "client_config \<Rightarrow> bytes \<Rightarrow> string \<Rightarrow> webhook_delete" where
  "DeleteCallback cfg entropy webhookID =
     \<lparr>wd_CommandID = ''cmd_'' @ randomID entropy, wd_ClientID = cc_ClientID cfg, wd_WebhookID = webhookID\<rparr>"

datatype control_phase =
    Commanding string string json go_duration
  | AckingControl webhook_control_result delivery_ack go_duration

definition control_acks :: "client_config \<Rightarrow> string" where
  "control_acks cfg = ''proxy.'' @ cc_ProxyID cfg @ ''.webhooks.control_acks''"

definition control_begin ::
  "client_config \<Rightarrow> string \<Rightarrow> string \<Rightarrow> json \<Rightarrow> client \<Rightarrow> (client_msg list \<times> control_phase \<times> client) go_result" where
  "control_begin cfg typ commandID command c =
     check (ct_control c commandID = None) (ErrText ''webhook command is already running'')
       (Inr ([CommandMsg typ command], Commanding typ commandID command (cc_RetryInterval cfg), c\<lparr>ct_control := (ct_control c)(commandID \<mapsto> [])\<rparr>))"

definition control_timer :: "client_config \<Rightarrow> control_phase \<Rightarrow> client_msg list \<times> control_phase" where
  "control_timer cfg ph =
     (case ph of
        Commanding typ i command d \<Rightarrow> ([CommandMsg typ command], Commanding typ i command (nextBackoff d (cc_MaxRetryInterval cfg)))
      | AckingControl r ack d \<Rightarrow>
          ([AckMsg (control_acks cfg) TypeWebhookControlACK ack], AckingControl r ack (nextBackoff d (cc_MaxRetryInterval cfg))))"

definition control_result :: "client_config \<Rightarrow> webhook_control_result \<Rightarrow> client_msg list \<times> control_phase" where
  "control_result cfg result =
     (let ack = \<lparr>da_RequestID = [], da_DeliveryID = cr_DeliveryID result, da_ClientID = cc_ClientID cfg\<rparr>
      in ([AckMsg (control_acks cfg) TypeWebhookControlACK ack], AckingControl result ack (cc_RetryInterval cfg)))"

definition control_outcome :: "webhook_control_result \<Rightarrow> webhook_control_result \<times> go_error option" where
  "control_outcome result =
     (result, if cr_Success result then None
              else Some (ErrText (''proxy rejected webhook '' @ cr_Action result @ '' ('' @ cr_ErrorCode result @ ''): '' @ cr_Error result)))"

subsection \<open>The request of an event and the recorded response\<close>

record callback_recorder =
  rc_header :: http_header
  rc_body :: bytes
  rc_status :: int
  rc_wrote :: bool

definition newCallbackResponse :: callback_recorder where
  "newCallbackResponse = \<lparr>rc_header = [], rc_body = [], rc_status = 200, rc_wrote = False\<rparr>"

definition WriteHeader :: "int \<Rightarrow> callback_recorder \<Rightarrow> callback_recorder" where
  "WriteHeader status r = (if \<not> rc_wrote r \<and> 100 \<le> status \<and> status \<le> 999 then r\<lparr>rc_status := status, rc_wrote := True\<rparr> else r)"

definition Write :: "bytes \<Rightarrow> callback_recorder \<Rightarrow> callback_recorder" where
  "Write body r = r\<lparr>rc_wrote := True, rc_body := rc_body r @ body\<rparr>"

definition requestHeadersFromMap :: "http_header \<Rightarrow> header_field list" where
  "requestHeadersFromMap h = requestHeaders h [] (- 1)"

definition callback_header :: "header_field \<Rightarrow> http_call \<Rightarrow> http_call" where
  "callback_header f req =
     (if ToLower (hf_Name f) = ''host'' then req\<lparr>hc_Host := hf_Value f\<rparr>
      else if ToLower (hf_Name f) = ''content-length''
      then (case ParseInt (hf_Value f) of None \<Rightarrow> req | Some n \<Rightarrow> req\<lparr>hc_ContentLength := n\<rparr>)
      else req\<lparr>hc_Header := header_add (hf_Name f) (hf_Value f) (hc_Header req)\<rparr>)"

definition callback_request :: "(string \<Rightarrow> string \<Rightarrow> string go_result) \<Rightarrow> webhook_event \<Rightarrow> http_call go_result" where
  "callback_request build e =
     go_try (build (ev_Method e) (ev_RequestURI e)) (\<lambda>host.
       Inr (fold callback_header (ev_Headers e)
         \<lparr>hc_Method = ev_Method e, hc_URL = ev_RequestURI e, hc_Host = host, hc_ContentLength = int (length (ev_Body e)),
          hc_Header = [], hc_Body = ev_Body e\<rparr>))"

definition callback_response :: "client_config \<Rightarrow> webhook_event \<Rightarrow> callback_recorder \<Rightarrow> webhook_response" where
  "callback_response cfg e r =
     \<lparr>wp_EventID = ev_EventID e, wp_DeliveryID = ev_DeliveryID e, wp_ClientID = cc_ClientID cfg, wp_StatusCode = rc_status r,
      wp_Headers = requestHeadersFromMap (rc_header r), wp_Body = rc_body r\<rparr>"

subsection \<open>Handling an event\<close>

text \<open>What \<^verbatim>\<open>handleCallback\<close> does with a message, up to the call of the handler.\<close>

datatype callback_action =
    Ignored
  | Reconfirm webhook_event
  | Redeliver webhook_event webhook_response
  | CallHandler webhook_event http_call

definition beginCallback :: "string \<Rightarrow> string list \<Rightarrow> string list option" where
  "beginCallback deliveryID runs = (if deliveryID \<in> set runs then None else Some (deliveryID # runs))"

definition endCallback :: "string \<Rightarrow> string list \<Rightarrow> string list" where
  "endCallback deliveryID runs = removeAll deliveryID runs"

definition handleCallback ::
  "client_config \<Rightarrow> crypto_lib \<Rightarrow> wire_lib \<Rightarrow> (string \<Rightarrow> string \<Rightarrow> string go_result) \<Rightarrow> 's callback_api \<Rightarrow> go_time \<Rightarrow> pg_time \<Rightarrow> fault \<Rightarrow>
   bytes \<Rightarrow> string list \<Rightarrow> 's \<Rightarrow> callback_action \<times> string list \<times> 's" where
  "handleCallback cfg lib wl build api clock now flt data runs s =
     (case client_decode cfg lib wl clock unmarshal_webhook_event TypeWebhookEvent data of
        Inl _ \<Rightarrow> (Ignored, runs, s)
      | Inr event \<Rightarrow>
          if ev_DeliveryID event = [] \<or> ev_ProxyID event \<noteq> cc_ProxyID cfg then (Ignored, runs, s)
          else case beginCallback (ev_DeliveryID event) runs of
                 None \<Rightarrow> (Ignored, runs, s)
               | Some runs' \<Rightarrow>
                   (case db_call flt (ca_SaveCallback api now event) s of
                      (Inl _, s') \<Rightarrow> (Ignored, endCallback (ev_DeliveryID event) runs', s')
                    | (Inr stored, s') \<Rightarrow>
                        if sc_Completed stored then (Reconfirm event, runs', s')
                        else (case sc_Response stored of
                                Some r \<Rightarrow> (Redeliver event r, runs', s')
                              | None \<Rightarrow>
                                  (case callback_request build event of
                                     Inl _ \<Rightarrow> (Ignored, endCallback (ev_DeliveryID event) runs', s')
                                   | Inr req \<Rightarrow> (CallHandler event req, runs', s')))))"

text \<open>
  The waits of a callback: for the confirmation of an event without a reply, for the confirmation and the
  storing of a response, and for the store to record the end.
\<close>

datatype callback_phase =
    ConfirmingEvent webhook_event bool go_duration
  | DeliveringResponse webhook_event webhook_response bool bool go_duration
  | CompletingCallback string go_duration
  | CallbackDone "go_error option"

definition event_ack :: "client_config \<Rightarrow> webhook_event \<Rightarrow> client_msg" where
  "event_ack cfg e = AckMsg (''proxy.'' @ cc_ProxyID cfg @ ''.webhooks.acks'') TypeWebhookEventACK
     \<lparr>da_RequestID = ev_EventID e, da_DeliveryID = ev_DeliveryID e, da_ClientID = cc_ClientID cfg\<rparr>"

text \<open>One attempt of \<^verbatim>\<open>markCallbackComplete\<close>.\<close>

definition complete_turn :: "client_config \<Rightarrow> 's callback_api \<Rightarrow> pg_time \<Rightarrow> fault \<Rightarrow> string \<Rightarrow> go_duration \<Rightarrow> 's \<Rightarrow> callback_phase \<times> 's" where
  "complete_turn cfg api now flt deliveryID delay s =
     (case db_call flt (ca_MarkCallbackComplete api now (cc_ProxyID cfg) deliveryID) s of
        (Inr _, s') \<Rightarrow> (CallbackDone None, s')
      | (Inl _, s') \<Rightarrow> (CompletingCallback deliveryID delay, s'))"

text \<open>The head of the loop of \<^verbatim>\<open>deliverCallbackResponse\<close>.\<close>

definition deliver_turn ::
  "client_config \<Rightarrow> 's callback_api \<Rightarrow> pg_time \<Rightarrow> fault \<Rightarrow> fault \<Rightarrow> webhook_event \<Rightarrow> webhook_response \<Rightarrow> bool \<Rightarrow> bool \<Rightarrow> go_duration \<Rightarrow> 's \<Rightarrow>
   callback_phase \<times> 's" where
  "deliver_turn cfg api now f1 f2 event response saved confirmed delay s =
     (let next = (\<lambda>saved' s'. if saved' \<and> confirmed then complete_turn cfg api now f2 (ev_DeliveryID event) (cc_RetryInterval cfg) s'
                              else (DeliveringResponse event response saved' confirmed delay, s'))
      in if saved then next True s
         else case db_call f1 (ca_SaveCallbackResponse api now (ev_ProxyID event) response) s of
                (Inr _, s') \<Rightarrow> next True s'
              | (Inl e, s') \<Rightarrow> if e = ErrOperationNotFound \<or> e = ErrRequestConflict then (CallbackDone (Some e), s') else next False s')"

definition deliver_begin ::
  "client_config \<Rightarrow> 's callback_api \<Rightarrow> pg_time \<Rightarrow> fault \<Rightarrow> fault \<Rightarrow> webhook_event \<Rightarrow> webhook_response \<Rightarrow> bool \<Rightarrow> 's \<Rightarrow>
   client_msg list \<times> callback_phase \<times> 's" where
  "deliver_begin cfg api now f1 f2 event response persist s =
     ([ResponseMsg (ev_ReplySubject event) response],
      deliver_turn cfg api now f1 f2 event response (\<not> persist) False (cc_RetryInterval cfg) s)"

text \<open>After the handler has answered.\<close>

definition callback_handled ::
  "client_config \<Rightarrow> 's callback_api \<Rightarrow> pg_time \<Rightarrow> fault \<Rightarrow> fault \<Rightarrow> webhook_event \<Rightarrow> callback_recorder \<Rightarrow> 's \<Rightarrow> client_msg list \<times> callback_phase \<times> 's" where
  "callback_handled cfg api now f1 f2 event recorder s =
     (if ev_ReplySubject event \<noteq> [] then deliver_begin cfg api now f1 f2 event (callback_response cfg event recorder) True s
      else ([event_ack cfg event], ConfirmingEvent event True (cc_RetryInterval cfg), s))"

text \<open>What follows a decision that does not call the handler.\<close>

definition callback_repeat ::
  "client_config \<Rightarrow> 's callback_api \<Rightarrow> pg_time \<Rightarrow> fault \<Rightarrow> fault \<Rightarrow> callback_action \<Rightarrow> 's \<Rightarrow> client_msg list \<times> callback_phase \<times> 's" where
  "callback_repeat cfg api now f1 f2 act s =
     (case act of
        Reconfirm event \<Rightarrow> ([event_ack cfg event], ConfirmingEvent event False (cc_RetryInterval cfg), s)
      | Redeliver event response \<Rightarrow> deliver_begin cfg api now f1 f2 event response False s
      | _ \<Rightarrow> ([], CallbackDone None, s))"

definition callback_confirmed ::
  "client_config \<Rightarrow> 's callback_api \<Rightarrow> pg_time \<Rightarrow> fault \<Rightarrow> fault \<Rightarrow> callback_phase \<Rightarrow> 's \<Rightarrow> callback_phase \<times> 's" where
  "callback_confirmed cfg api now f1 f2 ph s =
     (case ph of
        ConfirmingEvent event mark d \<Rightarrow>
          if mark then complete_turn cfg api now f2 (ev_DeliveryID event) (cc_RetryInterval cfg) s else (CallbackDone None, s)
      | DeliveringResponse event response saved confirmed d \<Rightarrow> deliver_turn cfg api now f1 f2 event response saved True d s
      | _ \<Rightarrow> (ph, s))"

definition callback_timer ::
  "client_config \<Rightarrow> 's callback_api \<Rightarrow> pg_time \<Rightarrow> fault \<Rightarrow> fault \<Rightarrow> callback_phase \<Rightarrow> 's \<Rightarrow> client_msg list \<times> callback_phase \<times> 's" where
  "callback_timer cfg api now f1 f2 ph s =
     (case ph of
        ConfirmingEvent event mark d \<Rightarrow> ([event_ack cfg event], ConfirmingEvent event mark (nextBackoff d (cc_MaxRetryInterval cfg)), s)
      | DeliveringResponse event response saved confirmed d \<Rightarrow>
          (if confirmed then [] else [ResponseMsg (ev_ReplySubject event) response],
           deliver_turn cfg api now f1 f2 event response saved confirmed (nextBackoff d (cc_MaxRetryInterval cfg)) s)
      | CompletingCallback i d \<Rightarrow> ([], complete_turn cfg api now f2 i (nextBackoff d (cc_MaxRetryInterval cfg)) s)
      | CallbackDone e \<Rightarrow> ([], CallbackDone e, s))"

text \<open>\<^verbatim>\<open>resumeCallbacks\<close>: which of the pending callbacks are taken up again.\<close>

fun resume_list :: "stored_callback list \<Rightarrow> string list \<Rightarrow> (webhook_event \<times> webhook_response) list \<times> string list" where
  "resume_list [] runs = ([], runs)"
| "resume_list (x # xs) runs =
     (case sc_Response x of
        None \<Rightarrow> resume_list xs runs
      | Some r \<Rightarrow>
          if sc_Completed x then resume_list xs runs
          else case beginCallback (ev_DeliveryID (sc_Event x)) runs of
                 None \<Rightarrow> resume_list xs runs
               | Some runs' \<Rightarrow> (case resume_list xs runs' of (ys, runs'') \<Rightarrow> ((sc_Event x, r) # ys, runs'')))"

subsection \<open>The handler runs only for unanswered events\<close>

lemma unmarshal_event_plain:
  assumes "unmarshal_webhook_event j = Some e"
  shows "coerce_utf8 (ev_EventID e) = ev_EventID e"
proof -
  have zero: "coerce_utf8 (ev_EventID zero_webhook_event) = ev_EventID zero_webhook_event" by (simp add: zero_webhook_event_def)
  have field: "coerce_utf8 (ev_EventID b) = ev_EventID b"
    if "f \<in> set webhook_event_fields" "jf_dec f v a = Some b" "coerce_utf8 (ev_EventID a) = ev_EventID a" for f v a b
    using that by (auto simp: webhook_event_fields_def field_defs split: json.splits if_splits)
  show ?thesis
    using assms zero dec_members_keeps [where P = "\<lambda>e. coerce_utf8 (ev_EventID e) = ev_EventID e", OF _ zero field]
    by (auto simp: unmarshal_webhook_event_def unmarshal_struct_def split: json.splits)
qed

lemma handleCallback_cases:
  assumes "handleCallback cfg lib wl build api clock now flt data runs s = (act, runs', s')"
    and "act = CallHandler e req \<or> act = Redeliver e r"
  shows "\<exists>stored. ca_SaveCallback api now e s = (Inr stored, s') \<and> ev_ProxyID e = cc_ProxyID cfg \<and> coerce_utf8 (ev_EventID e) = ev_EventID e
    \<and> \<not> sc_Completed stored \<and> (act = CallHandler e req \<longrightarrow> sc_Response stored = None) \<and> (act = Redeliver e r \<longrightarrow> sc_Response stored = Some r)"
proof -
  obtain ev where dec: "client_decode cfg lib wl clock unmarshal_webhook_event TypeWebhookEvent data = Inr ev"
    using assms by (auto simp: handleCallback_def split: sum.splits)
  obtain j where j: "unmarshal_webhook_event j = Some ev" using client_decode_ok [OF dec] by (rule exE)
  obtain res s1 where call: "db_call flt (ca_SaveCallback api now ev) s = (res, s1)" by (cases "db_call flt (ca_SaveCallback api now ev) s")
  have eq: "ev_ProxyID ev = cc_ProxyID cfg" "\<exists>stored. res = Inr stored \<and> s' = s1 \<and> e = ev \<and> \<not> sc_Completed stored
      \<and> (act = CallHandler e req \<longrightarrow> sc_Response stored = None) \<and> (act = Redeliver e r \<longrightarrow> sc_Response stored = Some r)"
    using assms unfolding handleCallback_def dec sum.case call
    by (auto split: if_splits option.splits sum.splits)
  then obtain stored where st: "res = Inr stored" "s' = s1" "e = ev" "\<not> sc_Completed stored"
    "act = CallHandler e req \<longrightarrow> sc_Response stored = None" "act = Redeliver e r \<longrightarrow> sc_Response stored = Some r" by blast
  have "ca_SaveCallback api now ev s = (Inr stored, s1)" using call st(1) by (simp add: db_call_def split: fault.splits)
  then show ?thesis using st eq(1) unmarshal_event_plain [OF j] by blast
qed

context callback_store
begin

lemma event_returns_stored:
  assumes "inv s" "plain_event e" "view s (ev_ProxyID e, ev_DeliveryID e) = Some x" "event now e s = (Inr stored, s')"
  shows "canon_callback stored = x"
  using event_law [OF assms(1,2), of now] assms(3,4) by (auto simp: spec_callback_def split: if_splits)

lemma not_handled_again:
  assumes "inv s" "plain_id (cc_ProxyID cfg)" "plain_response r" "is_ok (fst (respond t (cc_ProxyID cfg) r s))"
    and "list_all (\<lambda>(now, x). plain_callback_op x) xs"
    and "ca_SaveCallback api = event"
    and "handleCallback cfg lib wl build api clock now flt data runs (apply_callbacks xs (snd (respond t (cc_ProxyID cfg) r s))) = (act, runs', s')"
    and "act = CallHandler e req \<or> act = Redeliver e r'" and "ev_DeliveryID e = wp_DeliveryID r"
  shows "act = Redeliver e r' \<and> sameCallbackResponse r r'"
proof -
  let ?p = "cc_ProxyID cfg" and ?s = "apply_callbacks xs (snd (respond t (cc_ProxyID cfg) r s))"
  have l1: "inv (snd (respond t ?p r s))" "responds ?p r (view s) (fst (respond t ?p r s)) (view (snd (respond t ?p r s)))"
    using respond_law [OF assms(1-3)] by simp_all
  then obtain x where x: "view (snd (respond t ?p r s)) (?p, wp_DeliveryID r) = Some x" "\<exists>r1. sc_Response x = Some r1 \<and> sameCallbackResponse r1 r"
    using assms(4) by (auto simp: responds_def is_ok_def split: option.splits if_splits)
  obtain x' where x': "inv ?s" "view ?s (?p, wp_DeliveryID r) = Some x'" "\<exists>r1. sc_Response x' = Some r1 \<and> sameCallbackResponse r r1"
    using callback_permanent [OF l1(1) assms(5) x(1)] x(2) by (auto simp: sameCallbackResponse_def jsonEqual_def)
  obtain stored where st: "event now e ?s = (Inr stored, s')" "ev_ProxyID e = ?p" "coerce_utf8 (ev_EventID e) = ev_EventID e"
    "act = CallHandler e req \<longrightarrow> sc_Response stored = None" "act = Redeliver e r' \<longrightarrow> sc_Response stored = Some r'"
    using handleCallback_cases [OF assms(7,8)] assms(6) by auto
  have "plain_event e" using assms(2) st(2,3) by (simp add: plain_event_def)
  then have "canon_callback stored = x'" using event_returns_stored [OF x'(1) _ _ st(1)] x'(2) st(2) assms(9) by simp
  then have "\<exists>r1. map_option canon_webhook_response (sc_Response stored) = Some r1 \<and> sameCallbackResponse r r1" using x'(3) by auto
  then show ?thesis using st(4,5) assms(8) by (auto simp: sameCallbackResponse_canon)
qed

end

end
