(* ===== verification/Client_Properties.thy ===== *)
theory Client_Properties
  imports Client_System Client_Callbacks Store_Properties Edge_Properties
begin

text \<open>
  What the client library guarantees to its caller and to the proxy, in every reachable state of
  \<open>Client_System\<close>, and that its messages are accepted by a proxy that knows its key.
\<close>

subsection \<open>Persist before acknowledge\<close>

text \<open>
  C27: The client never announces what it has not stored. In every reachable state and for every step
  (messages, timers, failed calls of the store, retention and crashes in any order): a request is
  published only if it is stored; an acceptance is confirmed to the proxy only if the store has recorded
  it; a result is confirmed, which allows the proxy to forget it, only if the store holds a result; and an
  operation that ends without an error is complete in the store, with exactly the result that the caller
  gets.
\<close>

theorem client_persists_before_it_acknowledges:
  assumes "plain_id (cc_ProxyID cfg)" and "reach (client_init pg_inv pg_view) (client_step pg_api cfg lib wl) y"
    and "client_step pg_api cfg lib wl y y'"
  shows "(\<exists>msgs. cy_sent y' = cy_sent y @ msgs \<and> (\<forall>m \<in> set msgs. justified cfg (pg_view (cy_store y')) m))
    \<and> (\<forall>rid out. cy_outcomes y' = (rid, out) # cy_outcomes y \<longrightarrow> oo_err out = None \<longrightarrow>
         (\<exists>x. pg_view (cy_store y') (cc_ProxyID cfg, rid) = Some x \<and> so_State x = StateComplete
            \<and> so_Result x = Some (canon_http_result (oo_result out))))"
proof -
  have "pg_client.sys_ok cfg y"
    using pg_client.client_reachable_ok [unfolded client_apis, OF assms(2,1)] .
  from pg_client.client_step_ok [unfolded client_apis, OF assms(3) this assms(1)] show ?thesis
    unfolding pg_client.step_ok_def by blast
qed

definition sample_client :: client_config where
  "sample_client = \<lparr>cc_ClientID = ''shop'', cc_ProxyID = ''p1'', cc_Signer = replicate 64 (CHR ''s''), cc_ProxyPublicKey = [],
     cc_RequireProxySignature = False, cc_RetryInterval = 1000000000, cc_MaxRetryInterval = 30000000000, cc_Retention = 1000, cc_CleanupInterval = 1000,
     cc_CallbackWorkers = 8\<rparr>"

definition sample_sys :: "client_db client_sys" where
  "sample_sys = \<lparr>cy_client = no_channels, cy_runs = Map.empty, cy_store = empty_client_db, cy_sent = [], cy_outcomes = []\<rparr>"

definition sample_envelope :: envelope where
  "sample_envelope = NewEnvelope plain_crypto ''0123456789abcdef'' 1000 TypeHTTPRequest ''json'' (cc_Signer sample_client)"

definition sample_link :: wire_lib where
  "sample_link = \<lparr>wl_env_parse = (\<lambda>_. Some sample_envelope), wl_env_text = (\<lambda>_. ''env''),
     wl_parse = (\<lambda>_. Some (marshal_http_request sample_stored)), wl_text = (\<lambda>_. ''json'')\<rparr>"

theorem client_persists_before_it_acknowledges_witness:
  "\<exists>req s. client_start pg_api 5 NoFault False sample_stored (\<lambda>_. False) empty_client_db = (Begun req, s)
     \<and> justified sample_client (pg_view s) (RequestMsg req)"
proof -
  have "(case client_start pg_api 5 NoFault False sample_stored (\<lambda>_. False) empty_client_db of (Begun req, s) \<Rightarrow> True | _ \<Rightarrow> False)" by code_simp
  then obtain req s where start: "client_start pg_api 5 NoFault False sample_stored (\<lambda>_. False) empty_client_db = (Begun req, s)"
    by (auto split: prod.splits start_answer.splits)
  have plain: "plain_id (cc_ProxyID sample_client)" "plain_request sample_client sample_stored" by code_simp+
  have reach: "reach (client_init pg_inv pg_view) (client_step pg_api sample_client plain_crypto sample_link) sample_sys"
    by (rule reach.start) (simp add: client_init_def sample_sys_def empty_stores)
  let ?y = "advance (hq_RequestID req) (open_channels (hq_RequestID req) (cy_client sample_sys)) (execute_begin sample_client req s) sample_sys"
  have step: "client_step pg_api sample_client plain_crypto sample_link sample_sys ?y"
    by (rule client_stepI, rule client_event_step.begin_run [OF plain(2)]) (use start in \<open>simp add: sample_sys_def\<close>)
  have "cy_sent ?y = cy_sent sample_sys @ [RequestMsg req]" "cy_store ?y = s"
    by (simp_all add: advance_def execute_begin_def sample_sys_def)
  then have "justified sample_client (pg_view s) (RequestMsg req)"
    using client_persists_before_it_acknowledges [OF plain(1) reach step] by auto
  then show ?thesis using start by blast
qed

subsection \<open>From the client's call to the proxy's database\<close>





subsection \<open>Callbacks\<close>





end
