(* ===== verification/Transport_Run.thy ===== *)
theory Transport_Run
  imports Transport_Callback
begin

text \<open>
  \<^verbatim>\<open>Run\<close> and \<^verbatim>\<open>Ready\<close> of \<^verbatim>\<open>internal/transport/core.go\<close> and the loop of \<^verbatim>\<open>internal/transport/delivery.go\<close>: the
  table of subscriptions, which handler a message reaches, and when the transport serves and stops. NATS
  itself is a parameter: whether a subscription and the flush succeed, and that a message goes to the
  subscriptions of its subject.
\<close>

subsection \<open>Subscriptions\<close>

datatype core_handler =
    OnRequest
  | OnAcceptanceACK
  | OnResultACK
  | OnWebhookCommand
  | OnWebhookControlACK
  | OnWebhookACK
  | OnWebhookResponse

definition core_subscriptions :: "core \<Rightarrow> (string \<times> string \<times> core_handler) list" where
  "core_subscriptions c =
     (let queue = ''proxy-'' @ tc_proxyID c
      in [(requestSubject c, queue, OnRequest),
          (acceptedACKSubject c, queue, OnAcceptanceACK),
          (resultACKSubject c, queue, OnResultACK),
          (webhookCommandSubject c, queue, OnWebhookCommand),
          (webhookControlACKSubject c, queue, OnWebhookControlACK),
          (webhookACKSubject c, queue, OnWebhookACK),
          (webhookResponseSubject c, [], OnWebhookResponse)])"

text \<open>What the handlers work on: the database of the proxy and the waiting callers of this process.\<close>

definition core_dispatch ::
  "core \<Rightarrow> crypto_lib \<Rightarrow> wire_lib \<Rightarrow> hash_lib \<Rightarrow> url_parser \<Rightarrow> io \<Rightarrow> core_handler \<Rightarrow> bytes \<Rightarrow> proxy_db \<times> waiters \<Rightarrow>
   (proxy_db \<times> waiters) \<times> nats_msg list" where
  "core_dispatch c lib wl h url_parse io handler data st =
     (case st of (db, ws) \<Rightarrow>
        (case handler of
           OnRequest \<Rightarrow> (case handleRequest c lib wl url_parse io data db of (db', ms) \<Rightarrow> ((db', ws), ms))
         | OnAcceptanceACK \<Rightarrow> (case handleAcceptanceACK c lib wl io data db of (db', ms) \<Rightarrow> ((db', ws), ms))
         | OnResultACK \<Rightarrow> (case handleResultACK c lib wl io data db of (db', ms) \<Rightarrow> ((db', ws), ms))
         | OnWebhookCommand \<Rightarrow> ((handleWebhookCommand c lib wl h io data db, ws), [])
         | OnWebhookControlACK \<Rightarrow> (case handleWebhookControlACK c lib wl io data db of (db', ms) \<Rightarrow> ((db', ws), ms))
         | OnWebhookACK \<Rightarrow> (case handleWebhookACK c lib wl io data db of (db', ms) \<Rightarrow> ((db', ws), ms))
         | OnWebhookResponse \<Rightarrow> (case handleWebhookResponse c lib wl io data db ws of (db', ws', ms) \<Rightarrow> ((db', ws'), ms))))"

text \<open>A message is given to every subscription of its subject.\<close>

definition subject_handlers :: "(string \<times> string \<times> 'h) list \<Rightarrow> string \<Rightarrow> 'h list" where
  "subject_handlers subs subject = map (\<lambda>(s, q, h). h) (filter (\<lambda>(s, q, h). s = subject) subs)"

fun run_handlers :: "('h \<Rightarrow> 's \<Rightarrow> 's \<times> 'm list) \<Rightarrow> 'h list \<Rightarrow> 's \<Rightarrow> 's \<times> 'm list" where
  "run_handlers f [] st = (st, [])"
| "run_handlers f (h # hs) st = (case f h st of (st1, ms) \<Rightarrow> (case run_handlers f hs st1 of (st2, ms') \<Rightarrow> (st2, ms @ ms')))"

definition core_receive ::
  "core \<Rightarrow> crypto_lib \<Rightarrow> wire_lib \<Rightarrow> hash_lib \<Rightarrow> url_parser \<Rightarrow> io \<Rightarrow> nats_msg \<Rightarrow> proxy_db \<times> waiters \<Rightarrow> (proxy_db \<times> waiters) \<times> nats_msg list" where
  "core_receive c lib wl h url_parse io m =
     run_handlers (\<lambda>handler. core_dispatch c lib wl h url_parse io handler (nm_Data m)) (subject_handlers (core_subscriptions c) (nm_Subject m))"

subsection \<open>The delivery loop\<close>

text \<open>
  What one turn of the loop meets: the failures of its two database calls, the rows locked by others,
  the clocks, and whether the context is done at the head, during a pause, and after the rescheduling.
\<close>

record delivery_turn_io =
  dt_io :: io
  dt_fault :: fault
  dt_locked :: "string list"
  dt_later :: pg_time
  dt_done_before :: bool
  dt_done_waiting :: bool
  dt_done_after :: bool

text \<open>\<open>None\<close>: the loop is still running.\<close>

fun deliveryLoop :: "core \<Rightarrow> crypto_lib \<Rightarrow> wire_lib \<Rightarrow> delivery_turn_io list \<Rightarrow> proxy_db \<Rightarrow> unit go_result option \<times> proxy_db \<times> nats_msg list" where
  "deliveryLoop c lib wl [] db = (None, db, [])"
| "deliveryLoop c lib wl (t # ts) db =
     (if dt_done_before t then (Some (Inr ()), db, [])
      else
        case db_call (io_fault (dt_io t)) (ClaimDelivery 10000000000 (dt_locked t) (io_now (dt_io t))) db of
          (Inl _, db1) \<Rightarrow> if dt_done_waiting t then (Some (Inr ()), db1, []) else deliveryLoop c lib wl ts db1
        | (Inr d, db1) \<Rightarrow>
            let ms = snd (PublishRaw c lib wl (dt_io t) (de_Subject d) (de_MessageType d) (de_Payload d))
            in case db_call (dt_fault t) (RescheduleDelivery (de_ID d) (tc_deliveryRetry c) (dt_later t)) db1 of
                 (Inl err, db2) \<Rightarrow>
                   if \<not> dt_done_after t then (Some (Inl err), db2, ms)
                   else (case deliveryLoop c lib wl ts db2 of (r, db3, ms') \<Rightarrow> (r, db3, ms @ ms'))
               | (Inr _, db2) \<Rightarrow> (case deliveryLoop c lib wl ts db2 of (r, db3, ms') \<Rightarrow> (r, db3, ms @ ms')))"

subsection \<open>Serving and stopping\<close>

datatype core_status = CoreServing | CoreStopped "unit go_result"

datatype core_event = CoreCancelled | LoopEnded "unit go_result"

fun subscribe_all :: "(string \<Rightarrow> bool) \<Rightarrow> (string \<times> string \<times> 'h) list \<Rightarrow> unit go_result" where
  "subscribe_all subscribes [] = Inr ()"
| "subscribe_all subscribes ((subject, queue, h) # subs) =
     (if subscribes subject then subscribe_all subscribes subs else Inl ErrUnavailable)"

definition core_Run_start :: "core \<Rightarrow> (string \<Rightarrow> bool) \<Rightarrow> bool \<Rightarrow> core_status" where
  "core_Run_start c subscribes flushes =
     (case subscribe_all subscribes (core_subscriptions c) of
        Inl e \<Rightarrow> CoreStopped (Inl e)
      | Inr _ \<Rightarrow> if flushes then CoreServing else CoreStopped (Inl ErrUnavailable))"

fun core_Run_wait :: "core_status \<Rightarrow> core_event \<Rightarrow> core_status" where
  "core_Run_wait CoreServing CoreCancelled = CoreStopped (Inr ())"
| "core_Run_wait CoreServing (LoopEnded r) = CoreStopped r"
| "core_Run_wait (CoreStopped r) e = CoreStopped r"

definition core_Ready :: "core_status \<Rightarrow> bool \<Rightarrow> bool" where
  "core_Ready st connected \<longleftrightarrow> st = CoreServing \<and> connected"

subsection \<open>Lemmas\<close>

text \<open>While no rescheduling is refused the loop goes on through every turn, as in \<open>delivery_turn\<close>.\<close>

lemma deliveryLoop_turn:
  assumes "\<not> dt_done_before t" "\<not> dt_done_waiting t"
    and "\<And>d db1. db_call (io_fault (dt_io t)) (ClaimDelivery 10000000000 (dt_locked t) (io_now (dt_io t))) db = (Inr d, db1) \<Longrightarrow>
      is_ok (fst (db_call (dt_fault t) (RescheduleDelivery (de_ID d) (tc_deliveryRetry c) (dt_later t)) db1))"
  shows "deliveryLoop c lib wl (t # ts) db =
    (case delivery_turn c lib wl (dt_io t) (dt_fault t) (dt_locked t) (dt_later t) db of
       (db1, ms) \<Rightarrow> (case deliveryLoop c lib wl ts db1 of (r, db2, ms') \<Rightarrow> (r, db2, ms @ ms')))"
proof (cases "db_call (io_fault (dt_io t)) (ClaimDelivery 10000000000 (dt_locked t) (io_now (dt_io t))) db")
  case (Pair r db1)
  show ?thesis
  proof (cases r)
    case (Inl e)
    then show ?thesis using assms(1,2) Pair by (simp add: delivery_turn_def split: prod.split)
  next
    case (Inr d)
    obtain u db2 where "db_call (dt_fault t) (RescheduleDelivery (de_ID d) (tc_deliveryRetry c) (dt_later t)) db1 = (Inr u, db2)"
      using assms(3) [OF Pair [unfolded Inr]]
      by (cases "db_call (dt_fault t) (RescheduleDelivery (de_ID d) (tc_deliveryRetry c) (dt_later t)) db1") (auto simp: is_ok_iff)
    then show ?thesis using assms(1) Pair Inr by (simp add: delivery_turn_def Let_def)
  qed
qed

text \<open>One rescheduling that fails ends the loop with its error.\<close>

lemma deliveryLoop_failed:
  assumes "\<not> dt_done_before t" "\<not> dt_done_after t"
    and "db_call (io_fault (dt_io t)) (ClaimDelivery 10000000000 (dt_locked t) (io_now (dt_io t))) db = (Inr d, db1)"
    and "db_call (dt_fault t) (RescheduleDelivery (de_ID d) (tc_deliveryRetry c) (dt_later t)) db1 = (Inl err, db2)"
  shows "fst (deliveryLoop c lib wl (t # ts) db) = Some (Inl err)"
  using assms by (simp add: Let_def)

lemma run_handlers_one: "run_handlers f [h] st = f h st"
  by (cases "f h st") simp

lemma subscribe_all_ok: "subscribe_all subscribes subs = Inr () \<longleftrightarrow> (\<forall>s \<in> set subs. subscribes (fst s))"
  by (induction subs) (auto split: if_splits)

end
