(* ===== verification/Client_Service.thy ===== *)
theory Client_Service
  imports Client_System Client_Callbacks Transport_Run
begin

text \<open>
  What keeps the client library running (\<^verbatim>\<open>New\<close>, \<^verbatim>\<open>subscribe\<close>, \<^verbatim>\<open>resumePending\<close> and \<^verbatim>\<open>cleanupLoop\<close> of the
  files \<^verbatim>\<open>client/client.go\<close> and \<^verbatim>\<open>client/outgoing.go\<close>, \<^verbatim>\<open>ServeCallbacks\<close> of \<^verbatim>\<open>client/callback.go\<close>): its
  subscriptions, the operations and callbacks it takes up again, the queue of callback messages.
\<close>

subsection \<open>Subscriptions and messages\<close>

datatype client_handler = OnAccepted | OnResult | OnConfirmed | OnControlResult

definition client_subscriptions :: "client_config \<Rightarrow> (string \<times> string \<times> client_handler) list" where
  "client_subscriptions cfg =
     [(client_subject cfg ''accepted'', [], OnAccepted),
      (client_subject cfg ''results'', [], OnResult),
      (client_subject cfg ''ack_confirmed'', [], OnConfirmed),
      (client_subject cfg ''webhooks.control_results'', [], OnControlResult)]"

definition client_dispatch :: "client_config \<Rightarrow> crypto_lib \<Rightarrow> wire_lib \<Rightarrow> go_time \<Rightarrow> client_handler \<Rightarrow> bytes \<Rightarrow> client \<Rightarrow> client" where
  "client_dispatch cfg lib wl clock handler data c =
     (case handler of
        OnAccepted \<Rightarrow> handleAcceptance cfg lib wl clock data c
      | OnResult \<Rightarrow> handleResult cfg lib wl clock data c
      | OnConfirmed \<Rightarrow> handleConfirmed cfg lib wl clock data c
      | OnControlResult \<Rightarrow> handleControlResult cfg lib wl clock data c)"

definition client_receive :: "client_config \<Rightarrow> crypto_lib \<Rightarrow> wire_lib \<Rightarrow> go_time \<Rightarrow> nats_msg \<Rightarrow> client \<Rightarrow> client" where
  "client_receive cfg lib wl clock m c =
     fst (run_handlers (\<lambda>h c. (client_dispatch cfg lib wl clock h (nm_Data m) c, [] :: unit list))
       (subject_handlers (client_subscriptions cfg) (nm_Subject m)) c)"

text \<open>The subject, type and payload with which \<^verbatim>\<open>publish\<close> is called for each message of the library.\<close>

definition client_msg_wire :: "client_config \<Rightarrow> client_msg \<Rightarrow> string \<times> string \<times> json" where
  "client_msg_wire cfg m =
     (case m of
        RequestMsg req \<Rightarrow> (''proxy.'' @ cc_ProxyID cfg @ ''.requests'', TypeHTTPRequest, marshal_http_request req)
      | AckMsg subject typ ack \<Rightarrow> (subject, typ, marshal_delivery_ack ack)
      | CommandMsg typ command \<Rightarrow> (''proxy.'' @ cc_ProxyID cfg @ ''.webhooks.commands'', typ, command)
      | ResponseMsg subject response \<Rightarrow> (subject, TypeWebhookDelegatedResponse, marshal_webhook_response response))"

subsection \<open>Starting, and taking up unfinished work\<close>

record start_io =
  so_now :: pg_time
  so_fault :: fault
  so_load_fails :: bool

fun resume_operations :: "'s store_api \<Rightarrow> client_config \<Rightarrow> (nat \<Rightarrow> start_io) \<Rightarrow> nat \<Rightarrow> stored_operation list \<Rightarrow> 's client_sys \<Rightarrow> 's client_sys" where
  "resume_operations api cfg ios n [] y = y"
| "resume_operations api cfg ios n (op # ops) y =
     (case client_start api (so_now (ios n)) (so_fault (ios n)) (so_load_fails (ios n)) (so_Request op) (\<lambda>rid. cy_runs y rid \<noteq> None) (cy_store y) of
        (Begun req, s) \<Rightarrow> resume_operations api cfg ios (Suc n) ops
           (advance (hq_RequestID req) (open_channels (hq_RequestID req) (cy_client y)) (execute_begin cfg req s) y)
      | (_, s) \<Rightarrow> resume_operations api cfg ios (Suc n) ops (y\<lparr>cy_store := s\<rparr>))"

text \<open>\<open>list\<close> is \<^verbatim>\<open>ListPending\<close> of the store.\<close>

definition resumePending ::
  "'s store_api \<Rightarrow> (string \<Rightarrow> int \<Rightarrow> 's \<Rightarrow> stored_operation list go_result) \<Rightarrow> client_config \<Rightarrow> (nat \<Rightarrow> start_io) \<Rightarrow> 's client_sys \<Rightarrow> 's client_sys" where
  "resumePending api list cfg ios y =
     (case list (cc_ProxyID cfg) 10000 (cy_store y) of
        Inl _ \<Rightarrow> y
      | Inr ops \<Rightarrow> resume_operations api cfg ios 0 ops y)"

text \<open>\<^verbatim>\<open>New\<close>: the checks, the subscriptions, and the unfinished operations of the store.\<close>

definition client_open ::
  "bool \<Rightarrow> bool \<Rightarrow> (string \<Rightarrow> bool) \<Rightarrow> bool \<Rightarrow> 's store_api \<Rightarrow> (string \<Rightarrow> int \<Rightarrow> 's \<Rightarrow> stored_operation list go_result) \<Rightarrow>
   client_config \<Rightarrow> (nat \<Rightarrow> start_io) \<Rightarrow> 's \<Rightarrow> (client_config \<times> 's client_sys) go_result" where
  "client_open has_conn has_store subscribes flushes api list cfg0 ios s =
     go_try (client_New has_conn has_store cfg0) (\<lambda>cfg.
     go_try (subscribe_all subscribes (client_subscriptions cfg)) (\<lambda>_.
     check flushes ErrUnavailable
       (Inr (cfg, resumePending api list cfg ios \<lparr>cy_client = no_channels, cy_runs = Map.empty, cy_store = s, cy_sent = [], cy_outcomes = []\<rparr>))))"

text \<open>\<^verbatim>\<open>cleanupLoop\<close>: the retention runs at once and at every tick; \<open>clocks\<close> are the times it reads.\<close>

definition cleanupLoop :: "'s store_api \<Rightarrow> client_config \<Rightarrow> go_time list \<Rightarrow> 's client_sys \<Rightarrow> 's client_sys" where
  "cleanupLoop api cfg clocks y =
     fold (\<lambda>clock y. y\<lparr>cy_store := sa_Cleanup api ((clock - cc_Retention cfg) div 1000) 1000 (cy_store y)\<rparr>) clocks y"

subsection \<open>Serving callbacks\<close>

record callback_service =
  cv_subscribed :: bool
  cv_workers :: int
  cv_capacity :: int
  cv_queue :: "bytes list"

definition ServeCallbacks ::
  "client_config \<Rightarrow> bool \<Rightarrow> bool \<Rightarrow> bool \<Rightarrow> bool \<Rightarrow> stored_callback list go_result \<Rightarrow> string list \<Rightarrow> callback_service \<Rightarrow>
   unit go_result \<times> (webhook_event \<times> webhook_response) list \<times> string list \<times> callback_service" where
  "ServeCallbacks cfg has_handler is_callback_store subscribes flushes pending_callbacks runs v =
     (if \<not> has_handler then (Inl (ErrText ''callback handler is required''), [], runs, v)
      else if \<not> is_callback_store then (Inl (ErrText ''client store does not implement CallbackStore''), [], runs, v)
      else if cv_subscribed v then (Inl (ErrText ''callback handler is already running''), [], runs, v)
      else
        let v1 = v\<lparr>cv_capacity := cc_CallbackWorkers cfg * 64, cv_queue := [], cv_workers := cv_workers v + cc_CallbackWorkers cfg\<rparr>
        in if \<not> subscribes then (Inl ErrUnavailable, [], runs, v1)
           else
             let v2 = v1\<lparr>cv_subscribed := True\<rparr>
             in if \<not> flushes then (Inl ErrUnavailable, [], runs, v2)
                else case pending_callbacks of
                       Inl _ \<Rightarrow> (Inr (), [], runs, v2)
                     | Inr xs \<Rightarrow> (case resume_list xs runs of (resumed, runs') \<Rightarrow> (Inr (), resumed, runs', v2)))"

text \<open>A message that finds the queue full is dropped; a worker takes the oldest.\<close>

definition enqueue_callback :: "bytes \<Rightarrow> callback_service \<Rightarrow> callback_service" where
  "enqueue_callback data v = (if int (length (cv_queue v)) < cv_capacity v then v\<lparr>cv_queue := cv_queue v @ [data]\<rparr> else v)"

definition take_callback :: "callback_service \<Rightarrow> (bytes \<times> callback_service) option" where
  "take_callback v = (case cv_queue v of [] \<Rightarrow> None | data # rest \<Rightarrow> Some (data, v\<lparr>cv_queue := rest\<rparr>))"

subsection \<open>Lemmas\<close>

text \<open>Starting again is a path of the step relation of \<open>Client_System\<close>, so its invariant holds throughout.\<close>

lemma resume_operations_steps:
  assumes "\<forall>op \<in> set ops. plain_request cfg (so_Request op)"
  shows "(client_step api cfg lib wl)\<^sup>*\<^sup>* y (resume_operations api cfg ios n ops y)"
  using assms
proof (induction api cfg ios n ops y rule: resume_operations.induct)
  case (2 api cfg ios n op ops y)
  have plain: "plain_request cfg (so_Request op)" "\<forall>op \<in> set ops. plain_request cfg (so_Request op)" using "2.prems" by simp_all
  obtain ans s where call: "client_start api (so_now (ios n)) (so_fault (ios n)) (so_load_fails (ios n)) (so_Request op)
      (\<lambda>rid. cy_runs y rid \<noteq> None) (cy_store y) = (ans, s)"
    by (cases "client_start api (so_now (ios n)) (so_fault (ios n)) (so_load_fails (ios n)) (so_Request op) (\<lambda>rid. cy_runs y rid \<noteq> None) (cy_store y)")
  show ?case
  proof (cases "\<exists>req. ans = Begun req")
    case True
    then obtain req where ans: "ans = Begun req" by blast
    have "client_step api cfg lib wl y (advance (hq_RequestID req) (open_channels (hq_RequestID req) (cy_client y)) (execute_begin cfg req s) y)"
      by (rule client_stepI, rule client_event_step.begin_run [OF plain(1) call [unfolded ans]])
    moreover have "(client_step api cfg lib wl)\<^sup>*\<^sup>* (advance (hq_RequestID req) (open_channels (hq_RequestID req) (cy_client y)) (execute_begin cfg req s) y)
        (resume_operations api cfg ios (Suc n) ops (advance (hq_RequestID req) (open_channels (hq_RequestID req) (cy_client y)) (execute_begin cfg req s) y))"
      using "2.IH" call ans plain(2) by fastforce
    ultimately show ?thesis using call ans by (simp add: converse_rtranclp_into_rtranclp)
  next
    case False
    then have "client_step api cfg lib wl y (y\<lparr>cy_store := s\<rparr>)" by (intro client_stepI [OF client_event_step.no_run [OF plain(1) call]]) blast
    moreover have "(client_step api cfg lib wl)\<^sup>*\<^sup>* (y\<lparr>cy_store := s\<rparr>) (resume_operations api cfg ios (Suc n) ops (y\<lparr>cy_store := s\<rparr>))"
      using "2.IH" call False plain(2) by (cases ans) fastforce+
    ultimately show ?thesis using call False by (cases ans) (simp_all add: converse_rtranclp_into_rtranclp)
  qed
qed simp

lemma cleanupLoop_steps: "(client_step api cfg lib wl)\<^sup>*\<^sup>* y (cleanupLoop api cfg clocks y)"
proof (induction clocks arbitrary: y)
  case (Cons clock clocks)
  have "client_step api cfg lib wl y (y\<lparr>cy_store := sa_Cleanup api ((clock - cc_Retention cfg) div 1000) 1000 (cy_store y)\<rparr>)"
    by (rule client_stepI, rule client_event_step.retention)
  then show ?case using Cons.IH by (simp add: cleanupLoop_def converse_rtranclp_into_rtranclp)
qed (simp add: cleanupLoop_def)

text \<open>The queue never outgrows its capacity.\<close>

lemma enqueue_within: "int (length (cv_queue v)) \<le> cv_capacity v \<Longrightarrow> int (length (cv_queue (enqueue_callback data v))) \<le> cv_capacity (enqueue_callback data v)"
  by (simp add: enqueue_callback_def)

text \<open>
  After a failed flush the library stays subscribed: every later call is refused, so the pending responses
  are not taken up again in this process.
\<close>

lemma failed_flush_is_final:
  assumes "\<not> cv_subscribed v" and "ServeCallbacks cfg True True True False xs runs v = (r, resumed, runs', v')"
  shows "\<not> is_ok r \<and> resumed = [] \<and> (\<forall>s f ys rs. \<exists>e. ServeCallbacks cfg True True s f ys rs v' = (Inl e, [], rs, v'))"
  using assms by (auto simp: ServeCallbacks_def Let_def)

end
