(* ===== verification/Client_Restart.thy ===== *)
theory Client_Restart
  imports Client_Service Store_Properties
begin

text \<open>
  What a client process does with the work that an earlier process left in the store: \<^verbatim>\<open>resumePending\<close>
  starts it again. Proved from the contract of stores and carried to the PostgreSQL store.
\<close>

subsection \<open>Resuming, for every store that keeps the contract\<close>

context client_store_retention
begin

lemma save_again:
  assumes "inv s" "plain_id (hq_ProxyID q)" "wf_http_request q" and "view s (hq_ProxyID q, hq_RequestID q) = Some x" "so_Request x = q"
  shows "fst (save now q s) = Inr ()" "inv (snd (save now q s))" "view (snd (save now q s)) = view s"
proof -
  have "sameRequest q q" by (simp add: sameRequest_def)
  then have "spec_save q (view s) = (Inr (), view s)" using assms(4,5) by (simp add: spec_save_def)
  then show "fst (save now q s) = Inr ()" "inv (snd (save now q s))" "view (snd (save now q s)) = view s"
    using save_law [OF assms(1-3), of now] by simp_all
qed

text \<open>Starting a stored, unfinished operation begins a run for it, unless it has one, and changes no entry.\<close>

lemma start_again:
  assumes inv: "inv s" and q: "plain_id p" "hq_ProxyID q = p" "wf_http_request q" "coerce_utf8 (hq_RequestID q) = hq_RequestID q" "hq_RequestID q \<noteq> []"
    and x: "view s (p, hq_RequestID q) = Some x" "so_Request x = q" "so_State x \<noteq> StateComplete"
  shows "\<exists>s'. inv s' \<and> view s' = view s
    \<and> (if running (hq_RequestID q) then client_start api now NoFault False q running s = (Joined (hq_RequestID q), s')
       else \<exists>req. client_start api now NoFault False q running s = (Begun req, s') \<and> hq_RequestID req = hq_RequestID q)"
proof -
  obtain r s1 where call: "save now q s = (r, s1)" by (cases "save now q s")
  have save: "save now q s = (Inr (), s1)" "inv s1" "view s1 = view s"
    using save_again [OF inv _ q(3), of x now] q(1,2) x call by simp_all
  have "map_sum id canon_operation (load p (hq_RequestID q) s1) = Inr x"
    using load_law [OF save(2) q(1), of "hq_RequestID q"] x(1) save(3) by (simp add: spec_load_def)
  then obtain y where y: "load p (hq_RequestID q) s1 = Inr y" "canon_operation y = x" by (cases "load p (hq_RequestID q) s1") auto
  have keys: "hq_RequestID (so_Request y) = hq_RequestID q" using load_keys [OF save(2) q(1,4) y(1)] by simp
  have "so_State y \<noteq> StateComplete" using x(3) y(2) by auto
  then have "client_start api now NoFault False q running s =
      (if running (hq_RequestID q) then (Joined (hq_RequestID q), s1) else (Begun (so_Request y), s1))"
    using q(2,5) save(1) y(1) keys by (cases "so_State y") (simp_all add: client_start_def api_def db_call_def Let_def)
  then show ?thesis using save(2,3) keys by (intro exI [of _ s1]) simp
qed

definition announced :: "'s client_sys \<Rightarrow> bool" where
  "announced y \<longleftrightarrow> (\<forall>rid ph. cy_runs y rid = Some ph \<longrightarrow> (\<exists>q d. ph = Requesting q d \<and> hq_RequestID q = rid \<and> RequestMsg q \<in> set (cy_sent y)))"

lemma announced_begin:
  assumes "announced y" "hq_RequestID req = rid"
  shows "announced (advance rid c (execute_begin cfg req s) y)"
    "cy_runs (advance rid c (execute_begin cfg req s) y) rid \<noteq> None"
    "cy_store (advance rid c (execute_begin cfg req s) y) = s"
    "cy_runs y i \<noteq> None \<Longrightarrow> cy_runs (advance rid c (execute_begin cfg req s) y) i \<noteq> None"
proof -
  show "announced (advance rid c (execute_begin cfg req s) y)"
    using assms unfolding announced_def by (simp add: advance_def execute_begin_def Let_def) blast
qed (auto simp: advance_def execute_begin_def Let_def)

definition resumable :: "string \<Rightarrow> operations_view \<Rightarrow> stored_operation \<Rightarrow> bool" where
  "resumable p v op \<longleftrightarrow> wf_http_request (so_Request op) \<and> hq_ProxyID (so_Request op) = p
     \<and> coerce_utf8 (hq_RequestID (so_Request op)) = hq_RequestID (so_Request op) \<and> hq_RequestID (so_Request op) \<noteq> []
     \<and> v (p, hq_RequestID (so_Request op)) = Some op \<and> so_State op \<noteq> StateComplete"

lemma resume_all:
  assumes "inv (cy_store y)" "plain_id (cc_ProxyID cfg)" "announced y"
    and "\<And>n. so_fault (ios n) = NoFault" "\<And>n. \<not> so_load_fails (ios n)"
    and "\<And>op. op \<in> set ops \<Longrightarrow> resumable (cc_ProxyID cfg) (view (cy_store y)) op"
  shows "announced (resume_operations api cfg ios n ops y)
    \<and> (\<forall>i. cy_runs y i \<noteq> None \<longrightarrow> cy_runs (resume_operations api cfg ios n ops y) i \<noteq> None)
    \<and> (\<forall>op \<in> set ops. cy_runs (resume_operations api cfg ios n ops y) (hq_RequestID (so_Request op)) \<noteq> None)"
  using assms(1,3,6)
proof (induction ops arbitrary: n y)
  case (Cons op ops)
  let ?q = "so_Request op" and ?running = "\<lambda>rid. cy_runs y rid \<noteq> None"
  have op: "wf_http_request ?q" "hq_ProxyID ?q = cc_ProxyID cfg" "coerce_utf8 (hq_RequestID ?q) = hq_RequestID ?q" "hq_RequestID ?q \<noteq> []"
    "view (cy_store y) (cc_ProxyID cfg, hq_RequestID ?q) = Some op" "so_State op \<noteq> StateComplete"
    using Cons.prems(3) [of op] by (simp_all add: resumable_def)
  obtain s' where s': "inv s'" "view s' = view (cy_store y)"
    and go: "if ?running (hq_RequestID ?q) then client_start api (so_now (ios n)) NoFault False ?q ?running (cy_store y) = (Joined (hq_RequestID ?q), s')
       else \<exists>req. client_start api (so_now (ios n)) NoFault False ?q ?running (cy_store y) = (Begun req, s') \<and> hq_RequestID req = hq_RequestID ?q"
    using start_again [OF Cons.prems(1) assms(2) op(2,1,3,4,5) refl op(6), of ?running "so_now (ios n)"] by blast
  have rest: "resumable (cc_ProxyID cfg) (view s') op'" if "op' \<in> set ops" for op' using Cons.prems(3) [of op'] that s'(2) by simp
  show ?case
  proof (cases "?running (hq_RequestID ?q)")
    case True
    let ?y = "y\<lparr>cy_store := s'\<rparr>"
    have "resume_operations api cfg ios n (op # ops) y = resume_operations api cfg ios (Suc n) ops ?y"
      using go True assms(4,5) by simp
    moreover have "announced ?y" using Cons.prems(2) by (simp add: announced_def)
    ultimately show ?thesis using Cons.IH [of ?y "Suc n"] s'(1) rest True by simp
  next
    case False
    then obtain req where req: "client_start api (so_now (ios n)) NoFault False ?q ?running (cy_store y) = (Begun req, s')" "hq_RequestID req = hq_RequestID ?q"
      using go by auto
    let ?y = "advance (hq_RequestID req) (open_channels (hq_RequestID req) (cy_client y)) (execute_begin cfg req s') y"
    have "resume_operations api cfg ios n (op # ops) y = resume_operations api cfg ios (Suc n) ops ?y"
      using req(1) assms(4,5) by simp
    then show ?thesis using Cons.IH [of ?y "Suc n"] s'(1) rest announced_begin [OF Cons.prems(2) refl, where req = req] req(2) by (simp del: not_None_eq)
  qed
qed simp

end

subsection \<open>The PostgreSQL store\<close>

text \<open>
  What a text column holds is valid UTF-8, and no operation has an empty identifier, since the client
  refuses to start one.
\<close>

definition usable_ids :: "client_db \<Rightarrow> bool" where
  "usable_ids db \<longleftrightarrow> list_all (\<lambda>r. or_request_id r \<noteq> [] \<and> coerce_utf8 (or_request_id r) = or_request_id r) (cd_operations db)"

lemma pg_row_request:
  assumes "pg_inv db" "row_by or_key k (cd_operations db) = Some r" "read_operation r = Inr x"
  shows "wf_http_request (so_Request x)" "hq_ProxyID (so_Request x) = or_proxy_id r" "hq_RequestID (so_Request x) = coerce_utf8 (or_request_id r)"
proof -
  have "op_row_ok r" using assms(1,2) by (auto simp: pg_inv_def intro: list_all_row_by)
  then obtain q y where q: "wf_http_request q" "or_request r = marshal_http_request q" "or_result r = map_option marshal_http_result y"
    "\<And>z. y = Some z \<Longrightarrow> plain_result z" "coerce_utf8 (hq_ProxyID q) = or_proxy_id r" "hq_RequestID q = or_request_id r"
    by (rule op_row_okE) (rule that; assumption)
  have wf: "wf_http_result z" if "y = Some z" for z using q(4) [OF that] by (simp add: plain_result_def)
  have "so_Request x = canon_http_request q" using read_operation_ok [OF q(1-3) wf] assms(3) by simp
  then show "wf_http_request (so_Request x)" "hq_ProxyID (so_Request x) = or_proxy_id r" "hq_RequestID (so_Request x) = coerce_utf8 (or_request_id r)"
    using q(1,5,6) by (auto simp: canon_http_request_def wf_http_request_def)
qed

lemma pg_resumable:
  assumes "pg_inv db" "usable_ids db" and "pg_view db (p, i) = Some x" "so_State x \<noteq> StateComplete"
  shows "pg_client.resumable p (pg_view db) x" "hq_RequestID (so_Request x) = i"
proof -
  obtain r where r: "row_by or_key (p, i) (cd_operations db) = Some r" "read_operation r = Inr x"
    using assms(3) by (auto simp: pg_view_def table_view_def split: option.splits sum.splits)
  have mem: "r \<in> set (cd_operations db)" "or_key r = (p, i)" using r(1) by (auto dest: row_by_Some_mem)
  have "or_proxy_id r = p" "or_request_id r = i" using mem(2) by simp_all
  moreover have "or_request_id r \<noteq> [] \<and> coerce_utf8 (or_request_id r) = or_request_id r"
    using assms(2) mem(1) by (simp add: usable_ids_def list_all_iff)
  ultimately show "pg_client.resumable p (pg_view db) x" "hq_RequestID (so_Request x) = i"
    using pg_row_request [OF assms(1) r] assms(3,4) by (simp_all add: pg_client.resumable_def)
qed

text \<open>
  C33: Nothing that was begun is forgotten. A client process that starts on the store of an earlier one, in
  whatever states that left its operations, has a run for every unfinished operation of its proxy, up to
  the ten thousand that it lists, and publishes its request again; the state it starts in is one in which
  the guarantees of the client hold.
\<close>

theorem restart_resumes_unfinished_operations:
  assumes inv: "pg_inv db" "usable_ids db" "\<forall>k x. pg_view db k = Some x \<longrightarrow> so_State x = StateComplete \<longrightarrow> so_Result x \<noteq> None"
    and cfg: "client_New True True cfg0 = Inr cfg" "plain_id (cc_ProxyID cfg)"
    and ios: "\<forall>n. so_fault (ios n) = NoFault \<and> \<not> so_load_fails (ios n)"
    and few: "rows_affected (pending_row (cc_ProxyID cfg)) (cd_operations db) \<le> 10000"
  shows "\<exists>y. client_open True True (\<lambda>_. True) True pg_api pg_ListPending cfg0 ios db = Inr (cfg, y)
    \<and> reach (client_init pg_inv pg_view) (client_step pg_api cfg lib wl) y
    \<and> (\<forall>i x. pg_view db (cc_ProxyID cfg, i) = Some x \<longrightarrow> so_State x \<noteq> StateComplete \<longrightarrow>
         (\<exists>q d. cy_runs y i = Some (Requesting q d) \<and> hq_RequestID q = i \<and> RequestMsg q \<in> set (cy_sent y)))"
proof -
  let ?boot = "\<lparr>cy_client = no_channels, cy_runs = Map.empty, cy_store = db, cy_sent = [], cy_outcomes = []\<rparr> :: client_db client_sys"
  have "pg_limit 10000 = 10000" by (simp add: pg_limit_def)
  then obtain ops where ops: "pg_ListPending (cc_ProxyID cfg) 10000 db = Inr ops"
    and listed: "\<And>x. x \<in> set ops \<Longrightarrow> so_State x \<noteq> StateComplete \<and> (\<exists>i. pg_view db (cc_ProxyID cfg, i) = Some x)"
    and all: "\<And>i x. pg_view db (cc_ProxyID cfg, i) = Some x \<Longrightarrow> so_State x \<noteq> StateComplete \<Longrightarrow> x \<in> set ops"
    using pg_pending_listed [OF inv(1), of "cc_ProxyID cfg" 10000 0 0] few by auto
  let ?y = "resume_operations pg_api cfg ios 0 ops ?boot"
  have resumable: "pg_client.resumable (cc_ProxyID cfg) (pg_view db) op" if "op \<in> set ops" for op
    using listed [OF that] pg_resumable(1) [OF inv(1,2)] by blast
  then have plain: "\<forall>op \<in> set ops. plain_request cfg (so_Request op)" by (simp add: pg_client.resumable_def plain_request_def)
  have "subscribe_all (\<lambda>_. True) (client_subscriptions cfg) = Inr ()" by (simp add: subscribe_all_ok)
  then have opened: "client_open True True (\<lambda>_. True) True pg_api pg_ListPending cfg0 ios db = Inr (cfg, ?y)"
    using cfg(1) ops by (simp add: client_open_def resumePending_def go_try_def check_def)
  have "client_init pg_inv pg_view ?boot" using inv(1,3) by (simp add: client_init_def)
  then have "reach (client_init pg_inv pg_view) (client_step pg_api cfg lib wl) ?boot" by (rule reach.start)
  then have reached: "reach (client_init pg_inv pg_view) (client_step pg_api cfg lib wl) ?y"
    by (rule reach_steps) (rule resume_operations_steps [OF plain])
  have started: "pg_client.announced ?y \<and> (\<forall>op \<in> set ops. cy_runs ?y (hq_RequestID (so_Request op)) \<noteq> None)"
    using pg_client.resume_all [unfolded client_apis, of ?boot cfg ios ops 0] inv(1) cfg(2) ios resumable by (simp add: pg_client.announced_def)
  have "\<exists>q d. cy_runs ?y i = Some (Requesting q d) \<and> hq_RequestID q = i \<and> RequestMsg q \<in> set (cy_sent ?y)"
    if x: "pg_view db (cc_ProxyID cfg, i) = Some x" "so_State x \<noteq> StateComplete" for i x
    using started all [OF x] pg_resumable(2) [OF inv(1,2) x] by (fastforce simp: pg_client.announced_def)
  then show ?thesis using opened reached by blast
qed

definition sample_restart :: client_config where
  "sample_restart = \<lparr>cc_ClientID = ''shop'', cc_ProxyID = ''p1'', cc_Signer = replicate 64 (CHR ''s''), cc_ProxyPublicKey = [],
     cc_RequireProxySignature = False, cc_RetryInterval = 1000000000, cc_MaxRetryInterval = 30000000000, cc_Retention = 1000, cc_CleanupInterval = 1000,
     cc_CallbackWorkers = 8\<rparr>"

definition calm :: "nat \<Rightarrow> start_io" where
  "calm n = \<lparr>so_now = int n, so_fault = NoFault, so_load_fails = False\<rparr>"

theorem restart_resumes_unfinished_operations_witness:
  "\<exists>y q d. client_open True True (\<lambda>_. True) True pg_api pg_ListPending sample_restart calm (snd (pg_SaveOutgoing 1 sample_stored empty_client_db))
       = Inr (sample_restart, y)
     \<and> cy_runs y ''r1'' = Some (Requesting q d) \<and> RequestMsg q \<in> set (cy_sent y)"
proof -
  let ?db = "snd (pg_SaveOutgoing 1 sample_stored empty_client_db)"
  have wf: "wf_http_request sample_stored" "plain_id (hq_ProxyID sample_stored)" by code_simp+
  have ids: "hq_ProxyID sample_stored = ''p1''" "hq_RequestID sample_stored = ''r1''" by (simp_all add: sample_stored_def)
  have inv: "pg_inv ?db" and view: "pg_view ?db = [(''p1'', ''r1'') \<mapsto> fresh_operation sample_stored]"
    using pg_SaveOutgoing_law [OF empty_stores(1) wf, of 1] empty_stores(2) ids by (auto simp: spec_save_def fun_eq_iff)
  have usable: "usable_ids ?db" and few: "rows_affected (pending_row (cc_ProxyID sample_restart)) (cd_operations ?db) \<le> 10000" by code_simp+
  have done_: "\<forall>k x. pg_view ?db k = Some x \<longrightarrow> so_State x = StateComplete \<longrightarrow> so_Result x \<noteq> None"
    by (auto simp: view fresh_operation_def split: if_splits)
  have cfg: "client_New True True sample_restart = Inr sample_restart" "plain_id (cc_ProxyID sample_restart)" by code_simp+
  have ios: "\<forall>n. so_fault (calm n) = NoFault \<and> \<not> so_load_fails (calm n)" by (simp_all add: calm_def)
  have x: "pg_view ?db (cc_ProxyID sample_restart, ''r1'') = Some (fresh_operation sample_stored)" "so_State (fresh_operation sample_stored) \<noteq> StateComplete"
    by (simp_all add: view sample_restart_def fresh_operation_def)
  obtain y where y: "client_open True True (\<lambda>_. True) True pg_api pg_ListPending sample_restart calm ?db = Inr (sample_restart, y)"
    "\<And>i x. pg_view ?db (cc_ProxyID sample_restart, i) = Some x \<Longrightarrow> so_State x \<noteq> StateComplete \<Longrightarrow>
       \<exists>q d. cy_runs y i = Some (Requesting q d) \<and> hq_RequestID q = i \<and> RequestMsg q \<in> set (cy_sent y)"
    using restart_resumes_unfinished_operations [OF inv usable done_ cfg ios few] by blast
  then show ?thesis using y(2) [OF x] by blast
qed

end
