(* ===== verification/Client_Migration.thy ===== *)
theory Client_Migration
  imports Go_Json Sql_Table
begin

text \<open>
  \<^verbatim>\<open>Migrate\<close> and \<^verbatim>\<open>ensureCompositePrimaryKey\<close> of \<^verbatim>\<open>client/postgres_store.go\<close>: bringing the two tables of the
  client store to the present schema, from nothing or from a table that an older version made. A table is
  what the statements look at: the columns that older versions lack, the primary key, and the rows with
  the document they hold; the other columns of a row (\<open>cr_rest\<close>) are not touched. The statements run in one
  transaction, so an error leaves both tables as they were. \<open>text\<close> is the text that PostgreSQL's \<^verbatim>\<open>->>\<close>
  gives for a member that is neither a string nor null.
\<close>

record 'r client_row =
  cr_proxy :: "string option"
  cr_id :: string
  cr_doc :: json
  cr_rest :: 'r

record 'r client_table =
  ctb_has_proxy_id :: bool
  ctb_proxy_not_null :: bool
  ctb_has_response :: bool
  ctb_key :: "(string \<times> string list) option"
  ctb_rows :: "'r client_row list"

subsection \<open>Statements\<close>

definition create_table :: "string \<Rightarrow> string \<Rightarrow> 'r client_table option \<Rightarrow> 'r client_table" where
  "create_table name idColumn t =
     (case t of
        Some x \<Rightarrow> x
      | None \<Rightarrow> \<lparr>ctb_has_proxy_id = True, ctb_proxy_not_null = True, ctb_has_response = True,
                 ctb_key = Some (name @ ''_pkey'', [''proxy_id'', idColumn]), ctb_rows = []\<rparr>)"

definition add_proxy_id :: "'r client_table \<Rightarrow> 'r client_table" where
  "add_proxy_id t =
     (if ctb_has_proxy_id t then t
      else t\<lparr>ctb_has_proxy_id := True, ctb_proxy_not_null := False, ctb_rows := map (\<lambda>r. r\<lparr>cr_proxy := None\<rparr>) (ctb_rows t)\<rparr>)"

definition add_response :: "'r client_table \<Rightarrow> 'r client_table" where
  "add_response t = t\<lparr>ctb_has_response := True\<rparr>"

text \<open>\<^verbatim>\<open>COALESCE(NULLIF(doc->>'proxy_id',''),'legacy')\<close>\<close>

definition legacy_proxy :: "(json \<Rightarrow> string) \<Rightarrow> json \<Rightarrow> string" where
  "legacy_proxy text doc =
     (case jlookup ''proxy_id'' doc of
        None \<Rightarrow> ''legacy''
      | Some JNull \<Rightarrow> ''legacy''
      | Some (JStr s) \<Rightarrow> if s = [] then ''legacy'' else s
      | Some j \<Rightarrow> if text j = [] then ''legacy'' else text j)"

definition fill_proxy_id :: "(json \<Rightarrow> string) \<Rightarrow> 'r client_table \<Rightarrow> 'r client_table" where
  "fill_proxy_id text t =
     t\<lparr>ctb_rows := update_where (\<lambda>r. cr_proxy r = None) (\<lambda>r. r\<lparr>cr_proxy := Some (legacy_proxy text (cr_doc r))\<rparr>) (ctb_rows t)\<rparr>"

definition set_not_null :: "'r client_table \<Rightarrow> 'r client_table go_result" where
  "set_not_null t =
     (if list_ex (\<lambda>r. cr_proxy r = None) (ctb_rows t) then Inl (ErrConstraint ''proxy_id'')
      else Inr (t\<lparr>ctb_proxy_not_null := True\<rparr>))"

definition row_key :: "'r client_row \<Rightarrow> string option \<times> string" where
  "row_key r = (cr_proxy r, cr_id r)"

definition add_primary_key :: "string \<Rightarrow> string \<Rightarrow> 'r client_table \<Rightarrow> 'r client_table go_result" where
  "add_primary_key name idColumn t =
     (if distinct (map row_key (ctb_rows t)) then Inr (t\<lparr>ctb_key := Some (name @ ''_pkey'', [''proxy_id'', idColumn])\<rparr>)
      else Inl (ErrConstraint (name @ ''_pkey'')))"

subsection \<open>The operations of the program\<close>

definition ensureCompositePrimaryKey :: "string \<Rightarrow> string \<Rightarrow> 'r client_table \<Rightarrow> 'r client_table go_result" where
  "ensureCompositePrimaryKey name idColumn t =
     (case ctb_key t of
        Some (constraint, columns) \<Rightarrow>
          if columns = [''proxy_id'', idColumn] then Inr t
          else add_primary_key name idColumn (t\<lparr>ctb_key := None\<rparr>)
      | None \<Rightarrow> add_primary_key name idColumn t)"

definition migrate_operations :: "(json \<Rightarrow> string) \<Rightarrow> string \<Rightarrow> 'r client_table option \<Rightarrow> 'r client_table go_result" where
  "migrate_operations text name t = set_not_null (fill_proxy_id text (add_proxy_id (create_table name ''request_id'' t)))"

definition migrate_callbacks :: "(json \<Rightarrow> string) \<Rightarrow> string \<Rightarrow> 'r client_table option \<Rightarrow> 'r client_table go_result" where
  "migrate_callbacks text name t =
     set_not_null (fill_proxy_id text (add_response (add_proxy_id (create_table name ''delivery_id'' t))))"

definition pg_Migrate ::
  "(json \<Rightarrow> string) \<Rightarrow> string \<Rightarrow> 'a client_table option \<times> 'b client_table option \<Rightarrow>
   unit go_result \<times> 'a client_table option \<times> 'b client_table option" where
  "pg_Migrate text tables_prefix tables =
     (case go_try (migrate_operations text (tables_prefix @ ''operations'') (fst tables)) (\<lambda>operations.
           go_try (migrate_callbacks text (tables_prefix @ ''callback_events'') (snd tables)) (\<lambda>callbacks.
           go_try (ensureCompositePrimaryKey (tables_prefix @ ''operations'') ''request_id'' operations) (\<lambda>operations'.
           go_try (ensureCompositePrimaryKey (tables_prefix @ ''callback_events'') ''delivery_id'' callbacks) (\<lambda>callbacks'.
           Inr (operations', callbacks'))))) of
        Inl e \<Rightarrow> (Inl e, tables)
      | Inr (operations, callbacks) \<Rightarrow> (Inr (), Some operations, Some callbacks))"

subsection \<open>What a migrated table is\<close>

text \<open>
  A table the database admits: its rows satisfy its primary key and, where \<^verbatim>\<open>proxy_id\<close> may not be null,
  have one.
\<close>

definition key_holds :: "string \<Rightarrow> 'r client_table \<Rightarrow> bool" where
  "key_holds idColumn t \<longleftrightarrow>
     (case ctb_key t of
        None \<Rightarrow> True
      | Some (_, columns) \<Rightarrow>
          (columns = [idColumn] \<longrightarrow> distinct (map cr_id (ctb_rows t)))
          \<and> (columns = [''proxy_id'', idColumn] \<longrightarrow> ctb_has_proxy_id t \<and> ctb_proxy_not_null t \<and> distinct (map row_key (ctb_rows t))))"

definition table_ok :: "string \<Rightarrow> 'r client_table \<Rightarrow> bool" where
  "table_ok idColumn t \<longleftrightarrow> key_holds idColumn t \<and> (ctb_proxy_not_null t \<longrightarrow> ctb_has_proxy_id t \<and> (\<forall>r \<in> set (ctb_rows t). cr_proxy r \<noteq> None))"

text \<open>The schema that the store's statements rely on.\<close>

definition migrated :: "string \<Rightarrow> 'r client_table \<Rightarrow> bool" where
  "migrated idColumn t \<longleftrightarrow> ctb_has_proxy_id t \<and> ctb_proxy_not_null t
     \<and> (\<exists>constraint. ctb_key t = Some (constraint, [''proxy_id'', idColumn]))
     \<and> (\<forall>r \<in> set (ctb_rows t). cr_proxy r \<noteq> None) \<and> distinct (map row_key (ctb_rows t))"

text \<open>What happens to the rows: they stay in place, and those without a proxy get one.\<close>

definition settled_row :: "(json \<Rightarrow> string) \<Rightarrow> bool \<Rightarrow> 'r client_row \<Rightarrow> 'r client_row" where
  "settled_row text has_proxy r =
     r\<lparr>cr_proxy := Some (case (if has_proxy then cr_proxy r else None) of None \<Rightarrow> legacy_proxy text (cr_doc r) | Some p \<Rightarrow> p)\<rparr>"

definition settled_rows :: "(json \<Rightarrow> string) \<Rightarrow> 'r client_table option \<Rightarrow> 'r client_row list" where
  "settled_rows text t = (case t of None \<Rightarrow> [] | Some x \<Rightarrow> map (settled_row text (ctb_has_proxy_id x)) (ctb_rows x))"

definition settled :: "(json \<Rightarrow> string) \<Rightarrow> string \<Rightarrow> string \<Rightarrow> 'r client_table option \<Rightarrow> 'r client_table" where
  "settled text name idColumn t =
     (create_table name idColumn t)\<lparr>ctb_has_proxy_id := True, ctb_proxy_not_null := True, ctb_rows := settled_rows text t\<rparr>"

lemma settled_row_filled:
  "(if cr_proxy r = None then r\<lparr>cr_proxy := Some (legacy_proxy text (cr_doc r))\<rparr> else r) = settled_row text True r"
  by (cases "cr_proxy r"; cases r) (simp_all add: settled_row_def)

lemma settled_row_simps [simp]: "cr_id (settled_row text b r) = cr_id r" "cr_proxy (settled_row text b r) \<noteq> None"
  by (simp_all add: settled_row_def)

lemma settled_rows_None [simp]: "settled_rows text None = []"
  by (simp add: settled_rows_def)

lemma settled_rows_proxy: "r \<in> set (settled_rows text t) \<Longrightarrow> cr_proxy r \<noteq> None"
  by (auto simp: settled_rows_def settled_row_def split: option.splits)

lemma fill_added:
  "fill_proxy_id text (add_proxy_id t) =
     t\<lparr>ctb_has_proxy_id := True, ctb_proxy_not_null := ctb_has_proxy_id t \<and> ctb_proxy_not_null t, ctb_rows := settled_rows text (Some t)\<rparr>"
proof (cases "ctb_has_proxy_id t")
  case True
  then show ?thesis by (cases t) (simp add: fill_proxy_id_def add_proxy_id_def settled_rows_def update_where_def settled_row_filled)
next
  case False
  have "update_where (\<lambda>r. cr_proxy r = None) (\<lambda>r. r\<lparr>cr_proxy := Some (legacy_proxy text (cr_doc r))\<rparr>) (map (\<lambda>r. r\<lparr>cr_proxy := None\<rparr>) rs)
      = map (settled_row text False) rs" for rs :: "'a client_row list"
    by (simp add: update_where_def settled_row_def)
  then show ?thesis using False by (simp add: fill_proxy_id_def add_proxy_id_def settled_rows_def)
qed

lemma settled_rows_created: "settled_rows text (Some (create_table name idColumn t)) = settled_rows text t"
  by (cases t) (simp_all add: create_table_def settled_rows_def)

lemma migrate_operations_settles: "migrate_operations text name t = Inr (settled text name ''request_id'' t)"
  unfolding migrate_operations_def fill_added settled_rows_created
  by (auto simp: set_not_null_def settled_def list_ex_iff dest: settled_rows_proxy)

lemma migrate_callbacks_settles: "migrate_callbacks text name t = Inr (add_response (settled text name ''delivery_id'' t))"
proof -
  have comm: "fill_proxy_id text (add_response x) = add_response (fill_proxy_id text x)" for x :: "'a client_table"
    by (simp add: fill_proxy_id_def add_response_def)
  show ?thesis unfolding migrate_callbacks_def comm fill_added settled_rows_created
    by (auto simp: set_not_null_def settled_def list_ex_iff add_response_def dest: settled_rows_proxy)
qed

lemma settled_rows_unchanged: "table_ok idColumn t \<Longrightarrow> ctb_proxy_not_null t \<Longrightarrow> settled_rows text (Some t) = ctb_rows t"
  by (auto simp: table_ok_def settled_rows_def settled_row_def intro!: map_idI split: option.splits)

text \<open>A table with a key on the identifier, as older versions made it, can always be brought to the new key.\<close>

lemma settled_rows_distinct:
  assumes "table_ok idColumn t" and "ctb_key t = Some (constraint, columns)" and "columns = [idColumn] \<or> columns = [''proxy_id'', idColumn]"
  shows "distinct (map row_key (settled_rows text (Some t)))"
  using assms(3)
proof
  assume "columns = [idColumn]"
  then have "distinct (map cr_id (ctb_rows t))" using assms(1,2) by (simp add: table_ok_def key_holds_def)
  then have "distinct (map (snd \<circ> row_key) (settled_rows text (Some t)))"
    by (simp add: settled_rows_def comp_def row_key_def)
  then show ?thesis by (simp add: distinct_map inj_on_def flip: map_map)
next
  assume "columns = [''proxy_id'', idColumn]"
  then have "ctb_proxy_not_null t" "distinct (map row_key (ctb_rows t))" using assms(1,2) by (auto simp: table_ok_def key_holds_def)
  then show ?thesis using settled_rows_unchanged [OF assms(1)] by simp
qed

lemma ensureCompositePrimaryKey_settled:
  assumes "\<And>x. t = Some x \<Longrightarrow> table_ok idColumn x" and "x = settled text name idColumn t \<or> x = add_response (settled text name idColumn t)"
  shows "if distinct (map row_key (settled_rows text t))
    then \<exists>k. ensureCompositePrimaryKey name idColumn x = Inr (x\<lparr>ctb_key := Some (k, [''proxy_id'', idColumn])\<rparr>)
    else \<exists>e. ensureCompositePrimaryKey name idColumn x = Inl e"
proof -
  have rows: "ctb_rows x = settled_rows text t" using assms(2) by (auto simp: settled_def add_response_def)
  show ?thesis
  proof (cases "ctb_key x")
    case None
    then show ?thesis using rows by (auto simp: ensureCompositePrimaryKey_def add_primary_key_def)
  next
    case (Some kc)
    obtain k columns where kc: "kc = (k, columns)" by (cases kc)
    show ?thesis
    proof (cases "columns = [''proxy_id'', idColumn]")
      case True
      have "distinct (map row_key (settled_rows text t))"
      proof (cases t)
        case (Some t0)
        have "ctb_key t0 = Some (k, columns)" using assms(2) Some \<open>ctb_key x = Some kc\<close> kc by (auto simp: settled_def add_response_def create_table_def)
        then show ?thesis unfolding Some using settled_rows_distinct [OF assms(1) [OF Some]] True by blast
      qed (simp add: settled_rows_def)
      moreover have "ensureCompositePrimaryKey name idColumn x = Inr x" using Some kc True by (simp add: ensureCompositePrimaryKey_def)
      moreover have "\<exists>k. x = x\<lparr>ctb_key := Some (k, [''proxy_id'', idColumn])\<rparr>" using Some kc True by (intro exI [of _ k]) (cases x, simp)
      ultimately show ?thesis by simp
    next
      case False
      then show ?thesis using Some kc rows by (auto simp: ensureCompositePrimaryKey_def add_primary_key_def)
    qed
  qed
qed

lemma migrated_settled:
  assumes "distinct (map row_key (settled_rows text t))" and "x = settled text name idColumn t \<or> x = add_response (settled text name idColumn t)"
  shows "migrated idColumn (x\<lparr>ctb_key := Some (k, [''proxy_id'', idColumn])\<rparr>)"
    and "ctb_rows (x\<lparr>ctb_key := Some (k, [''proxy_id'', idColumn])\<rparr>) = settled_rows text t"
  using assms by (auto simp: migrated_def settled_def add_response_def dest: settled_rows_proxy)

text \<open>A migrated table is left as it is.\<close>

lemma migrated_again:
  assumes "migrated idColumn t"
  shows "settled text name idColumn (Some t) = t" and "ensureCompositePrimaryKey name idColumn t = Inr t"
proof -
  have "settled_rows text (Some t) = ctb_rows t"
    using assms by (auto simp: migrated_def settled_rows_def settled_row_def intro!: map_idI split: option.splits)
  then show "settled text name idColumn (Some t) = t" using assms by (cases t) (simp add: migrated_def settled_def create_table_def)
  show "ensureCompositePrimaryKey name idColumn t = Inr t" using assms by (auto simp: migrated_def ensureCompositePrimaryKey_def)
qed

lemmas migrate_simps = pg_Migrate_def migrate_operations_settles migrate_callbacks_settles go_try_def

lemma pg_Migrate_again:
  assumes "migrated ''request_id'' t" "migrated ''delivery_id'' u" "ctb_has_response u"
  shows "pg_Migrate text tables_prefix (Some t, Some u) = (Inr (), Some t, Some u)"
proof -
  have "add_response u = u" using assms(3) by (cases u) (simp add: add_response_def)
  then show ?thesis using assms(1,2)
    by (simp add: migrate_simps migrated_again)
qed

text \<open>
  C38: Migrating the client store either fails and changes nothing, which it does only when two rows would
  have the same proxy and identifier, or gives both tables the schema that the statements of the store
  rely on: every row has a proxy, and proxy and identifier are the key. No row is lost, moved or changed
  but for the proxy of a row that had none, and migrating again changes nothing.
\<close>

theorem migrated_store_has_its_schema:
  assumes "\<And>t. operations = Some t \<Longrightarrow> table_ok ''request_id'' t" and "\<And>t. callbacks = Some t \<Longrightarrow> table_ok ''delivery_id'' t"
  shows "case pg_Migrate text tables_prefix (operations, callbacks) of
      (Inl _, tables) \<Rightarrow> tables = (operations, callbacks)
        \<and> \<not> (distinct (map row_key (settled_rows text operations)) \<and> distinct (map row_key (settled_rows text callbacks)))
    | (Inr _, tables) \<Rightarrow> \<exists>t u. tables = (Some t, Some u) \<and> migrated ''request_id'' t \<and> migrated ''delivery_id'' u \<and> ctb_has_response u
        \<and> ctb_rows t = settled_rows text operations \<and> ctb_rows u = settled_rows text callbacks
        \<and> pg_Migrate text tables_prefix tables = (Inr (), tables)"
proof -
  let ?t = "settled text (tables_prefix @ ''operations'') ''request_id'' operations"
    and ?u = "add_response (settled text (tables_prefix @ ''callback_events'') ''delivery_id'' callbacks)"
  note key_t = ensureCompositePrimaryKey_settled [where t = operations and x = ?t, OF assms(1) disjI1 [OF refl]]
  note key_u = ensureCompositePrimaryKey_settled [where t = callbacks and x = ?u, OF assms(2) disjI2 [OF refl]]
  show ?thesis
  proof (cases "distinct (map row_key (settled_rows text operations)) \<and> distinct (map row_key (settled_rows text callbacks))")
    case True
    obtain k where k: "ensureCompositePrimaryKey (tables_prefix @ ''operations'') ''request_id'' ?t = Inr (?t\<lparr>ctb_key := Some (k, [''proxy_id'', ''request_id''])\<rparr>)"
      using key_t True by auto
    obtain l where l: "ensureCompositePrimaryKey (tables_prefix @ ''callback_events'') ''delivery_id'' ?u = Inr (?u\<lparr>ctb_key := Some (l, [''proxy_id'', ''delivery_id''])\<rparr>)"
      using key_u True by auto
    let ?t' = "?t\<lparr>ctb_key := Some (k, [''proxy_id'', ''request_id''])\<rparr>" and ?u' = "?u\<lparr>ctb_key := Some (l, [''proxy_id'', ''delivery_id''])\<rparr>"
    have run: "pg_Migrate text tables_prefix (operations, callbacks) = (Inr (), Some ?t', Some ?u')"
      by (simp add: migrate_simps k l)
    have t: "migrated ''request_id'' ?t'" "ctb_rows ?t' = settled_rows text operations"
      by (rule migrated_settled [OF conjunct1 [OF True] disjI1 [OF refl]])+
    have u: "migrated ''delivery_id'' ?u'" "ctb_rows ?u' = settled_rows text callbacks"
      by (rule migrated_settled [OF conjunct2 [OF True] disjI2 [OF refl]])+
    have response: "ctb_has_response ?u'" by (simp add: add_response_def)
    have again: "pg_Migrate text tables_prefix (Some ?t', Some ?u') = (Inr (), Some ?t', Some ?u')"
      by (rule pg_Migrate_again [OF t(1) u(1) response])
    show ?thesis unfolding run prod.case sum.case
      by (rule exI [of _ ?t'], rule exI [of _ ?u'], rule conjI [OF refl conjI [OF t(1) conjI [OF u(1) conjI [OF response conjI [OF t(2) conjI [OF u(2) again]]]]]])
  next
    case False
    have "\<exists>e. pg_Migrate text tables_prefix (operations, callbacks) = (Inl e, operations, callbacks)"
    proof (cases "distinct (map row_key (settled_rows text operations))")
      case True
      then have "\<exists>x. ensureCompositePrimaryKey (tables_prefix @ ''operations'') ''request_id'' ?t = Inr x"
        using key_t by auto
      moreover have "\<exists>e. ensureCompositePrimaryKey (tables_prefix @ ''callback_events'') ''delivery_id'' ?u = Inl e"
        using key_u True False by auto
      ultimately show ?thesis by (auto simp: migrate_simps)
    next
      case False
      then have "\<exists>e. ensureCompositePrimaryKey (tables_prefix @ ''operations'') ''request_id'' ?t = Inl e"
        using key_t by auto
      then show ?thesis by (auto simp: migrate_simps)
    qed
    then show ?thesis using False by auto
  qed
qed

text \<open>A table of a version that knew one proxy only: no column \<^verbatim>\<open>proxy_id\<close> and the identifier as key.\<close>

definition old_table :: "string client_table" where
  "old_table = \<lparr>ctb_has_proxy_id = False, ctb_proxy_not_null = False, ctb_has_response = True, ctb_key = Some (''old_pkey'', [''request_id'']),
     ctb_rows = [\<lparr>cr_proxy = None, cr_id = ''r1'', cr_doc = JObj [(''proxy_id'', JStr ''p1'')], cr_rest = ''outgoing''\<rparr>,
                 \<lparr>cr_proxy = None, cr_id = ''r2'', cr_doc = JObj [], cr_rest = ''complete''\<rparr>]\<rparr>"

theorem migrated_store_has_its_schema_witness:
  "\<exists>t u. pg_Migrate (\<lambda>_. []) ''app_'' (Some old_table, None :: string client_table option) = (Inr (), Some t, Some u)
     \<and> map row_key (ctb_rows t) = [(Some ''p1'', ''r1''), (Some ''legacy'', ''r2'')] \<and> migrated ''delivery_id'' u"
proof -
  have ok: "table_ok ''request_id'' t" if "Some old_table = Some t" for t
    using that [symmetric] by (simp add: table_ok_def key_holds_def old_table_def)
  have none: "table_ok ''delivery_id'' t" if "(None :: string client_table option) = Some t" for t using that by simp
  have rows: "map row_key (settled_rows (\<lambda>_. []) (Some old_table)) = [(Some ''p1'', ''r1''), (Some ''legacy'', ''r2'')]" by code_simp
  obtain r tables where run: "pg_Migrate (\<lambda>_. []) ''app_'' (Some old_table, None :: string client_table option) = (r, tables)"
    by (cases "pg_Migrate (\<lambda>_. []) ''app_'' (Some old_table, None :: string client_table option)")
  show ?thesis using migrated_store_has_its_schema [of "Some old_table" "None :: string client_table option" "\<lambda>_. []" "''app_''", OF ok none] rows run
    by (cases r) auto
qed

end
