(* ===== verification/App_Http.thy ===== *)
theory App_Http
  imports Transport_Callback Http_Executor
begin

text \<open>
  \<^verbatim>\<open>internal/app/app.go\<close>: the public HTTP endpoint of callbacks. The handler is cut at its call of
  \<^verbatim>\<open>DeliverWebhook\<close> (\<open>deliver_start\<close> and what follows it in \<open>Transport_Callback\<close>): \<open>webhook_begin\<close> turns a
  request into an event or an error response, \<open>webhook_end\<close> turns the outcome into a response.
\<close>

record public_request =
  pr_id :: string
  pr_token :: string
  pr_Method :: string
  pr_RequestURI :: string
  pr_Host :: string
  pr_Header :: http_header
  pr_Body :: bytes
  pr_broken :: bool

text \<open>The status is the argument of \<^verbatim>\<open>WriteHeader\<close>, the header the one that is set when it is called.\<close>

record http_reply =
  re_Status :: int
  re_Header :: http_header
  re_Body :: bytes

text \<open>\<^verbatim>\<open>http.Error\<close> and \<^verbatim>\<open>http.NotFound\<close>\<close>

definition http_Error :: "string \<Rightarrow> int \<Rightarrow> http_reply" where
  "http_Error text status =
     \<lparr>re_Status = status, re_Header = [(''Content-Type'', [''text/plain; charset=utf-8'']), (''X-Content-Type-Options'', [''nosniff''])],
      re_Body = text @ newline\<rparr>"

definition http_NotFound :: http_reply where
  "http_NotFound = http_Error ''404 page not found'' 404"

definition tokenOK :: "hash_lib \<Rightarrow> string \<Rightarrow> bytes \<Rightarrow> bool" where
  "tokenOK h token want \<longleftrightarrow> length want = length (hs_sha256 h token) \<and> hs_sha256 h token = want"

definition hopByHop :: "string \<Rightarrow> bool" where
  "hopByHop v \<longleftrightarrow> ToLower v \<in> set [''connection'', ''proxy-connection'', ''keep-alive'', ''transfer-encoding'', ''upgrade'', ''te'', ''trailer'']"

definition app_headers :: "http_header \<Rightarrow> header_field list" where
  "app_headers h = concat (map (\<lambda>k. map (\<lambda>v. \<lparr>hf_Name = k, hf_Value = v\<rparr>) (header_values h k)) (sort (map fst h)))"

definition writeResponse :: "int \<Rightarrow> header_field list \<Rightarrow> bytes \<Rightarrow> http_reply" where
  "writeResponse status hs body =
     \<lparr>re_Status = (if status < 100 \<or> 599 < status then 200 else status),
      re_Header = fold (\<lambda>f h. if \<not> hopByHop (hf_Name f) then header_add (hf_Name f) (hf_Value f) h else h) hs [],
      re_Body = body\<rparr>"

text \<open>
  \<^verbatim>\<open>io.ReadAll(io.LimitReader(r.Body, limit+1))\<close> under \<^verbatim>\<open>http.MaxBytesHandler\<close>: an error if the body breaks off,
  or if more than \<open>maxBody\<close> bytes are asked for and present.
\<close>

definition read_body :: "int \<Rightarrow> int \<Rightarrow> public_request \<Rightarrow> bytes option" where
  "read_body maxBody limit q =
     (let n = nat (wrap64 (limit + 1)); got = take n (pr_Body q)
      in if pr_broken q \<and> length (pr_Body q) < n \<or> maxBody < int (length got) then None else Some got)"

definition webhook_begin ::
  "hash_lib \<Rightarrow> int \<Rightarrow> bool \<Rightarrow> bytes \<Rightarrow> go_time \<Rightarrow> public_request \<Rightarrow> proxy_db \<Rightarrow> http_reply + webhook_event \<times> webhook_route" where
  "webhook_begin h maxBody db_fails entropy clock q db =
     (case (if db_fails then Inl ErrUnavailable else GetWebhookRoute (pr_id q) db) of
        Inl _ \<Rightarrow> Inl http_NotFound
      | Inr route \<Rightarrow>
          if \<not> ro_Enabled route \<or> \<not> tokenOK h (pr_token q) (ro_TokenHash route) then Inl http_NotFound
          else
            let limit = (if ro_MaxBodyBytes route \<le> 0 \<or> maxBody < ro_MaxBodyBytes route then maxBody else ro_MaxBodyBytes route)
            in case read_body maxBody limit q of
                 None \<Rightarrow> Inl (http_Error ''body too large'' 413)
               | Some body \<Rightarrow>
                   if limit < int (length body) then Inl (http_Error ''body too large'' 413)
                   else
                     let hs = (if pr_Host q \<noteq> [] then put ''Host'' [pr_Host q] (pr_Header q) else pr_Header q)
                     in Inr (zero_webhook_event\<lparr>ev_EventID := ''event_'' @ randomID entropy, ev_WebhookID := ro_ID route, ev_Method := pr_Method q,
                              ev_RequestURI := pr_RequestURI q, ev_Headers := app_headers hs, ev_Body := body, ev_ReceivedAt := clock\<rparr>, route))"

definition webhook_end :: "webhook_route \<Rightarrow> webhook_response go_result \<Rightarrow> http_reply" where
  "webhook_end route outcome =
     (case outcome of
        Inl _ \<Rightarrow> http_Error ''upstream handler unavailable'' 504
      | Inr response \<Rightarrow>
          if ro_Mode route = ''static''
          then writeResponse (sr_StatusCode (ro_StaticResponse route)) (sr_Headers (ro_StaticResponse route)) (sr_Body (ro_StaticResponse route))
          else writeResponse (wp_StatusCode response) (wp_Headers response) (wp_Body response))"

definition readiness :: "bool \<Rightarrow> bool \<Rightarrow> bool \<Rightarrow> http_reply" where
  "readiness is_ready transport_ready ping_ok =
     (if \<not> is_ready \<or> \<not> transport_ready \<or> \<not> ping_ok then http_Error ''not ready'' 503
      else \<lparr>re_Status = 204, re_Header = [], re_Body = []\<rparr>)"

subsection \<open>Lemmas\<close>

lemma header_add_keys: "fst ` set (header_add k v h) = insert (CanonicalMIMEHeaderKey k) (fst ` set h)"
proof -
  have "fst ` set (put k' v' h) = insert k' (fst ` set h)" for k' and v' :: "string list"
    by (simp add: dom_map_of_conv_image_fst [symmetric] map_of_put)
  then show ?thesis by (simp add: header_add_def)
qed

lemma to_lower_upper: "to_lower_char (to_upper_char c) = to_lower_char c"
proof -
  have "(of_char (char_of (n - 32) :: char) :: nat) = n - 32" if "97 \<le> n" "n \<le> 122" for n :: nat
    using that by simp
  then show ?thesis by (auto simp: to_lower_char_def to_upper_char_def Let_def)
qed

lemma ToLower_canonical: "ToLower (CanonicalMIMEHeaderKey k) = ToLower k"
proof -
  have "ToLower (canonical_bytes u s) = ToLower s" for u s
    by (induction s arbitrary: u) (simp_all add: ToLower_def to_lower_upper)
  then show ?thesis by (simp add: CanonicalMIMEHeaderKey_def)
qed

lemma hopByHop_canonical: "hopByHop (CanonicalMIMEHeaderKey k) = hopByHop k"
  by (simp only: hopByHop_def ToLower_canonical)

text \<open>A response to the public caller has a status from 100 to 599 and no header of the connection itself.\<close>

lemma writeResponse_clean:
  "100 \<le> re_Status (writeResponse st hs body) \<and> re_Status (writeResponse st hs body) \<le> 599
   \<and> (\<forall>k \<in> fst ` set (re_Header (writeResponse st hs body)). \<not> hopByHop k) \<and> re_Body (writeResponse st hs body) = body"
proof -
  let ?add = "\<lambda>f h. if \<not> hopByHop (hf_Name f) then header_add (hf_Name f) (hf_Value f) h else h"
  have step: "\<forall>k \<in> fst ` set (?add f h). \<not> hopByHop k" if "\<forall>k \<in> fst ` set h. \<not> hopByHop k" for f h
  proof
    fix k
    assume k: "k \<in> fst ` set (?add f h)"
    show "\<not> hopByHop k"
    proof (cases "hopByHop (hf_Name f)")
      case False
      then have "k \<in> insert (CanonicalMIMEHeaderKey (hf_Name f)) (fst ` set h)" using k by (simp only: if_True not_False_eq_True header_add_keys)
      then show ?thesis using False that hopByHop_canonical by blast
    next
      case True
      then have "k \<in> fst ` set h" using k by (simp only: not_True_eq_False if_False)
      then show ?thesis using that by blast
    qed
  qed
  have "\<forall>k \<in> fst ` set (fold ?add hs h0). \<not> hopByHop k" if "\<forall>k \<in> fst ` set h0. \<not> hopByHop k" for h0
    using that
  proof (induction hs arbitrary: h0)
    case (Cons f hs)
    show ?case unfolding fold_Cons comp_apply by (rule Cons.IH [OF step [OF Cons.prems]])
  qed (simp only: fold_Nil id_apply)
  from this [of "[]"] have "\<forall>k \<in> fst ` set (fold ?add hs []). \<not> hopByHop k" by (simp only: list.set image_empty ball_empty simp_thms True_implies_equals)
  then show ?thesis unfolding writeResponse_def by (simp del: image_iff)
qed

text \<open>Which requests may reach the handler, and how many bytes of body they may bring.\<close>

definition authorised :: "hash_lib \<Rightarrow> public_request \<Rightarrow> proxy_db \<Rightarrow> bool" where
  "authorised h q db \<longleftrightarrow> (case GetWebhookRoute (pr_id q) db of Inl _ \<Rightarrow> False | Inr r \<Rightarrow> ro_Enabled r \<and> hs_sha256 h (pr_token q) = ro_TokenHash r)"

definition body_limit :: "int \<Rightarrow> webhook_route \<Rightarrow> int" where
  "body_limit maxBody r = (if ro_MaxBodyBytes r \<le> 0 \<or> maxBody < ro_MaxBodyBytes r then maxBody else ro_MaxBodyBytes r)"

lemma body_limit_bounds: "0 < maxBody \<Longrightarrow> 0 < body_limit maxBody r \<and> body_limit maxBody r \<le> maxBody"
  by (simp add: body_limit_def)

lemma read_body_within:
  assumes "0 \<le> limit" "limit < 2 ^ 63 - 1" "read_body maxBody limit q = Some b" "int (length b) \<le> limit"
  shows "b = pr_Body q"
proof -
  have w: "wrap64 (limit + 1) = limit + 1" using assms(1,2) by (intro wrap64_id) (simp add: in_int64_def)
  have b: "b = take (nat (limit + 1)) (pr_Body q)" using assms(3) by (auto simp: read_body_def w Let_def split: if_splits)
  then have "length b = min (length (pr_Body q)) (nat (limit + 1))" by simp
  then have "length (pr_Body q) \<le> nat (limit + 1)" using assms(1,4) by linarith
  then show ?thesis using b by simp
qed

lemma read_body_complete:
  assumes "0 \<le> limit" "limit \<le> maxBody" "limit < 2 ^ 63 - 1" "\<not> pr_broken q" "int (length (pr_Body q)) \<le> limit"
  shows "read_body maxBody limit q = Some (pr_Body q)"
proof -
  have w: "wrap64 (limit + 1) = limit + 1" using assms(1,3) by (intro wrap64_id) (simp add: in_int64_def)
  have "length (pr_Body q) \<le> nat (limit + 1)" using assms(5) by linarith
  then show ?thesis using assms by (simp add: read_body_def w Let_def)
qed

lemma webhook_begin_unfold:
  "webhook_begin h maxBody False entropy clock q db =
     (if \<not> authorised h q db then Inl http_NotFound
      else
        case GetWebhookRoute (pr_id q) db of
          Inl _ \<Rightarrow> Inl http_NotFound
        | Inr route \<Rightarrow>
            case read_body maxBody (body_limit maxBody route) q of
              None \<Rightarrow> Inl (http_Error ''body too large'' 413)
            | Some body \<Rightarrow>
                if body_limit maxBody route < int (length body) then Inl (http_Error ''body too large'' 413)
                else
                  let hs = (if pr_Host q \<noteq> [] then put ''Host'' [pr_Host q] (pr_Header q) else pr_Header q)
                  in Inr (zero_webhook_event\<lparr>ev_EventID := ''event_'' @ randomID entropy, ev_WebhookID := ro_ID route, ev_Method := pr_Method q,
                           ev_RequestURI := pr_RequestURI q, ev_Headers := app_headers hs, ev_Body := body, ev_ReceivedAt := clock\<rparr>, route))"
  unfolding webhook_begin_def body_limit_def [symmetric] Let_def by (auto simp: authorised_def tokenOK_def split: sum.split)

end
