(* ===== verification/Proxy_Migrations.thy ===== *)
theory Proxy_Migrations
  imports Worker_Pool
begin

text \<open>
  \<^verbatim>\<open>Migrate\<close> of \<^verbatim>\<open>internal/repository/postgres.go\<close>: the SQL files of the directory \<^verbatim>\<open>migrations\<close> are applied
  in the order of their names, each in a transaction that also records its version. What a file does to
  the schema is a parameter (\<open>run\<close>); every transaction can fail before or after it took effect.
\<close>

record migration_entry =
  me_Name :: string
  me_IsDir :: bool
  me_SQL :: string

record 's schema_db =
  sd_Versions :: "int list"
  sd_Schema :: 's

definition HasSuffix :: "string \<Rightarrow> string \<Rightarrow> bool" where
  "HasSuffix s ending \<longleftrightarrow> length ending \<le> length s \<and> drop (length s - length ending) s = ending"

definition is_up_file :: "migration_entry \<Rightarrow> bool" where
  "is_up_file e \<longleftrightarrow> \<not> (me_IsDir e \<or> \<not> HasSuffix (me_Name e) ''.up.sql'')"

definition version_of :: "migration_entry \<Rightarrow> int option" where
  "version_of e = ParseInt (hd (SplitN2 (me_Name e) (CHR ''_'')))"

text \<open>The transaction of one file; \<open>version\<close> is the primary key of the table of versions.\<close>

definition apply_migration ::
  "(string \<Rightarrow> 's \<Rightarrow> unit go_result \<times> 's) \<Rightarrow> migration_entry \<Rightarrow> int \<Rightarrow> 's schema_db \<Rightarrow> unit go_result \<times> 's schema_db" where
  "apply_migration run e version db =
     (case run (me_SQL e) (sd_Schema db) of
        (Inl err, _) \<Rightarrow> (Inl err, db)
      | (Inr _, schema) \<Rightarrow>
          if version \<in> set (sd_Versions db) then (Inl (ErrConstraint ''proxy_schema_migrations_pkey''), db)
          else (Inr (), db\<lparr>sd_Versions := sd_Versions db @ [version], sd_Schema := schema\<rparr>))"

fun migrate_entries ::
  "(string \<Rightarrow> 's \<Rightarrow> unit go_result \<times> 's) \<Rightarrow> (string \<Rightarrow> fault) \<Rightarrow> migration_entry list \<Rightarrow> 's schema_db \<Rightarrow> unit go_result \<times> 's schema_db" where
  "migrate_entries run flt [] db = (Inr (), db)"
| "migrate_entries run flt (e # es) db =
     (if \<not> is_up_file e then migrate_entries run flt es db
      else case version_of e of
             None \<Rightarrow> (Inl (ErrText ''strconv.ParseInt: parsing version''), db)
           | Some version \<Rightarrow>
               if version \<in> set (sd_Versions db) then migrate_entries run flt es db
               else (case db_call (flt (me_Name e)) (apply_migration run e version) db of
                       (Inl err, db') \<Rightarrow> (Inl (ErrText (''migration '' @ me_Name e @ '': '' @ error_text err)), db')
                     | (Inr _, db') \<Rightarrow> migrate_entries run flt es db'))"

definition Migrate ::
  "(string \<Rightarrow> 's \<Rightarrow> unit go_result \<times> 's) \<Rightarrow> (string \<Rightarrow> fault) \<Rightarrow> migration_entry list \<Rightarrow> 's schema_db \<Rightarrow> unit go_result \<times> 's schema_db" where
  "Migrate run flt entries db = migrate_entries run flt (sort_key me_Name entries) db"

subsection \<open>What is pending, and what applying it means\<close>

text \<open>The files that are still to be applied, up to the first one whose name has no version.\<close>

fun pending :: "int set \<Rightarrow> migration_entry list \<Rightarrow> (int \<times> migration_entry) list" where
  "pending seen [] = []"
| "pending seen (e # es) =
     (if \<not> is_up_file e then pending seen es
      else case version_of e of
             None \<Rightarrow> []
           | Some v \<Rightarrow> if v \<in> seen then pending seen es else (v, e) # pending (insert v seen) es)"

fun applied :: "(string \<Rightarrow> 's \<Rightarrow> unit go_result \<times> 's) \<Rightarrow> (int \<times> migration_entry) list \<Rightarrow> 's schema_db \<Rightarrow> 's schema_db" where
  "applied run [] db = db"
| "applied run ((v, e) # ps) db =
     applied run ps (db\<lparr>sd_Versions := sd_Versions db @ [v], sd_Schema := snd (run (me_SQL e) (sd_Schema db))\<rparr>)"

lemma applied_append: "applied run (ps @ qs) db = applied run qs (applied run ps db)"
  by (induction run ps db rule: applied.induct) simp_all

lemma versions_applied: "sd_Versions (applied run ps db) = sd_Versions db @ map fst ps"
  by (induction run ps db rule: applied.induct) simp_all

lemma apply_migration_ok:
  "apply_migration run e v db = (Inr u, db') \<Longrightarrow> db' = applied run [(v, e)] db"
  by (auto simp: apply_migration_def split: sum.splits prod.splits if_splits)

lemma apply_migration_error: "apply_migration run e v db = (Inl err, db') \<Longrightarrow> db' = db"
  by (auto simp: apply_migration_def split: sum.splits prod.splits if_splits)

text \<open>A transaction that reports an error has taken effect or has not; one that reports success has.\<close>

lemma migration_call:
  assumes "db_call f (apply_migration run e v) db = (r, db')"
  shows "(is_ok r \<and> db' = applied run [(v, e)] db) \<or> (\<not> is_ok r \<and> (db' = db \<or> db' = applied run [(v, e)] db))"
proof -
  obtain a d where ad: "apply_migration run e v db = (a, d)" by (cases "apply_migration run e v db")
  have "(is_ok a \<and> d = applied run [(v, e)] db) \<or> (\<not> is_ok a \<and> d = db)"
    using apply_migration_ok [of run e v db] apply_migration_error [of run e v db] ad by (cases a) (auto simp: is_ok_def)
  then show ?thesis using assms ad by (auto simp: db_call_def is_ok_def split: fault.splits)
qed

lemma migrate_entries_prefix:
  "\<exists>n. snd (migrate_entries run flt es db) = applied run (take n (pending (set (sd_Versions db)) es)) db
     \<and> (is_ok (fst (migrate_entries run flt es db)) \<longrightarrow> length (pending (set (sd_Versions db)) es) \<le> n \<and> (\<forall>e \<in> set es. is_up_file e \<longrightarrow> version_of e \<noteq> None))"
proof (induction run flt es db rule: migrate_entries.induct)
  case (2 run flt e es db)
  show ?case
  proof (cases "is_up_file e")
    case True
    show ?thesis
    proof (cases "version_of e")
      case (Some v)
      show ?thesis
      proof (cases "v \<in> set (sd_Versions db)")
        case False
        let ?db1 = "applied run [(v, e)] db"
        obtain r db' where call: "db_call (flt (me_Name e)) (apply_migration run e v) db = (r, db')"
          by (cases "db_call (flt (me_Name e)) (apply_migration run e v) db")
        show ?thesis
        proof (cases r)
          case (Inr u)
          then have db': "db' = ?db1" using migration_call [OF call] by (simp add: is_ok_def)
          from "2.IH"(3) [OF _ Some False call [symmetric] Inr] True
          obtain n where n: "snd (migrate_entries run flt es db') = applied run (take n (pending (set (sd_Versions db')) es)) db'"
            "is_ok (fst (migrate_entries run flt es db')) \<longrightarrow> length (pending (set (sd_Versions db')) es) \<le> n \<and> (\<forall>e \<in> set es. is_up_file e \<longrightarrow> version_of e \<noteq> None)" by auto
          have seen: "set (sd_Versions db') = insert v (set (sd_Versions db))" by (simp add: db')
          show ?thesis using True Some False call Inr n by (intro exI [of _ "Suc n"]) (simp add: seen, simp add: db')
        next
          case (Inl err)
          then have "db' = db \<or> db' = ?db1" using migration_call [OF call] by (simp add: is_ok_def)
          then show ?thesis
          proof
            assume "db' = db"
            then show ?thesis using True Some False call Inl by (intro exI [of _ 0]) (simp add: is_ok_def)
          next
            assume "db' = ?db1"
            then show ?thesis using True Some False call Inl by (intro exI [of _ 1]) (simp add: is_ok_def)
          qed
        qed
      qed (use 2 True Some in auto)
    qed (use True in \<open>auto simp: is_ok_def\<close>)
  qed (use 2 in auto)
qed simp

lemma pending_nothing:
  assumes "\<forall>e \<in> set es. is_up_file e \<longrightarrow> (\<exists>v \<in> seen. version_of e = Some v)"
  shows "pending seen es = []"
  using assms by (induction es) auto

lemma pending_covers:
  "e \<in> set es \<Longrightarrow> is_up_file e \<Longrightarrow> \<forall>e \<in> set es. is_up_file e \<longrightarrow> version_of e \<noteq> None \<Longrightarrow>
   \<exists>v. version_of e = Some v \<and> (v \<in> seen \<or> v \<in> fst ` set (pending seen es))"
proof (induction es arbitrary: seen)
  case (Cons a es)
  show ?case
  proof (cases "is_up_file a")
    case True
    then obtain w where w: "version_of a = Some w" using Cons.prems(3) by auto
    then show ?thesis using Cons.IH [of seen] Cons.IH [of "insert w seen"] Cons.prems True by auto
  next
    case False
    then show ?thesis using Cons by auto
  qed
qed simp

lemma migrate_nothing:
  assumes "\<forall>e \<in> set es. is_up_file e \<longrightarrow> (\<exists>v \<in> set (sd_Versions db). version_of e = Some v)"
  shows "migrate_entries run flt es db = (Inr (), db)"
  using assms by (induction es) auto

lemma pending_rest:
  "pending (seen \<union> set (map fst (take n (pending seen es)))) es = drop n (pending seen es)"
proof (induction es arbitrary: seen n)
  case (Cons e es)
  show ?case
  proof (cases "is_up_file e \<and> version_of e \<noteq> None \<and> the (version_of e) \<notin> seen")
    case True
    then obtain v where v: "version_of e = Some v" "v \<notin> seen" by auto
    show ?thesis
    proof (cases n)
      case (Suc m)
      let ?ps = "set (map fst (take m (pending (insert v seen) es)))"
      have "pending (insert v seen \<union> ?ps) es = drop m (pending (insert v seen) es)" by (rule Cons.IH)
      then show ?thesis using True v Suc by simp
    qed simp
  next
    case False
    then show ?thesis using Cons.IH [of seen n] by (auto split: option.splits)
  qed
qed simp

lemma migrated_prefix:
  "\<exists>n. snd (Migrate run flt entries db) = applied run (take n (pending (set (sd_Versions db)) (sort_key me_Name entries))) db
     \<and> (is_ok (fst (Migrate run flt entries db)) \<longrightarrow> length (pending (set (sd_Versions db)) (sort_key me_Name entries)) \<le> n
       \<and> (\<forall>e \<in> set entries. is_up_file e \<longrightarrow> version_of e \<noteq> None))"
  using migrate_entries_prefix [of run flt "sort_key me_Name entries" db] by (simp add: Migrate_def)

text \<open>
  C37: Migrating applies the files that are not yet recorded, each once and in the order of their names,
  and whatever fails in between, what is in the database is a prefix of that work. The next run completes
  it to the same schema as an undisturbed run, and a run after a successful one changes nothing.
\<close>

theorem migrations_are_applied_once:
  "let todo = pending (set (sd_Versions db)) (sort_key me_Name entries); first = Migrate run flt entries db;
       second = Migrate run flt2 entries (snd first)
   in (\<exists>n. snd first = applied run (take n todo) db)
     \<and> (is_ok (fst first) \<longrightarrow> snd first = applied run todo db \<and> second = (Inr (), snd first))
     \<and> (is_ok (fst second) \<longrightarrow> snd second = applied run todo db)"
proof -
  let ?es = "sort_key me_Name entries"
  let ?todo = "pending (set (sd_Versions db)) ?es" and ?db1 = "snd (Migrate run flt entries db)"
  obtain n where n: "?db1 = applied run (take n ?todo) db"
    and ok: "is_ok (fst (Migrate run flt entries db)) \<Longrightarrow> length ?todo \<le> n \<and> (\<forall>e \<in> set entries. is_up_file e \<longrightarrow> version_of e \<noteq> None)"
    using migrated_prefix [of run flt entries db] by blast
  obtain m where m: "snd (Migrate run flt2 entries ?db1) = applied run (take m (pending (set (sd_Versions ?db1)) ?es)) ?db1"
    and ok2: "is_ok (fst (Migrate run flt2 entries ?db1)) \<Longrightarrow> length (pending (set (sd_Versions ?db1)) ?es) \<le> m"
    using migrated_prefix [of run flt2 entries ?db1] by blast
  have rest: "pending (set (sd_Versions ?db1)) ?es = drop n ?todo"
    using pending_rest [of "set (sd_Versions db)" n ?es] by (simp add: n versions_applied)
  have "snd (Migrate run flt2 entries ?db1) = applied run ?todo db" if "is_ok (fst (Migrate run flt2 entries ?db1))"
    using m ok2 [OF that] unfolding rest by (simp add: n flip: applied_append)
  moreover have "?db1 = applied run ?todo db \<and> Migrate run flt2 entries ?db1 = (Inr (), ?db1)" if "is_ok (fst (Migrate run flt entries db))"
  proof -
    have all: "?db1 = applied run ?todo db" using n ok [OF that] by simp
    have "\<exists>v \<in> set (sd_Versions ?db1). version_of e = Some v" if "e \<in> set ?es" "is_up_file e" for e
      using pending_covers [OF that, of "set (sd_Versions db)"] ok [OF \<open>is_ok (fst (Migrate run flt entries db))\<close>]
      unfolding all versions_applied by auto
    then show ?thesis using all unfolding Migrate_def by (simp add: migrate_nothing)
  qed
  ultimately show ?thesis using n by (auto simp: Let_def)
qed

definition sample_files :: "migration_entry list" where
  "sample_files = [\<lparr>me_Name = ''000002_more.up.sql'', me_IsDir = False, me_SQL = ''more''\<rparr>,
     \<lparr>me_Name = ''000001_initial.down.sql'', me_IsDir = False, me_SQL = ''drop''\<rparr>,
     \<lparr>me_Name = ''000001_initial.up.sql'', me_IsDir = False, me_SQL = ''create''\<rparr>]"

theorem migrations_are_applied_once_witness:
  "(let first = Migrate (\<lambda>sql s. (Inr (), s @ [sql])) (\<lambda>f. if f = ''000002_more.up.sql'' then LostReply else NoFault) sample_files \<lparr>sd_Versions = [], sd_Schema = []\<rparr>;
        second = Migrate (\<lambda>sql s. (Inr (), s @ [sql])) (\<lambda>_. NoFault) sample_files (snd first)
    in \<not> is_ok (fst first) \<and> sd_Schema (snd second) = [''create'', ''more''])"
proof -
  let ?run = "\<lambda>sql s. (Inr (), s @ [sql]) :: unit go_result \<times> string list" and ?db = "\<lparr>sd_Versions = [], sd_Schema = []\<rparr> :: string list schema_db"
  let ?flt = "\<lambda>f. if f = ''000002_more.up.sql'' then LostReply else NoFault"
  let ?first = "Migrate ?run ?flt sample_files ?db"
  have "\<not> is_ok (fst ?first)" "is_ok (fst (Migrate ?run (\<lambda>_. NoFault) sample_files (snd ?first)))" by code_simp+
  moreover have "sd_Schema (applied ?run (pending (set (sd_Versions ?db)) (sort_key me_Name sample_files)) ?db) = [''create'', ''more'']" by code_simp
  ultimately show ?thesis
    using migrations_are_applied_once [of ?db sample_files ?run ?flt "\<lambda>_. NoFault"] by (simp add: Let_def)
qed

end
