(* ===== verification/Proxy_Main.thy ===== *)
theory Proxy_Main
  imports Gateway_Config Message_Envelope Repo_Maintenance Transport_Core Proxy_Migrations
begin

text \<open>
  \<^verbatim>\<open>cmd/proxy/main.go\<close>: what the process does before it serves (configuration, keys, the check that the
  database is migrated and belongs to this proxy), the maintenance loop, and waiting for its parts to end.
\<close>

text \<open>
  \<^verbatim>\<open>run\<close> up to the connection to NATS. \<open>sdb\<close> is the schema and the versions applied to it, \<open>run_sql\<close> what a
  migration file does to a schema, and \<open>has_tables\<close> whether the query of \<^verbatim>\<open>Stats\<close> finds its tables.
\<close>

datatype started = Migrated | Serving config core

record 's boot_io =
  bo_args :: "string list"
  bo_opens :: bool
  bo_run_sql :: "string \<Rightarrow> 's \<Rightarrow> unit go_result \<times> 's"
  bo_faults :: "string \<Rightarrow> fault"
  bo_files :: "migration_entry list"
  bo_has_tables :: "'s \<Rightarrow> bool"
  bo_bind_fault :: fault

definition startup ::
  "duration_parser \<Rightarrow> url_parser \<Rightarrow> environment \<Rightarrow> string \<Rightarrow> (string \<Rightarrow> bytes go_result) \<Rightarrow> 's boot_io \<Rightarrow> 's schema_db \<Rightarrow> proxy_db \<Rightarrow>
   started go_result \<times> 's schema_db \<times> proxy_db" where
  "startup parse_duration url_parse env hostname read_file b sdb db =
     (case go_try (Load parse_duration url_parse env hostname) (\<lambda>cfg.
             go_try (LoadPrivateKey read_file (cf_SigningPrivateKeyFile cfg)) (\<lambda>signer.
             go_try (ParseClientPublicKeys (cf_ClientPublicKeys cfg)) (\<lambda>(keys, clientByKeyID).
             check (bo_opens b) ErrUnavailable (Inr (cfg, new_core cfg signer keys clientByKeyID))))) of
        Inl e \<Rightarrow> (Inl e, sdb, db)
      | Inr (cfg, c) \<Rightarrow>
          let migrate = (\<lambda>_. Migrate (bo_run_sql b) (bo_faults b) (bo_files b) sdb)
          in if 1 < length (bo_args b) \<and> bo_args b ! 1 = ''migrate''
             then (case migrate () of (Inl e, sdb') \<Rightarrow> (Inl e, sdb', db) | (Inr _, sdb') \<Rightarrow> (Inr Migrated, sdb', db))
             else (case (if cf_AutoMigrate cfg then migrate () else (Inr (), sdb)) of
                     (Inl e, sdb') \<Rightarrow> (Inl e, sdb', db)
                   | (Inr _, sdb') \<Rightarrow>
                       if \<not> bo_has_tables b (sd_Schema sdb')
                       then (Inl (ErrText ''database is not migrated; run `proxy migrate`''), sdb', db)
                       else (case db_call (bo_bind_fault b) (BindProxyID (cf_ProxyID cfg)) db of
                               (Inl e, db') \<Rightarrow> (Inl e, sdb', db')
                             | (Inr _, db') \<Rightarrow> (Inr (Serving cfg c), sdb', db'))))"

text \<open>
  \<^verbatim>\<open>run\<close> from there to the start of its parts: the options of the connection to NATS, and what each part is
  made with. The pool of idle connections of the executor is left out.
\<close>

datatype nats_option =
    NatsName string
  | NatsTimeout go_duration
  | NatsMaxReconnects int
  | NatsReconnectWait go_duration
  | NatsUserCredentials string
  | NatsRootCAs string
  | NatsClientCert string string

definition nats_options :: "config \<Rightarrow> nats_option list" where
  "nats_options cfg =
     [NatsName (''http-nats-proxy:'' @ cf_ProxyID cfg @ '':'' @ cf_InstanceID cfg), NatsTimeout 5000000000, NatsMaxReconnects (- 1),
      NatsReconnectWait 1000000000]
     @ (if cf_NATSCredsFile cfg \<noteq> [] then [NatsUserCredentials (cf_NATSCredsFile cfg)] else [])
     @ (if cf_NATSCACert cfg \<noteq> [] then [NatsRootCAs (cf_NATSCACert cfg)] else [])
     @ (if cf_NATSClientCert cfg \<noteq> [] then [NatsClientCert (cf_NATSClientCert cfg) (cf_NATSClientKey cfg)] else [])"

record proxy_parts =
  pp_core :: core
  pp_maxResponse :: int
  pp_workers :: config
  pp_httpAddr :: string
  pp_maxBody :: int

definition proxy_parts_of :: "(string \<Rightarrow> nats_option list \<Rightarrow> bool) \<Rightarrow> config \<Rightarrow> core \<Rightarrow> proxy_parts go_result" where
  "proxy_parts_of connects cfg c =
     check (connects (cf_NATSURL cfg) (nats_options cfg)) ErrUnavailable
       (Inr \<lparr>pp_core = c, pp_maxResponse = cf_MaxResponseBytes cfg, pp_workers = cfg, pp_httpAddr = cf_HTTPAddr cfg,
          pp_maxBody = cf_WebhookDefaultMaxBody cfg\<rparr>)"

text \<open>\<^verbatim>\<open>maintenance\<close>: once at the start, then on the two tickers; errors are only logged.\<close>

datatype maintenance_tick = RecoveryTick | CleanupTick

record tick_io =
  ti_now :: pg_time
  ti_clock :: go_time
  ti_times :: "string \<Rightarrow> go_time"
  ti_fault :: fault

definition recoverExpired :: "tick_io \<Rightarrow> proxy_db \<Rightarrow> proxy_db" where
  "recoverExpired io db = snd (db_call (ti_fault io) (RecoverExpiredDispatches (ti_times io) (ti_now io)) db)"

definition cleanupFinished :: "config \<Rightarrow> tick_io \<Rightarrow> proxy_db \<Rightarrow> proxy_db" where
  "cleanupFinished cfg io db = snd (db_call (ti_fault io) (Cleanup ((ti_clock io - cf_Retention cfg) div 1000) 1000 (ti_now io)) db)"

fun maintenance_loop :: "config \<Rightarrow> (maintenance_tick \<times> tick_io) list \<Rightarrow> proxy_db \<Rightarrow> proxy_db" where
  "maintenance_loop cfg [] db = db"
| "maintenance_loop cfg ((RecoveryTick, io) # ts) db = maintenance_loop cfg ts (recoverExpired io db)"
| "maintenance_loop cfg ((CleanupTick, io) # ts) db = maintenance_loop cfg ts (cleanupFinished cfg io db)"

definition maintenance :: "config \<Rightarrow> tick_io \<Rightarrow> tick_io \<Rightarrow> (maintenance_tick \<times> tick_io) list \<Rightarrow> proxy_db \<Rightarrow> proxy_db" where
  "maintenance cfg io1 io2 ticks db = maintenance_loop cfg ticks (cleanupFinished cfg io2 (recoverExpired io1 db))"

text \<open>
  \<^verbatim>\<open>drain\<close>: what arrives while it waits, a part's end with or without an error, or the timer. \<open>None\<close> means
  that it still waits. A cancelled context is \<open>ErrContextDone\<close>.
\<close>

datatype drain_event = PartEnded "go_error option" | TimerFired

fun drain :: "nat \<Rightarrow> go_error option \<Rightarrow> drain_event list \<Rightarrow> go_error option option" where
  "drain 0 first es = Some first"
| "drain (Suc n) first [] = None"
| "drain (Suc n) first (PartEnded e # es) =
     drain n (if first = None \<and> e \<noteq> None \<and> e \<noteq> Some ErrContextDone then e else first) es"
| "drain (Suc n) first (TimerFired # es) =
     Some (if first \<noteq> None then first else Some (ErrText ''graceful shutdown timed out''))"

text \<open>
  The end of \<^verbatim>\<open>run\<close>, once its three parts are running: a signal, or the end of one part, which stops the
  others. What follows it are the events that \<^verbatim>\<open>drain\<close> meets.
\<close>

datatype run_wait = Signalled "drain_event list" | PartFirst "go_error option" "drain_event list"

fun run_end :: "run_wait \<Rightarrow> go_error option option" where
  "run_end (Signalled es) = drain 3 None es"
| "run_end (PartFirst e es) = drain 2 (if e = Some ErrContextDone then None else e) es"

subsection \<open>Lemmas\<close>

text \<open>What counts as an error of a part, and the result by looking at everything that arrives before the end.\<close>

definition real_errors :: "drain_event list \<Rightarrow> go_error list" where
  "real_errors es = List.map_filter (\<lambda>x. case x of PartEnded (Some e) \<Rightarrow> if e = ErrContextDone then None else Some e | _ \<Rightarrow> None) es"

definition drained :: "nat \<Rightarrow> drain_event list \<Rightarrow> drain_event list" where
  "drained n es = takeWhile (\<lambda>x. x \<noteq> TimerFired) (take n es)"

lemma real_errors_simps [simp]:
  "real_errors [] = []"
  "real_errors (PartEnded None # es) = real_errors es"
  "real_errors (PartEnded (Some e) # es) = (if e = ErrContextDone then real_errors es else e # real_errors es)"
  "real_errors (TimerFired # es) = real_errors es"
  by (simp_all add: real_errors_def List.map_filter_simps)

lemma drained_simps [simp]:
  "drained 0 es = []" "drained (Suc n) [] = []" "drained (Suc n) (TimerFired # es) = []"
  "drained (Suc n) (PartEnded e # es) = PartEnded e # drained n es"
  by (simp_all add: drained_def)

lemma drain_result:
  assumes "n \<le> length es \<or> TimerFired \<in> set es"
  shows "drain n first es = Some (case first of
      Some e \<Rightarrow> Some e
    | None \<Rightarrow> (case real_errors (drained n es) of
        e # _ \<Rightarrow> Some e
      | [] \<Rightarrow> if length (drained n es) < n then Some (ErrText ''graceful shutdown timed out'') else None))"
  using assms
proof (induction n first es rule: drain.induct)
  case (3 n first e es)
  then show ?case by (cases e; cases first) auto
next
  case (4 n first es)
  then show ?case by (cases first) auto
qed (auto split: option.split)

text \<open>A started proxy owns its database, and what it runs with is what it loaded.\<close>

lemma startup_ok:
  assumes "startup parse_duration url_parse env hostname read_file b sdb db = (Inr (Serving cfg c), sdb', db')"
  shows "Load parse_duration url_parse env hostname = Inr cfg \<and> db_identity db' = Some (cf_ProxyID cfg) \<and> tc_proxyID c = cf_ProxyID cfg
    \<and> (db_identity db = None \<or> db_identity db = Some (cf_ProxyID cfg)) \<and> bo_has_tables b (sd_Schema sdb')
    \<and> (\<exists>keys. ParseClientPublicKeys (cf_ClientPublicKeys cfg) = Inr (keys, tc_clientByKeyID c) \<and> tc_keys c = map snd keys)
    \<and> tc_requireSignature c = cf_RequireSignature cfg \<and> tc_allowed c = cf_AllowedClients cfg"
proof -
  have bind: "db_identity db2 = Some p \<and> (db_identity db1 = None \<or> db_identity db1 = Some p)"
    if "db_call f (BindProxyID p) db1 = (Inr u, db2)" for f p u db1 db2
    using that by (auto simp: db_call_def BindProxyID_def split: fault.splits option.splits if_splits prod.splits)
  show ?thesis using assms
    by (auto simp: startup_def new_core_def go_try_eq_Inr check_def Let_def dest: bind split: sum.splits prod.splits if_splits)
qed

end
