(* ===== verification/App_Properties.thy ===== *)
theory App_Properties
  imports App_Http Proxy_Main Webhook_Commands
begin

text \<open>
  What the public endpoint of callbacks and the start of the process guarantee (\<open>App_Http\<close>, \<open>Proxy_Main\<close>).
\<close>

subsection \<open>The public endpoint\<close>

lemma webhook_begin_event:
  assumes "0 < maxBody" "maxBody < 2 ^ 63 - 1" and "webhook_begin h maxBody False entropy clock q db = Inr (ev, route)"
  shows "authorised h q db \<and> GetWebhookRoute (pr_id q) db = Inr route \<and> int (length (pr_Body q)) \<le> body_limit maxBody route
    \<and> ev_Body ev = pr_Body q \<and> ev_Method ev = pr_Method q \<and> ev_RequestURI ev = pr_RequestURI q \<and> ev_WebhookID ev = ro_ID route
    \<and> ev_EventID ev = ''event_'' @ randomID entropy"
proof -
  have auth: "authorised h q db" and route: "GetWebhookRoute (pr_id q) db = Inr route"
    using assms(3) by (auto simp: webhook_begin_unfold Let_def split: if_splits sum.splits option.splits)
  obtain b where b: "read_body maxBody (body_limit maxBody route) q = Some b" "int (length b) \<le> body_limit maxBody route"
    and ev: "ev_Body ev = b" "ev_Method ev = pr_Method q" "ev_RequestURI ev = pr_RequestURI q" "ev_WebhookID ev = ro_ID route"
      "ev_EventID ev = ''event_'' @ randomID entropy"
    using assms(3) auth route by (auto simp: webhook_begin_unfold Let_def split: if_splits option.splits)
  have "b = pr_Body q" using read_body_within [OF _ _ b] body_limit_bounds [OF assms(1), of route] assms(2) by simp
  then show ?thesis using auth route b ev by simp
qed

lemma webhook_begin_refusal:
  assumes "0 < maxBody" "maxBody < 2 ^ 63 - 1" and "webhook_begin h maxBody False entropy clock q db = Inl reply"
  shows "if authorised h q db
    then reply = http_Error ''body too large'' 413
      \<and> (pr_broken q \<or> (\<forall>route. GetWebhookRoute (pr_id q) db = Inr route \<longrightarrow> body_limit maxBody route < int (length (pr_Body q))))
    else reply = http_NotFound"
proof (cases "authorised h q db")
  case True
  then obtain route where route: "GetWebhookRoute (pr_id q) db = Inr route" by (auto simp: authorised_def split: sum.splits)
  have bounds: "0 < body_limit maxBody route" "body_limit maxBody route \<le> maxBody" using body_limit_bounds [OF assms(1)] by blast+
  have "pr_broken q \<or> body_limit maxBody route < int (length (pr_Body q))"
    using assms(3) True route read_body_complete [of "body_limit maxBody route" maxBody q] bounds assms(2)
    by (force simp: webhook_begin_unfold Let_def)
  moreover have "reply = http_Error ''body too large'' 413"
    using assms(3) True route by (auto simp: webhook_begin_unfold Let_def split: option.splits if_splits)
  ultimately show ?thesis using True route by simp
next
  case False
  then show ?thesis using assms(3) by (simp add: webhook_begin_unfold)
qed


definition sample_caller :: public_request where
  "sample_caller = \<lparr>pr_id = ''wh'', pr_token = ''h'', pr_Method = ''POST'', pr_RequestURI = ''/v1/webhooks/wh/h'', pr_Host = ''proxy'',
     pr_Header = [(''X-Trace'', [''1''])], pr_Body = ''x'', pr_broken = False\<rparr>"


lemma applyWebhookDefaults_keeps [simp]:
  "ro_ID (applyWebhookDefaults r) = ro_ID r" "ro_OwnerClientID (applyWebhookDefaults r) = ro_OwnerClientID r"
  "ro_TokenHash (applyWebhookDefaults r) = ro_TokenHash r"
  by (simp_all add: applyWebhookDefaults_def Let_def)

lemma applyWebhookDefaults_ranges:
  "in_int64 (ro_ResponseTimeout r) \<Longrightarrow> in_int64 (ro_ResponseTimeout (applyWebhookDefaults r))"
  "in_int64 (sr_StatusCode (ro_StaticResponse r)) \<Longrightarrow> in_int64 (sr_StatusCode (ro_StaticResponse (applyWebhookDefaults r)))"
  by (simp_all add: applyWebhookDefaults_def Let_def in_int64_def)

lemma invalid_command_action: "invalid_command operation cid action code cause = Inr op \<Longrightarrow> co_Action op \<noteq> ''register''"
  by (auto simp: invalid_command_def split: if_splits)

lemma last_guard:
  "(if A then x else if B then y else if C then z else Inr w) = Inr v \<Longrightarrow> x \<noteq> Inr v \<Longrightarrow> y \<noteq> Inr v \<Longrightarrow> z \<noteq> Inr v \<Longrightarrow> w = v"
  by (simp split: if_split_asm)

text \<open>What the register command puts into its route and its answer.\<close>

lemma register_operation_ok:
  assumes "register_operation c h clientID operation command = Inr op" and "co_Action op = ''register''"
  defines "token \<equiv> webhookToken h c clientID (wr_CommandID command)"
  shows "ro_ID (co_Route op) = ''wh_'' @ stableID h (clientID @ newline @ wr_CommandID command)" (is ?id)
    and "ro_OwnerClientID (co_Route op) = clientID" (is ?owner)
    and "ro_TokenHash (co_Route op) = tokenHash h token" (is ?hash)
    and "cr_URL (co_Result op) = tc_publicBaseURL c @ ''/v1/webhooks/'' @ ro_ID (co_Route op) @ ''/'' @ token" (is ?url)
    and "co_CommandID op = wr_CommandID command" (is ?cid)
    and "in_int64 (wr_ResponseTimeout command) \<Longrightarrow> in_int64 (ro_ResponseTimeout (co_Route op))"
    and "in_int64 (sr_StatusCode (wr_StaticResponse command)) \<Longrightarrow> in_int64 (sr_StatusCode (ro_StaticResponse (co_Route op)))"
proof -
  have "invalid_command x cid action code cause \<noteq> Inr op" for x cid action code cause
    using assms(2) invalid_command_action by blast
  note op = last_guard [OF assms(1) [unfolded register_operation_def Let_def] this this this, symmetric]
  show ?id ?owner ?hash ?url ?cid unfolding op token_def by (simp_all add: control_success_def)
  show "in_int64 (wr_ResponseTimeout command) \<Longrightarrow> in_int64 (ro_ResponseTimeout (co_Route op))"
    "in_int64 (sr_StatusCode (wr_StaticResponse command)) \<Longrightarrow> in_int64 (sr_StatusCode (ro_StaticResponse (co_Route op)))"
    unfolding op by (simp_all add: applyWebhookDefaults_ranges)
qed

lemma registered_result:
  assumes "ApplyWebhookControl op subject now db = (Inr result, db')" and "row_by cm_command_id (co_CommandID op) (db_commands db) = None"
    and "co_Action op = ''register''"
  shows "result = co_Result op"
proof -
  obtain db1 where "apply_action op now db = Inr (result, db1)" by (rule ApplyWebhookControl_new [OF assms(1,2)])
  then show ?thesis using assms(3) by (auto simp: apply_action_def apply_register_def split: sum.splits)
qed

lemma hex_has_no_slash: "CHR ''/'' \<notin> set (hex_EncodeToString bs)"
proof -
  have "hex_digit n \<noteq> CHR ''/''" if "n < 16" for n
  proof
    assume "hex_digit n = CHR ''/''"
    then have "(of_char (hex_digit n) :: nat) = 47" by simp
    then show False using hex_digit_code [OF that] by (simp split: if_splits)
  qed
  then have "CHR ''/'' \<notin> {hex_digit (of_char b div 16), hex_digit (of_char b mod 16)}" for b
    using byte_nibbles_less [of b] mod_less_divisor [of 16 "of_char b :: nat"] by (metis empty_iff insert_iff zero_less_numeral)
  then show ?thesis by (auto simp: hex_EncodeToString_def)
qed

lemma split_at_slash: "as @ ''/'' @ bs = xs @ ''/'' @ ys \<Longrightarrow> CHR ''/'' \<notin> set as \<Longrightarrow> CHR ''/'' \<notin> set xs \<Longrightarrow> as = xs \<and> bs = ys"
proof (induction as arbitrary: xs)
  case Nil
  then show ?case by (cases xs) auto
next
  case (Cons a as)
  then show ?case by (cases xs) auto
qed

text \<open>
  C32: The URL in the answer to a register command works: once the command is applied, a request to that
  URL, by any method and with a complete body within the limit, becomes an event of the registered route
  that belongs to the client of the command.
\<close>

theorem registered_url_admits_callers:
  assumes op: "register_operation c h clientID (base_operation clientID TypeWebhookRegister payload) command = Inr op" "co_Action op = ''register''"
    and applied: "ApplyWebhookControl op subject now db = (Inr result, db')"
    and new: "row_by cm_command_id (wr_CommandID command) (db_commands db) = None"
    and ranges: "in_int64 (wr_ResponseTimeout command)" "in_int64 (sr_StatusCode (wr_StaticResponse command))" "0 < maxBody" "maxBody < 2 ^ 63 - 1"
    and url: "cr_URL result = tc_publicBaseURL c @ ''/v1/webhooks/'' @ pr_id q @ ''/'' @ pr_token q" "CHR ''/'' \<notin> set (pr_id q)"
    and body: "\<not> pr_broken q" "int (length (pr_Body q)) \<le> body_limit maxBody (co_Route op)"
  shows "\<exists>ev route. webhook_begin h maxBody False entropy clock q db' = Inr (ev, route) \<and> ev_WebhookID ev = ro_ID (co_Route op)
    \<and> ro_OwnerClientID route = clientID \<and> ev_Body ev = pr_Body q"
proof -
  note reg = register_operation_ok [OF op]
  have new': "row_by cm_command_id (co_CommandID op) (db_commands db) = None" using new reg(5) by simp
  have "result = co_Result op" by (rule registered_result [OF applied new' op(2)])
  then have "ro_ID (co_Route op) @ ''/'' @ webhookToken h c clientID (wr_CommandID command) = pr_id q @ ''/'' @ pr_token q"
    using url(1) reg(4) by simp
  moreover have "CHR ''/'' \<notin> set (ro_ID (co_Route op))" unfolding reg(1) using hex_has_no_slash by (simp add: stableID_def)
  ultimately have id: "pr_id q = ro_ID (co_Route op)" and token: "pr_token q = webhookToken h c clientID (wr_CommandID command)"
    using split_at_slash url(2) by metis+
  let ?route = "(co_Route op)\<lparr>ro_StaticResponse := canon_static_response (ro_StaticResponse (co_Route op)),
    ro_ResponseTimeout := ro_ResponseTimeout (co_Route op) div 1000000 * 1000000, ro_Enabled := True\<rparr>"
  have found: "GetWebhookRoute (pr_id q) db' = Inr ?route"
    unfolding id by (rule registered_route_is_found [OF applied new' op(2) reg(7) [OF ranges(2)] reg(6) [OF ranges(1)]])
  then have auth: "authorised h q db'" using reg(3) token by (simp add: authorised_def tokenHash_def)
  have "body_limit maxBody ?route = body_limit maxBody (co_Route op)" by (simp add: body_limit_def)
  then have "\<nexists>reply. webhook_begin h maxBody False entropy clock q db' = Inl reply"
    using webhook_begin_refusal [OF ranges(3,4), of h entropy clock q db'] auth found body by force
  then obtain ev route where run: "webhook_begin h maxBody False entropy clock q db' = Inr (ev, route)"
    by (cases "webhook_begin h maxBody False entropy clock q db'") auto
  from webhook_begin_event [OF ranges(3,4) run] have "route = ?route" "ev_WebhookID ev = ro_ID route" "ev_Body ev = pr_Body q"
    using found by auto
  then show ?thesis using run reg(2) by simp
qed

definition sample_static :: webhook_register where
  "sample_static = zero_webhook_register\<lparr>wr_CommandID := ''c9'', wr_ClientID := ''shop'', wr_Mode := ''static''\<rparr>"

theorem registered_url_admits_callers_witness:
  "\<exists>op q. register_operation sample_proxy sample_hash ''shop'' (base_operation ''shop'' TypeWebhookRegister JNull) sample_static = Inr op
     \<and> pr_Body q = ''x'' \<and> (\<exists>ev route. webhook_begin sample_hash 1000 False ''r'' 7 q (snd (ApplyWebhookControl op ''s'' 5 empty_db)) = Inr (ev, route)
       \<and> ev_Body ev = ''x'')"
proof -
  let ?reg = "register_operation sample_proxy sample_hash ''shop'' (base_operation ''shop'' TypeWebhookRegister JNull) sample_static"
  have "(case ?reg of Inl _ \<Rightarrow> False | Inr op \<Rightarrow> co_Action op = ''register'' \<and> is_ok (fst (ApplyWebhookControl op ''s'' 5 empty_db))
      \<and> 1 \<le> body_limit 1000 (co_Route op))" by code_simp
  then obtain op result db' where op: "?reg = Inr op" "co_Action op = ''register''" and applied: "ApplyWebhookControl op ''s'' 5 empty_db = (Inr result, db')"
    and limit: "1 \<le> body_limit 1000 (co_Route op)"
    by (cases "ApplyWebhookControl (projr ?reg) ''s'' 5 empty_db") (auto simp: is_ok_iff split: sum.splits)
  let ?q = "sample_caller\<lparr>pr_id := ro_ID (co_Route op), pr_token := webhookToken sample_hash sample_proxy ''shop'' ''c9''\<rparr>"
  note reg = register_operation_ok [OF op]
  have cid: "wr_CommandID sample_static = ''c9''" by (simp add: sample_static_def)
  have "result = co_Result op" by (rule registered_result [OF applied _ op(2)]) (simp add: empty_db_def)
  then have url: "cr_URL result = tc_publicBaseURL sample_proxy @ ''/v1/webhooks/'' @ pr_id ?q @ ''/'' @ pr_token ?q" using reg(4) cid by simp
  have "CHR ''/'' \<notin> set (pr_id ?q)" using reg(1) hex_has_no_slash by (simp add: stableID_def)
  from registered_url_admits_callers [OF op applied _ _ _ _ _ url this, of 1000 "''r''" 7] limit
  have "\<exists>ev route. webhook_begin sample_hash 1000 False ''r'' 7 ?q db' = Inr (ev, route) \<and> ev_Body ev = pr_Body ?q"
    by (auto simp: empty_db_def sample_static_def sample_caller_def in_int64_def zero_webhook_register_def zero_static_response_def)
  then show ?thesis using op(1) applied by (intro exI [of _ op] exI [of _ ?q]) (simp add: sample_caller_def)
qed

end
