(* ===== verification/Wiring_Properties.thy ===== *)
theory Wiring_Properties
  imports Client_Service Proxy_Main Gateway_Demo
begin

text \<open>
  What the parts of the system guarantee together: every message reaches the one handler that is made for
  it, and how the process ends.
\<close>

subsection \<open>Subjects\<close>













subsection \<open>How the process ends\<close>

text \<open>
  C35: Once a signal has arrived or one part has ended, the process ends as soon as the remaining parts
  have ended or the time for it is over. It reports the first error of a part other than the cancelled
  context, a missed deadline only when there was no such error, and success only when every part ended
  without one.
\<close>

theorem shutdown_terminates:
  "(3 \<le> length es \<or> TimerFired \<in> set es \<longrightarrow>
      run_end (Signalled es) = Some (case real_errors (drained 3 es) of
          e # _ \<Rightarrow> Some e
        | [] \<Rightarrow> if length (drained 3 es) < 3 then Some (ErrText ''graceful shutdown timed out'') else None))
   \<and> (2 \<le> length es \<or> TimerFired \<in> set es \<longrightarrow>
      run_end (PartFirst r es) = Some (case real_errors (PartEnded r # drained 2 es) of
          e # _ \<Rightarrow> Some e
        | [] \<Rightarrow> if length (drained 2 es) < 2 then Some (ErrText ''graceful shutdown timed out'') else None))"
  using drain_result [of 3 es None] drain_result [of 2 es "if r = Some ErrContextDone then None else r"] by (cases r) auto

theorem shutdown_terminates_witness:
  "run_end (Signalled [PartEnded (Some ErrContextDone), PartEnded None, TimerFired]) = Some (Some (ErrText ''graceful shutdown timed out''))
   \<and> run_end (PartFirst (Some ErrUnavailable) [PartEnded None, PartEnded (Some ErrNoRows)]) = Some (Some ErrUnavailable)"
  using shutdown_terminates [of "[PartEnded (Some ErrContextDone), PartEnded None, TimerFired]" None]
    shutdown_terminates [of "[PartEnded None, PartEnded (Some ErrNoRows)]" "Some ErrUnavailable"]
  by (simp add: numeral_3_eq_3 numeral_2_eq_2)

text \<open>
  C36: A single rescheduling that the database refuses ends the delivery loop, with it the transport, and
  with it the whole process, which reports that error; a claim that fails only makes the loop pause.
\<close>

theorem failed_reschedule_stops_the_proxy:
  assumes "\<not> dt_done_before t" "\<not> dt_done_after t" "err \<noteq> ErrContextDone"
    and "db_call (io_fault (dt_io t)) (ClaimDelivery 10000000000 (dt_locked t) (io_now (dt_io t))) db = (Inr d, db1)"
    and "db_call (dt_fault t) (RescheduleDelivery (de_ID d) (tc_deliveryRetry c) (dt_later t)) db1 = (Inl err, db2)"
  shows "fst (deliveryLoop c lib wl (t # ts) db) = Some (Inl err)
    \<and> core_Run_wait CoreServing (LoopEnded (Inl err)) = CoreStopped (Inl err) \<and> \<not> core_Ready (CoreStopped (Inl err)) connected
    \<and> (2 \<le> length es \<or> TimerFired \<in> set es \<longrightarrow> run_end (PartFirst (Some err) es) = Some (Some err))
    \<and> (\<forall>t'. \<not> dt_done_before t' \<and> \<not> dt_done_waiting t' \<and> io_fault (dt_io t') = LostCall \<longrightarrow>
         deliveryLoop c lib wl (t' # ts) db = deliveryLoop c lib wl ts db)"
  using deliveryLoop_failed [OF assms(1,2,4,5), of lib wl ts] drain_result [of 2 es "Some err"] assms(3)
  by (simp add: core_Ready_def db_call_def)

definition demo_turn :: delivery_turn_io where
  "demo_turn = \<lparr>dt_io = demo_io\<lparr>io_now := 10000000\<rparr>, dt_fault = LostCall, dt_locked = [], dt_later = 10000001, dt_done_before = False, dt_done_waiting = False,
     dt_done_after = False\<rparr>"

theorem failed_reschedule_stops_the_proxy_witness:
  "fst (deliveryLoop demo_core demo_crypto demo_wire [demo_turn] demo_db1) = Some (Inl ErrUnavailable)
   \<and> run_end (PartFirst (Some ErrUnavailable) [TimerFired]) = Some (Some ErrUnavailable)"
proof -
  have "is_ok (fst (db_call (io_fault (dt_io demo_turn)) (ClaimDelivery 10000000000 (dt_locked demo_turn) (io_now (dt_io demo_turn))) demo_db1))" by code_simp
  then obtain d db1 where claim: "db_call (io_fault (dt_io demo_turn)) (ClaimDelivery 10000000000 (dt_locked demo_turn) (io_now (dt_io demo_turn))) demo_db1 = (Inr d, db1)"
    by (cases "db_call (io_fault (dt_io demo_turn)) (ClaimDelivery 10000000000 (dt_locked demo_turn) (io_now (dt_io demo_turn))) demo_db1") (auto simp: is_ok_iff)
  have "db_call (dt_fault demo_turn) (RescheduleDelivery (de_ID d) (tc_deliveryRetry demo_core) (dt_later demo_turn)) db1 = (Inl ErrUnavailable, db1)"
    by (simp add: demo_turn_def db_call_def)
  from failed_reschedule_stops_the_proxy [OF _ _ _ claim this, of demo_crypto demo_wire "[]" False "[TimerFired]"]
  show ?thesis by (simp add: demo_turn_def)
qed

end
