(* ===== verification/Json_Equality.thy ===== *)
theory Json_Equality
  imports Go_Json
begin

text \<open>
  What \<^verbatim>\<open>jsonEqual\<close> decides. The code compares the texts that two documents have after decoding into
  \<^verbatim>\<open>any\<close> and encoding again; \<open>same_document\<close> says without any normal form when two documents mean the same.
\<close>

inductive same_document :: "json \<Rightarrow> json \<Rightarrow> bool" where
  same_null: "same_document JNull JNull"
| same_bool: "same_document (JBool b) (JBool b)"
| same_number: "f64_of_int m = f64_of_int n \<Longrightarrow> same_document (JNum m) (JNum n)"
| same_string: "same_document (JStr s) (JStr s)"
| same_time: "same_document (JTime t) (JTime t)"
| same_array: "list_all2 same_document xs ys \<Longrightarrow> same_document (JArr xs) (JArr ys)"
| same_object: "(\<And>k. rel_option same_document (map_of (rev ms) k) (map_of (rev ns) k)) \<Longrightarrow> same_document (JObj ms) (JObj ns)"

inductive_cases same_objectE: "same_document (JObj ms) (JObj ns)"

subsection \<open>Normal forms are equal exactly for the same documents\<close>







end
