(* ===== verification/Message_Flow.thy ===== *)
theory Message_Flow
  imports Outgoing_Guarantees
begin

text \<open>
  Where the data of the outgoing side comes from, followed through the whole proxy for one client: its
  requests in the database and in the hands of the workers are those it has published, and every result
  stored for it, repeated to it or published is the outcome of an HTTP call for one of them, or the result
  \<open>unknown\<close> for one of them.
\<close>

subsection \<open>Operations that bring nothing new\<close>

text \<open>No new request, and no new delivery of a result.\<close>

definition carries :: "proxy_db \<Rightarrow> proxy_db \<Rightarrow> bool" where
  "carries db db' \<longleftrightarrow> rq_request_id ` set (db_requests db') \<subseteq> rq_request_id ` set (db_requests db)
     \<and> (\<forall>d' \<in> set (db_deliveries db'). dl_message_type d' = TypeHTTPResult \<longrightarrow>
          (\<exists>d \<in> set (db_deliveries db). dl_message_type d = TypeHTTPResult \<and> dl_subject d = dl_subject d' \<and> dl_payload d = dl_payload d'))"

lemma carries_refl [simp]: "carries db db"
  by (auto simp: carries_def)

lemma carries_same: "db_requests db' = db_requests db \<Longrightarrow> db_deliveries db' = db_deliveries db \<Longrightarrow> carries db db'"
  by (auto simp: carries_def)

text \<open>Statements on the rows that are there.\<close>

definition touches :: "delivery_row list \<Rightarrow> delivery_row list \<Rightarrow> bool" where
  "touches ds ds' \<longleftrightarrow> (\<forall>d' \<in> set ds'. dl_message_type d' = TypeHTTPResult \<longrightarrow>
     (\<exists>d \<in> set ds. dl_message_type d = TypeHTTPResult \<and> dl_subject d = dl_subject d' \<and> dl_payload d = dl_payload d'))"

lemma carries_iff:
  "carries db db' \<longleftrightarrow> rq_request_id ` set (db_requests db') \<subseteq> rq_request_id ` set (db_requests db)
     \<and> touches (db_deliveries db) (db_deliveries db')"
  by (simp add: carries_def touches_def)

lemma touches_refl [simp]: "touches ds ds"
  by (auto simp: touches_def)

lemma touches_trans: "touches ds ds1 \<Longrightarrow> touches ds1 ds2 \<Longrightarrow> touches ds ds2"
  unfolding touches_def by metis

lemma carries_trans: "carries db db1 \<Longrightarrow> carries db1 db2 \<Longrightarrow> carries db db2"
  unfolding carries_iff using touches_trans by blast

lemma touches_update:
  assumes "\<And>d. dl_message_type (f d) = dl_message_type d" "\<And>d. dl_subject (f d) = dl_subject d" "\<And>d. dl_payload (f d) = dl_payload d"
  shows "touches ds (update_where p f ds)"
  using assms by (auto simp: touches_def set_update_where split: if_splits)

lemma touches_delete [simp]: "touches ds (delete_where p ds)"
  by (auto simp: touches_def sql_simps)

lemma touches_insert: "dl_message_type d \<noteq> TypeHTTPResult \<Longrightarrow> touches ds (insert_row d ds)"
  by (auto simp: touches_def sql_simps)

lemma ids_update: "(\<And>r. rq_request_id (f r) = rq_request_id r) \<Longrightarrow> rq_request_id ` set (update_where p f t) = rq_request_id ` set t"
proof -
  assume "\<And>r. rq_request_id (f r) = rq_request_id r"
  then have "map rq_request_id (update_where p f t) = map rq_request_id t" by (simp add: update_where_def)
  then show ?thesis by (metis list.set_map)
qed

lemma delivery_text [simp]:
  "dl_message_type (ack_delivery now d) = dl_message_type d" "dl_subject (ack_delivery now d) = dl_subject d"
  "dl_payload (ack_delivery now d) = dl_payload d"
  "dl_message_type (reopen_delivery now d) = dl_message_type d" "dl_subject (reopen_delivery now d) = dl_subject d"
  "dl_payload (reopen_delivery now d) = dl_payload d"
  "dl_message_type (new_delivery i k c subject typ j rid eid cid now) = typ"
  "dl_subject (new_delivery i k c subject typ j rid eid cid now) = subject"
  "dl_payload (new_delivery i k c subject typ j rid eid cid now) = j"
  by (simp_all add: ack_delivery_def reopen_delivery_def new_delivery_def)

lemma message_types [simp]:
  "TypeAcceptance \<noteq> TypeHTTPResult" "TypeWebhookEvent \<noteq> TypeHTTPResult" "TypeWebhookControlResult \<noteq> TypeHTTPResult"
  "TypeACKConfirmed \<noteq> TypeHTTPResult" "TypeHTTPResult \<noteq> TypeWebhookEvent"
  by (simp_all add: TypeAcceptance_def TypeWebhookEvent_def TypeWebhookControlResult_def TypeACKConfirmed_def TypeHTTPResult_def)

lemmas carries_simps = carries_iff touches_update touches_insert ids_update

subsection \<open>Every operation but three\<close>

lemma confirm_carries: "carries db (snd (ConfirmAcceptance ack now db))" "carries db (snd (ConfirmResult ack now db))"
  by (auto simp: ConfirmAcceptance_def ConfirmResult_def carries_simps split: option.split)

lemma queue_carries:
  "carries db (snd (ReserveRequest lease locked entropy now db))" "carries db (snd (BeginDispatch rid token lease now db))"
  "carries db (snd (ReleaseReserved rid token now db))" "carries db (snd (ScheduleRetry rid token reason t now db))"
  "carries db (snd (ClaimDelivery lease locked now db))" "carries db (snd (RescheduleDelivery did after now db))"
  by (auto simp: ReserveRequest_def BeginDispatch_def ReleaseReserved_def ScheduleRetry_def ClaimDelivery_def RescheduleDelivery_def
      Let_def carries_simps split: list.split option.split)

lemma permit_carries:
  "carries db (snd (AcquireHostPermit host rps concurrency minInterval lease entropy now db))" "carries db (snd (ReleaseHostPermit token db))"
  by (rule carries_same; simp add: AcquireHostPermit_frame ReleaseHostPermit_def)+

lemma cleanup_carries: "carries db (snd (Cleanup before batch now db))"
proof -
  have parts: "carries x (cleanup_requests before batch x)" "carries x (cleanup_limits now x)" "carries x (cleanup_events before batch x)"
    "carries x (cleanup_commands before batch x)" "carries x (cleanup_routes before x)" for x
    by (auto simp: cleanup_requests_def cleanup_limits_def cleanup_events_def cleanup_commands_def cleanup_routes_def Let_def carries_iff sql_simps)
  show ?thesis unfolding Cleanup_def snd_conv
    by (rule carries_trans [OF carries_trans [OF carries_trans [OF carries_trans [OF parts(1,2)] parts(3)] parts(4)] parts(5)])
qed

lemma webhook_carries:
  "carries db (snd (confirm_kind kind msg ack now db))" "carries db (snd (SaveWebhookResponse response now db))"
  "carries db (snd (MarkWebhookTimedOut eventID now db))"
proof -
  show "carries db (snd (confirm_kind kind msg ack now db))" "carries db (snd (MarkWebhookTimedOut eventID now db))"
    by (simp_all add: confirm_kind_def MarkWebhookTimedOut_def Let_def carries_simps)
  have "db_requests (snd (SaveWebhookResponse response now db)) = db_requests db"
    by (simp add: SaveWebhookResponse_def Let_def split: list.split option.split)
  moreover have "touches (db_deliveries db) (db_deliveries (snd (SaveWebhookResponse response now db)))"
    by (simp add: SaveWebhookResponse_def Let_def touches_update split: list.split option.split)
  ultimately show "carries db (snd (SaveWebhookResponse response now db))" by (simp add: carries_iff)
qed

lemma event_carries: "carries db (snd (SaveWebhookEvent event route subject reply rnd now db))"
proof -
  have ins: "carries x y" if "insert_event_deliveries event now ds x = Inr y" "\<forall>d \<in> set ds. de_MessageType d = TypeWebhookEvent" for ds x y
    using that
  proof (induction ds arbitrary: x)
    case (Cons d ds)
    let ?x = "x\<lparr>db_deliveries := insert_row (delivery_row_of event now d) (db_deliveries x)\<rparr>"
    have "carries x ?x" using Cons.prems(2) by (simp add: carries_simps delivery_row_of_def)
    moreover have "carries ?x y" using Cons by (auto split: if_splits)
    ultimately show ?case by (rule carries_trans)
  qed simp
  define ds where "ds = map (\<lambda>(i, c). event_delivery event route subject reply (rnd i) c) (enumerate 0 (event_clients event route db))"
  have types: "\<forall>d \<in> set ds. de_MessageType d = TypeWebhookEvent" by (auto simp: ds_def event_delivery_def Let_def)
  define es where "es = insert_row \<lparr>we_event_id = ev_EventID event, we_webhook_id = ev_WebhookID event, we_request = marshal_webhook_event event,
      we_response = None, we_status = (if ro_Mode route = ''delegated'' then awaiting_response else received), we_received_at = now, we_updated_at = now\<rparr> (db_events db)"
  have "snd (SaveWebhookEvent event route subject reply rnd now db) = db
      \<or> insert_event_deliveries event now ds (db\<lparr>db_events := es\<rparr>) = Inr (snd (SaveWebhookEvent event route subject reply rnd now db))"
    unfolding SaveWebhookEvent_def Let_def ds_def [symmetric] es_def [symmetric] by (simp split: sum.split)
  moreover have "carries db (db\<lparr>db_events := es\<rparr>)" by (rule carries_same) simp_all
  ultimately show ?thesis using ins [OF _ types] by (auto intro: carries_trans)
qed

lemma control_carries: "carries db (snd (ApplyWebhookControl operation subject now db))"
proof (cases "row_by cm_command_id (co_CommandID operation) (db_commands db)")
  case (Some c)
  then show ?thesis by (auto simp: ApplyWebhookControl_def carries_simps split: option.split)
next
  case None
  show ?thesis
  proof (cases "apply_action operation now db")
    case (Inr res)
    obtain result db1 where res: "res = (result, db1)" by (cases res)
    have "db_requests db1 = db_requests db" "db_deliveries db1 = db_deliveries db" using apply_action_frame [OF Inr [unfolded res]] by simp_all
    then show ?thesis using None Inr res by (auto simp: ApplyWebhookControl_def Let_def carries_simps)
  qed (simp add: ApplyWebhookControl_def None)
qed

lemma call_carries: "carries db (snd (g db)) \<Longrightarrow> carries db (snd (db_call f g db))"
  by (simp add: db_call_def split: fault.split)

subsection \<open>Requests and results of one client\<close>

text \<open>
  \<open>Q\<close> are the requests that client \<open>C\<close> of proxy \<open>P\<close> has published, as the proxy reads them, and \<open>A\<close> the
  outcomes of all HTTP calls so far with the requests they were made for. A result is genuine if it is the
  response to a call for one of the requests, or says that the outcome is unknown.
\<close>

definition response_of :: "http_result \<Rightarrow> http_result \<Rightarrow> bool" where
  "response_of x r \<longleftrightarrow> rs_State r = ''http_completed'' \<and> rs_StatusCode r = rs_StatusCode x \<and> rs_Headers r = rs_Headers x \<and> rs_Body r = rs_Body x"

definition genuine :: "http_request set \<Rightarrow> (http_request \<times> http_result go_result) set \<Rightarrow> http_result \<Rightarrow> bool" where
  "genuine Q A r \<longleftrightarrow> (\<exists>q \<in> Q. hq_RequestID q = rs_RequestID r \<and> (rs_State r = ''unknown'' \<or> (\<exists>x. (q, Inr x) \<in> A \<and> response_of x r)))"

lemma genuine_mono: "genuine Q A r \<Longrightarrow> Q \<subseteq> Q' \<Longrightarrow> A \<subseteq> A' \<Longrightarrow> genuine Q' A' r"
  unfolding genuine_def by blast

definition subject_of :: "string \<Rightarrow> string \<Rightarrow> string" where
  "subject_of C P = ''client.'' @ C @ ''.proxy.'' @ P @ ''.results''"

lemma subject_of_inj: "subject_of C P = subject_of C' P \<longleftrightarrow> C = C'"
  by (simp add: subject_of_def)

definition flow_db :: "string \<Rightarrow> string \<Rightarrow> http_request set \<Rightarrow> (http_request \<times> http_result go_result) set \<Rightarrow> proxy_db \<Rightarrow> bool" where
  "flow_db C P Q A db \<longleftrightarrow>
     (\<forall>rid r. request_of rid db = Some r \<longrightarrow> rq_proxy_id r = P
        \<and> (rq_client_id r = C \<longrightarrow> (\<exists>q \<in> Q. unmarshal_http_request (rq_request r) = Some q)))
     \<and> (\<forall>d \<in> set (db_deliveries db). dl_message_type d = TypeHTTPResult \<longrightarrow> dl_subject d = subject_of C P \<longrightarrow>
          (\<exists>r. dl_payload d = marshal_http_result r \<and> genuine Q A r))"

fun flow_worker :: "string \<Rightarrow> http_request set \<Rightarrow> (http_request \<times> http_result go_result) set \<Rightarrow> worker_state \<Rightarrow> bool" where
  "flow_worker C Q A (Saving op p res) = (hq_ClientID (op_Request op) = C \<longrightarrow> op_Request op \<in> Q \<and> genuine Q A res)"
| "flow_worker C Q A st = (\<forall>op. engaged st = Some op \<longrightarrow> hq_ClientID (op_Request op) = C \<longrightarrow> op_Request op \<in> Q)"

lemma flow_worker_engaged: "flow_worker C Q A st \<Longrightarrow> engaged st = Some op \<Longrightarrow> hq_ClientID (op_Request op) = C \<Longrightarrow> op_Request op \<in> Q"
  by (cases st) auto

definition flow_inv :: "string \<Rightarrow> string \<Rightarrow> http_request set \<Rightarrow> (http_request \<times> http_result go_result) set \<Rightarrow> sys \<Rightarrow> bool" where
  "flow_inv C P Q A s \<longleftrightarrow> flow_db C P Q A (sys_db s) \<and> (\<forall>w. flow_worker C Q A (sys_workers s w))"

text \<open>A published message, as far as it carries a result to the client.\<close>

definition flow_msg ::
  "string \<Rightarrow> string \<Rightarrow> http_request set \<Rightarrow> (http_request \<times> http_result go_result) set \<Rightarrow> crypto_lib \<Rightarrow> wire_lib \<Rightarrow> nats_msg \<Rightarrow> bool" where
  "flow_msg C P Q A lib wl m \<longleftrightarrow> (\<exists>entropy clock typ j k.
     nm_Data m = wl_env_text wl (NewEnvelope lib entropy clock typ (wl_text wl j) k)
     \<and> (nm_Subject m = subject_of C P \<longrightarrow> typ = TypeHTTPResult \<longrightarrow> (\<exists>r. j = marshal_http_result r \<and> genuine Q A r)))"

lemma flow_db_mono: "flow_db C P Q A db \<Longrightarrow> Q \<subseteq> Q' \<Longrightarrow> A \<subseteq> A' \<Longrightarrow> flow_db C P Q' A' db"
  unfolding flow_db_def using genuine_mono by blast

lemma flow_worker_mono: "flow_worker C Q A st \<Longrightarrow> Q \<subseteq> Q' \<Longrightarrow> A \<subseteq> A' \<Longrightarrow> flow_worker C Q' A' st"
  using genuine_mono by (cases st) auto

lemma flow_mono:
  assumes "flow_inv C P Q A s" "Q \<subseteq> Q'" "A \<subseteq> A'"
  shows "flow_inv C P Q' A' s"
  using assms(1) flow_db_mono [OF _ assms(2,3)] flow_worker_mono [OF _ assms(2,3)] by (simp add: flow_inv_def)

lemma flow_msg_mono: "flow_msg C P Q A lib wl m \<Longrightarrow> Q \<subseteq> Q' \<Longrightarrow> A \<subseteq> A' \<Longrightarrow> flow_msg C P Q' A' lib wl m"
  unfolding flow_msg_def using genuine_mono by metis

text \<open>What brings nothing new keeps it.\<close>

lemma flow_db_rows:
  assumes flow: "flow_db C P Q A db" and law: "lawful db db'" and repo: "repo_inv db"
    and ids: "rq_request_id ` set (db_requests db') \<subseteq> rq_request_id ` set (db_requests db)"
    and r: "request_of rid db' = Some r'"
  shows "rq_proxy_id r' = P \<and> (rq_client_id r' = C \<longrightarrow> (\<exists>q \<in> Q. unmarshal_http_request (rq_request r') = Some q))"
proof -
  have "r' \<in> set (db_requests db')" "rq_request_id r' = rid" using r by (auto dest: row_by_Some_mem)
  then have "rid \<in> rq_request_id ` set (db_requests db)" using ids by blast
  then obtain r0 where r0: "request_of rid db = Some r0" by (cases "request_of rid db") (auto simp: row_by_None_iff)
  have "requests_refine db db'" using law repo by (simp add: lawful_def)
  then have "advances r0 r'" using r0 r by (auto simp: requests_refine_def dest: spec [of _ rid])
  then have "same_identity r0 r'" by (simp add: advances_def)
  then show ?thesis using flow r0 unfolding flow_db_def same_identity_def by metis
qed

lemma flow_db_delivery:
  "flow_db C P Q A db \<Longrightarrow> d \<in> set (db_deliveries db) \<Longrightarrow> dl_message_type d = TypeHTTPResult \<Longrightarrow> dl_subject d = subject_of C P \<Longrightarrow>
   \<exists>r. dl_payload d = marshal_http_result r \<and> genuine Q A r"
  by (simp add: flow_db_def)

lemma flow_db_carries:
  assumes flow: "flow_db C P Q A db" and "lawful db db'" "repo_inv db" "carries db db'"
  shows "flow_db C P Q A db'"
  unfolding flow_db_def [of C P Q A db']
proof (intro conjI allI impI ballI)
  fix d' assume d': "d' \<in> set (db_deliveries db')" "dl_message_type d' = TypeHTTPResult" "dl_subject d' = subject_of C P"
  then obtain d where d: "d \<in> set (db_deliveries db)" "dl_message_type d = TypeHTTPResult" "dl_subject d = dl_subject d'" "dl_payload d = dl_payload d'"
    using assms(4) unfolding carries_def by blast
  then show "\<exists>r. dl_payload d' = marshal_http_result r \<and> genuine Q A r" using flow_db_delivery [OF flow d(1,2)] d'(3) by simp
qed (use flow_db_rows [OF assms(1-3)] assms(4) in \<open>auto simp: carries_def\<close>)

lemma PublishRaw_text:
  assumes "m \<in> set (snd (PublishRaw c lib wl io subject typ j))"
  shows "nm_Subject m = subject \<and> nm_Data m = wl_env_text wl (NewEnvelope lib (io_entropy io) (io_clock io) typ (wl_text wl j) (tc_signer c))"
  using assms by (auto simp: PublishRaw_def Let_def split: if_splits)

lemma PublishRaw_flow:
  assumes "m \<in> set (snd (PublishRaw c lib wl io subject typ j))"
    and "subject = subject_of C P \<Longrightarrow> typ = TypeHTTPResult \<Longrightarrow> \<exists>r. j = marshal_http_result r \<and> genuine Q A r"
  shows "flow_msg C P Q A lib wl m"
  unfolding flow_msg_def using PublishRaw_text [OF assms(1)] assms(2) by blast

subsection \<open>The three operations that bring something new\<close>

text \<open>A request of the client enters the database only if it is one of those it has published.\<close>

lemma handleRequest_flow:
  assumes flow: "flow_db C P Q A db" and repo: "repo_inv db" and proxy: "tc_proxyID c = P"
    and heard: "\<And>payload q. decode c lib wl (io_clock io) data TypeHTTPRequest = Inr (C, payload) \<Longrightarrow>
       read_json wl unmarshal_http_request payload = Inr q \<Longrightarrow> q \<in> Q"
  shows "flow_db C P Q A (fst (handleRequest c lib wl url_parse io data db))"
proof (cases rule: handleRequest_cases [of c lib wl url_parse io data db])
  case (accepted client payload q)
  have q: "wf_http_request q" "canon_http_request q = q" using read_request_valid [OF accepted(2)] by simp_all
  have ids: "hq_ClientID q = client" "hq_ProxyID q = P" using accepted(3) proxy by (auto simp: validateRequest_def check_def split: if_splits)
  let ?acc = "acceptance_for c (io_clock io) q" and ?subj = "clientSubject c client ''accepted''"
  let ?d = "new_delivery (ac_DeliveryID ?acc) acceptance_kind (hq_ClientID q) ?subj TypeAcceptance (marshal_acceptance ?acc)
      (Some (hq_RequestID q)) None None (io_now io)"
  have touch: "touches ds (db_deliveries (insert_delivery ?d x))" if "touches ds (db_deliveries x)" for ds x
    using touches_trans [OF that touches_insert [of ?d]] that by (simp add: insert_delivery_def)
  have "flow_db C P Q A (snd (AcceptHTTPRequest q ?acc ?subj (io_now io) db))"
  proof (cases "request_of (hq_RequestID q) db")
    case (Some r)
    have "carries db (snd (AcceptHTTPRequest q ?acc ?subj (io_now io) db))"
      using Some by (auto simp: AcceptHTTPRequest_def Let_def carries_iff intro!: touch touches_update)
    moreover have "lawful db (snd (AcceptHTTPRequest q ?acc ?subj (io_now io) db))"
      using AcceptHTTPRequest_lawful [OF q] by (simp add: acceptance_for_def accept_id_def)
    ultimately show ?thesis by (intro flow_db_carries [OF flow _ repo])
  next
    case None
    let ?x = "db\<lparr>db_requests := insert_row (new_request q (io_now io)) (db_requests db)\<rparr>"
    have eq: "snd (AcceptHTTPRequest q ?acc ?subj (io_now io) db) = insert_delivery ?d ?x" using None by (simp add: AcceptHTTPRequest_def Let_def)
    have rows: "request_of k (insert_delivery ?d ?x) = (if k = hq_RequestID q then Some (new_request q (io_now io)) else request_of k db)" for k
      using row_by_insert [of rq_request_id "new_request q (io_now io)" "db_requests db" k] None by simp
    have new: "\<exists>q' \<in> Q. unmarshal_http_request (rq_request (new_request q (io_now io))) = Some q'" if "client = C"
      using heard accepted(1,2) that q by (auto simp: http_request_decode)
    show ?thesis unfolding eq flow_db_def
    proof (intro conjI allI impI ballI)
      fix d assume d: "d \<in> set (db_deliveries (insert_delivery ?d ?x))" "dl_message_type d = TypeHTTPResult" "dl_subject d = subject_of C P"
      have "touches (db_deliveries db) (db_deliveries (insert_delivery ?d ?x))" by (rule touch) simp
      then obtain e where e: "e \<in> set (db_deliveries db)" "dl_message_type e = TypeHTTPResult" "dl_subject e = dl_subject d" "dl_payload e = dl_payload d"
        using d(1,2) unfolding touches_def by blast
      show "\<exists>r. dl_payload d = marshal_http_result r \<and> genuine Q A r" using flow_db_delivery [OF flow e(1,2)] e(3,4) d(3) by simp
    qed (use flow new ids rows in \<open>auto simp: flow_db_def split: if_splits\<close>)
  qed
  then show ?thesis unfolding handleRequest_accept [OF accepted] using flow by (simp add: db_call_def split: fault.split)
qed (use flow in simp)

text \<open>A new delivery of a result is genuine.\<close>

lemma flow_db_result:
  assumes flow: "flow_db C P Q A db" and law: "lawful db db'" and repo: "repo_inv db"
    and ids: "rq_request_id ` set (db_requests db') \<subseteq> rq_request_id ` set (db_requests db)"
    and new: "\<And>d. d \<in> set (db_deliveries db') \<Longrightarrow> d \<in> set (db_deliveries db)
       \<or> (dl_subject d = subject_of C P \<longrightarrow> (\<exists>r. dl_payload d = marshal_http_result r \<and> genuine Q A r))"
  shows "flow_db C P Q A db'"
  unfolding flow_db_def [of C P Q A db']
proof (intro conjI allI impI ballI)
  fix d assume "d \<in> set (db_deliveries db')" "dl_message_type d = TypeHTTPResult" "dl_subject d = subject_of C P"
  then show "\<exists>r. dl_payload d = marshal_http_result r \<and> genuine Q A r" using new [of d] flow_db_delivery [OF flow, of d] by blast
qed (use flow_db_rows [OF flow law repo ids] in auto)

lemma SaveHTTPResult_flow:
  assumes flow: "flow_db C P Q A db" and law: "lawful db (snd (SaveHTTPResult token client (results_subject cfg client) result now db))"
    and repo: "repo_inv db" and proxy: "cf_ProxyID cfg = P" and gen: "client = C \<Longrightarrow> genuine Q A result"
  shows "flow_db C P Q A (snd (SaveHTTPResult token client (results_subject cfg client) result now db))"
proof (rule flow_db_result [OF flow law repo])
  show "rq_request_id ` set (db_requests (snd (SaveHTTPResult token client (results_subject cfg client) result now db)))
      \<subseteq> rq_request_id ` set (db_requests db)"
    by (simp add: SaveHTTPResult_def Let_def ids_update split: option.split)
  have subj: "results_subject cfg client = subject_of C P \<longleftrightarrow> client = C" by (simp add: results_subject_def subject_of_def proxy)
  show "d \<in> set (db_deliveries db) \<or> (dl_subject d = subject_of C P \<longrightarrow> (\<exists>r. dl_payload d = marshal_http_result r \<and> genuine Q A r))"
    if "d \<in> set (db_deliveries (snd (SaveHTTPResult token client (results_subject cfg client) result now db)))" for d
    using that gen subj
    by (auto simp: SaveHTTPResult_def Let_def insert_delivery_def sql_simps split: option.splits if_splits)
qed

lemma recover_deliveries:
  assumes "d \<in> set (db_deliveries (fold (recover_dispatch clock now) rs db))"
  shows "d \<in> set (db_deliveries db) \<or> (\<exists>r \<in> set rs. dl_subject d = subject_of (rq_client_id r) (rq_proxy_id r)
    \<and> dl_payload d = marshal_http_result (unknown_result (clock (rq_request_id r)) r))"
  using assms
proof (induction rs arbitrary: db)
  case (Cons r rs)
  have "e \<in> set (db_deliveries db) \<or> dl_subject e = subject_of (rq_client_id r) (rq_proxy_id r)
      \<and> dl_payload e = marshal_http_result (unknown_result (clock (rq_request_id r)) r)"
    if "e \<in> set (db_deliveries (recover_dispatch clock now r db))" for e
    using that by (auto simp: recover_dispatch_def Let_def insert_delivery_def subject_of_def sql_simps split: if_splits)
  then show ?case using Cons.IH [of "recover_dispatch clock now r db"] Cons.prems by auto
qed simp

lemma Recover_flow:
  assumes flow: "flow_db C P Q A db" and repo: "repo_inv db"
  shows "flow_db C P Q A (snd (RecoverExpiredDispatches clock now db))"
proof (rule flow_db_result [OF flow RecoverExpiredDispatches_lawful repo])
  let ?db1 = "release_expired now db"
  let ?rs = "select_where (expired dispatching now) (db_requests ?db1)"
  have ids1: "rq_request_id ` set (db_requests ?db1) = rq_request_id ` set (db_requests db)"
    by (simp add: release_expired_def ids_update)
  have law1: "lawful db ?db1" by (rule release_expired_lawful)
  have ids: "rq_request_id ` set (db_requests (fold (recover_dispatch clock now) rs x)) = rq_request_id ` set (db_requests x)" for rs x
    by (induction rs arbitrary: x) (simp_all add: recover_dispatch_def Let_def ids_update)
  then show "rq_request_id ` set (db_requests (snd (RecoverExpiredDispatches clock now db))) \<subseteq> rq_request_id ` set (db_requests db)"
    by (simp add: RecoverExpiredDispatches_def Let_def ids1)
  have genuine: "genuine Q A (unknown_result t r)" if r: "r \<in> set ?rs" and own: "subject_of (rq_client_id r) (rq_proxy_id r) = subject_of C P" for r t
  proof -
    have repo1: "repo_inv ?db1" using law1 repo by (simp add: lawful_def)
    have "r \<in> set (db_requests ?db1)" using r by (simp add: sql_simps)
    then have row: "request_of (rq_request_id r) ?db1 = Some r" using row_by_of_mem [OF repo_invD(1) [OF repo1]] by simp
    note src = flow_db_rows [OF flow law1 repo equalityD1 [OF ids1] row]
    then have "rq_client_id r = C" using own by (simp add: subject_of_inj)
    then obtain q where q: "q \<in> Q" "unmarshal_http_request (rq_request r) = Some q" using src by blast
    obtain q' where q': "wf_http_request q'" "canon_http_request q' = q'" "rq_request r = marshal_http_request q'" "rq_request_id r = hq_RequestID q'"
      using repo_invD(3) [OF repo1 row] by (auto simp: stored_ok_def)
    then have "q' = q" using q(2) by (simp add: http_request_decode)
    then show ?thesis using q(1) q'(4) by (auto simp: genuine_def unknown_result_def)
  qed
  show "d \<in> set (db_deliveries db) \<or> (dl_subject d = subject_of C P \<longrightarrow> (\<exists>r. dl_payload d = marshal_http_result r \<and> genuine Q A r))"
    if "d \<in> set (db_deliveries (snd (RecoverExpiredDispatches clock now db)))" for d
    using recover_deliveries [of d clock now ?rs ?db1] that genuine
    by (auto simp: RecoverExpiredDispatches_def Let_def release_expired_def)
qed

subsection \<open>Workers\<close>

lemma flow_worker_next:
  assumes "flow_worker C Q A st0" "engaged st = None \<or> engaged st = engaged st0" "\<And>op p r. st \<noteq> Saving op p r"
  shows "flow_worker C Q A st"
  using flow_worker_engaged [OF assms(1)] assms(2,3) by (cases st) auto

lemma leave_carries: "carries db (snd (leave f permit db))"
  by (simp add: leave_def call_carries permit_carries)

lemma then_carries:
  assumes "carries db (snd (g db))" and "\<And>r db1. carries db db1 \<Longrightarrow> carries db (snd (k r db1))"
  shows "carries db (snd (case db_call f g db of (r, db1) \<Rightarrow> k r db1))"
  using call_carries [where g = g, OF assms(1), of f] assms(2) by (cases "db_call f g db") simp

lemma worker_carries:
  "carries db (snd (execute_acquire cfg url_parse f1 f2 entropy now op db))" "carries db (snd (execute_dispatch cfg f1 f2 now op permit db))"
  "carries db (snd (execute_retry f1 f2 now op permit reason next_at db))" "carries db (snd (run_reserve cfg f1 locked entropy now db))"
proof -
  have release: "carries db (snd (db_call f (ReleaseReserved rid token now) db1))" if "carries db db1" for db1 f rid token
    by (rule carries_trans [OF that call_carries]) (rule queue_carries)
  have leaves: "carries db (snd (leave f permit db1))" if "carries db db1" for db1 f
    by (rule carries_trans [OF that leave_carries])
  show "carries db (snd (execute_acquire cfg url_parse f1 f2 entropy now op db))"
    unfolding execute_acquire_def Let_def by (rule then_carries, rule permit_carries) (simp add: release split: sum.split)
  show "carries db (snd (execute_dispatch cfg f1 f2 now op permit db))"
    unfolding execute_dispatch_def by (rule then_carries, rule queue_carries) (simp add: leaves split: sum.split)
  show "carries db (snd (execute_retry f1 f2 now op permit reason next_at db))"
    unfolding execute_retry_def by (rule leaves, rule call_carries, rule queue_carries)
  show "carries db (snd (run_reserve cfg f1 locked entropy now db))"
    unfolding run_reserve_def by (rule then_carries, rule queue_carries) (simp split: sum.split)
qed

lemma run_reserve_flow:
  assumes flow: "flow_db C P Q A db" and repo: "repo_inv db"
  shows "flow_worker C Q A (fst (run_reserve cfg f locked entropy now db))"
proof (cases "db_call f (ReserveRequest (cf_DispatchLease cfg) locked entropy now) db")
  case (Pair r db1)
  show ?thesis
  proof (cases r)
    case (Inr op)
    then have res: "ReserveRequest (cf_DispatchLease cfg) locked entropy now db = (Inr op, db1)" using Pair by (auto simp: db_call_def split: fault.splits)
    then obtain r xs where r: "order_limit rq_created_at 1 (select_where (\<lambda>r. reservable now r \<and> \<not> contains locked (rq_request_id r)) (db_requests db)) = r # xs"
      and op: "unmarshal_struct http_request_fields (rq_request r) (zero_http_request\<lparr>hq_RequestID := rq_request_id r\<rparr>) = Some (op_Request op)"
      unfolding ReserveRequest_def by (auto split: list.splits option.splits simp: Let_def)
    have "r \<in> set (db_requests db)" using r order_limit_subset by (metis (no_types, lifting) list.set_intros(1) mem_Collect_eq set_select_where subset_iff)
    then have row: "request_of (rq_request_id r) db = Some r" using row_by_of_mem [OF repo_invD(1) [OF repo]] by simp
    obtain q where q: "wf_http_request q" "canon_http_request q = q" "rq_request r = marshal_http_request q" "rq_client_id r = hq_ClientID q"
      and read: "unmarshal_struct http_request_fields (rq_request r) (zero_http_request\<lparr>hq_RequestID := rq_request_id r\<rparr>) = Some q"
      by (rule stored_request [OF repo_invD(3) [OF repo row], of "rq_request_id r"]) (rule that; assumption)
    have op_q: "op_Request op = q" using op read by simp
    have "op_Request op \<in> Q" if "hq_ClientID (op_Request op) = C"
      using flow row that q unfolding op_q flow_db_def by (fastforce simp: http_request_decode)
    then show ?thesis using Pair Inr by (simp add: run_reserve_def)
  qed (use Pair in \<open>simp add: run_reserve_def\<close>)
qed

lemma execute_reply_flow:
  assumes "hq_ClientID (op_Request op) = C \<longrightarrow> op_Request op \<in> Q" "(op_Request op, outcome) \<in> A"
  shows "flow_worker C Q A (execute_reply cfg draw clock op permit outcome)"
proof (cases outcome)
  case (Inl e)
  then show ?thesis using assms
    by (auto simp: execute_reply_def Let_def genuine_def final_result_def split: option.split)
next
  case (Inr x)
  have "response_of x (final_result cfg op clock (x\<lparr>rs_State := ''http_completed''\<rparr>))" by (simp add: response_of_def final_result_def)
  moreover have "rs_RequestID (final_result cfg op clock (x\<lparr>rs_State := ''http_completed''\<rparr>)) = op_rid op" by (simp add: final_result_def)
  ultimately show ?thesis using assms Inr
    by (auto simp: execute_reply_def Let_def genuine_def split: option.split)
qed

subsection \<open>Messages\<close>

lemma handle_ack_carries:
  assumes "\<And>ack now db. carries db (snd (confirm ack now db))"
  shows "carries db (fst (handle_ack typ confirm c lib wl io data db))"
proof (cases "fst (handle_ack typ confirm c lib wl io data db) = db")
  case False
  then obtain ack where eq: "fst (handle_ack typ confirm c lib wl io data db) = snd (db_call (io_fault io) (confirm ack (io_now io)) db)"
    unfolding handle_ack_def by (auto split: sum.splits prod.splits if_splits) (metis snd_conv)+
  show ?thesis unfolding eq by (rule call_carries) (rule assms)
qed simp

lemma ack_confirmed_flow: "m \<in> set (ack_confirmed_msg c lib wl io client did) \<Longrightarrow> flow_msg C P Q A lib wl m"
  unfolding ack_confirmed_msg_def by (erule PublishRaw_flow) simp

lemma handle_ack_flow: "m \<in> set (snd (handle_ack typ confirm c lib wl io data db)) \<Longrightarrow> flow_msg C P Q A lib wl m"
  unfolding handle_ack_def by (auto split: sum.splits prod.splits if_splits intro: ack_confirmed_flow)

lemma handleRequest_msgs: "m \<in> set (snd (handleRequest c lib wl url_parse io data db)) \<Longrightarrow> flow_msg C P Q A lib wl m"
  unfolding handleRequest_def rejectRequest_def
  by (auto split: sum.splits prod.splits go_error.splits elim: PublishRaw_flow)

lemma delivery_turn_flow:
  assumes flow: "flow_db C P Q A db"
  shows "carries db (fst (delivery_turn c lib wl io f2 locked later db))
    \<and> (\<forall>m \<in> set (snd (delivery_turn c lib wl io f2 locked later db)). flow_msg C P Q A lib wl m)"
proof (cases "db_call (io_fault io) (ClaimDelivery 10000000000 locked (io_now io)) db")
  case (Pair r db1)
  have "carries db (snd (db_call (io_fault io) (ClaimDelivery 10000000000 locked (io_now io)) db))" by (rule call_carries) (rule queue_carries)
  then have c1: "carries db db1" using Pair by simp
  show ?thesis
  proof (cases r)
    case (Inl e)
    then show ?thesis using c1 Pair by (simp add: delivery_turn_def)
  next
    case (Inr d)
    have c2: "carries db (snd (db_call f2 (RescheduleDelivery (de_ID d) (tc_deliveryRetry c) later) db1))"
      by (rule carries_trans [OF c1 call_carries]) (rule queue_carries)
    have "ClaimDelivery 10000000000 locked (io_now io) db = (Inr d, db1)" using Pair Inr by (auto simp: db_call_def split: fault.splits)
    then obtain row xs where row: "order_limit dl_created_at 1 (select_where (\<lambda>d. claimable (io_now io) d \<and> \<not> contains locked (dl_delivery_id d)) (db_deliveries db)) = row # xs"
      and d: "de_Subject d = dl_subject row" "de_MessageType d = dl_message_type row" "de_Payload d = dl_payload row"
      unfolding ClaimDelivery_def by (auto split: list.splits)
    have "row \<in> set (select_where (\<lambda>d. claimable (io_now io) d \<and> \<not> contains locked (dl_delivery_id d)) (db_deliveries db))"
      by (rule subsetD [OF order_limit_subset [of dl_created_at 1]]) (simp only: row, simp)
    then have mem: "row \<in> set (db_deliveries db)" by (simp add: sql_simps)
    have "flow_msg C P Q A lib wl m" if "m \<in> set (snd (PublishRaw c lib wl io (de_Subject d) (de_MessageType d) (de_Payload d)))" for m
      by (rule PublishRaw_flow [OF that]) (use flow_db_delivery [OF flow mem] d in simp)
    then show ?thesis using Pair Inr c2 by (simp add: delivery_turn_def)
  qed
qed

lemma handleWebhookCommand_carries: "carries db (handleWebhookCommand c lib wl h io data db)"
proof -
  have "carries db (snd (db_call (io_fault io) (ApplyWebhookControl operation subject (io_now io)) db))" for operation subject
    by (rule call_carries) (rule control_carries)
  then show ?thesis unfolding handleWebhookCommand_def by (auto split: sum.split prod.split)
qed

lemma handleWebhookResponse_flow:
  assumes "handleWebhookResponse c lib wl io data db ws = (db', ws', msgs)"
  shows "carries db db' \<and> (\<forall>m \<in> set msgs. flow_msg C P Q A lib wl m)"
proof -
  have "carries db (snd (db_call (io_fault io) (SaveWebhookResponse response (io_now io)) db))" for response
    by (rule call_carries) (rule webhook_carries)
  then have "db' = db \<or> carries db db'"
    using assms unfolding handleWebhookResponse_def by (auto split: sum.splits prod.splits if_splits) (metis snd_conv)+
  moreover have "flow_msg C P Q A lib wl m" if "m \<in> set msgs" for m
    using assms that unfolding handleWebhookResponse_def by (auto split: sum.splits prod.splits if_splits intro: ack_confirmed_flow)
  ultimately show ?thesis by auto
qed

lemma event_types:
  assumes "SaveWebhookEvent event route subject reply rnd now db = (Inr ds, db')" "d \<in> set ds"
  shows "de_MessageType d = TypeWebhookEvent"
  using assms unfolding SaveWebhookEvent_def Let_def
  by (auto split: if_splits sum.splits simp: event_delivery_def Let_def)

lemma deliver_start_flow:
  assumes "deliver_start c lib wl io rnd event route db ws = (res, db', ws', msgs)"
  shows "carries db db' \<and> (\<forall>m \<in> set msgs. flow_msg C P Q A lib wl m)"
proof -
  let ?g = "SaveWebhookEvent (event\<lparr>ev_ProxyID := tc_proxyID c\<rparr>) route (\<lambda>clientID. clientSubject c clientID ''webhooks.events'') (webhookResponseSubject c) rnd (io_now io)"
  obtain r db1 where call: "db_call (io_fault io) ?g db = (r, db1)" by (cases "db_call (io_fault io) ?g db")
  have "carries db (snd (db_call (io_fault io) ?g db))" by (rule call_carries) (rule event_carries)
  then have "carries db db1" using call by simp
  moreover have "db' = db1" using assms call by (auto simp: deliver_start_def Let_def split: sum.splits if_splits)
  moreover have "flow_msg C P Q A lib wl m" if sent: "m \<in> set msgs" for m
  proof -
    obtain ds d where ds: "r = Inr ds" "find (\<lambda>d. de_ClientID d = ro_ResponderClientID route) ds = Some d"
      and m: "m \<in> set (snd (PublishRaw c lib wl io (de_Subject d) (de_MessageType d) (de_Payload d)))"
      using assms sent call by (auto simp: deliver_start_def Let_def split: sum.splits if_splits option.splits)
    have "?g db = (Inr ds, db1)" using call ds(1) by (auto simp: db_call_def split: fault.splits)
    moreover have "d \<in> set ds" using ds(2) by (auto simp: find_Some_iff)
    ultimately have "de_MessageType d = TypeWebhookEvent" by (rule event_types)
    then show ?thesis by (intro PublishRaw_flow [OF m]) simp
  qed
  ultimately show ?thesis by blast
qed

subsection \<open>Every step\<close>

fun event_answers :: "sys_event \<Rightarrow> (http_request \<times> http_result go_result) set" where
  "event_answers (Answered op outcome) = {(op_Request op, outcome)}"
| "event_answers _ = {}"

fun event_msgs :: "sys_event \<Rightarrow> nats_msg set" where
  "event_msgs (Handled p io data ms) = set ms"
| "event_msgs (Published ms) = set ms"
| "event_msgs _ = {}"

text \<open>What the proxy takes for a request of the client is one that the client has published.\<close>

definition hears :: "(nat \<Rightarrow> core) \<Rightarrow> crypto_lib \<Rightarrow> wire_lib \<Rightarrow> string \<Rightarrow> http_request set \<Rightarrow> sys_event \<Rightarrow> bool" where
  "hears cores lib wl C Q e \<longleftrightarrow> (\<forall>p io data ms payload q. e = Handled p io data ms \<longrightarrow>
     decode (cores p) lib wl (io_clock io) data TypeHTTPRequest = Inr (C, payload) \<longrightarrow>
     read_json wl unmarshal_http_request payload = Inr q \<longrightarrow> q \<in> Q)"

lemma flow_worker_update:
  assumes "\<And>w. flow_worker C Q A (ws w)" "flow_worker C Q A st"
  shows "flow_worker C Q A ((ws(w := st)) w')"
  using assms by simp

theorem sys_event_step_flow:
  assumes step: "sys_event_step cfg cores lib wl h url_parse s e s'" and inv: "sys_inv s" and flow: "flow_inv C P Q A s"
    and proxy: "\<And>p. tc_proxyID (cores p) = P" "cf_ProxyID cfg = P" and heard: "hears cores lib wl C Q e"
  shows "flow_inv C P Q (A \<union> event_answers e) s' \<and> (\<forall>m \<in> event_msgs e. flow_msg C P Q (A \<union> event_answers e) lib wl m)"
proof -
  have law: "lawful (sys_db s) (sys_db s')" by (rule sys_event_step_lawful [OF step inv])
  have repo: "repo_inv (sys_db s)" using inv by (simp add: sys_inv_def rows_inv_def)
  have db: "flow_db C P Q A (sys_db s)" and work: "\<And>w. flow_worker C Q A (sys_workers s w)" using flow by (simp_all add: flow_inv_def)
  have keep: "flow_inv C P Q A s'" if "carries (sys_db s) (sys_db s')" "\<And>w. flow_worker C Q A (sys_workers s' w)"
    using flow_db_carries [OF db law repo that(1)] that(2) by (simp add: flow_inv_def)
  have moves: "flow_worker C Q A (((sys_workers s)(w := st)) w')"
    if "engaged st = None \<or> engaged st = engaged (sys_workers s w)" "\<And>op p r. st \<noteq> Saving op p r" for w w' st
    using flow_worker_next [OF work [of w] that] work by simp
  have left: "fst (leave f permit x) = Idle" for f permit x by (simp add: leave_def)
  show ?thesis
    using step
  proof cases
    case (request p io data)
    have "flow_db C P Q A (sys_db s')" unfolding request(2)
      using handleRequest_flow [OF db repo proxy(1), of p lib wl io data url_parse] heard unfolding request(1) hears_def by simp
    then show ?thesis using work handleRequest_msgs unfolding request by (auto simp: flow_inv_def)
  next
    case (accepted_ack p io data)
    show ?thesis using keep handle_ack_carries [OF confirm_carries(1)] handle_ack_flow work
      unfolding accepted_ack handleAcceptanceACK_def by auto
  next
    case (result_ack p io data)
    show ?thesis using keep handle_ack_carries [OF confirm_carries(2)] handle_ack_flow work
      unfolding result_ack handleResultACK_def by auto
  next
    case (control_ack p io data)
    show ?thesis using keep handle_ack_carries [OF webhook_carries(1)] handle_ack_flow work
      unfolding control_ack handleWebhookControlACK_def ConfirmWebhookControl_def by auto
  next
    case (webhook_ack p io data)
    show ?thesis using keep handle_ack_carries [OF webhook_carries(1)] handle_ack_flow work
      unfolding webhook_ack handleWebhookACK_def ConfirmWebhook_def by auto
  next
    case (deliver p io f2 locked later)
    show ?thesis using keep delivery_turn_flow [OF db] work unfolding deliver by auto
  next
    case (reserve w entropy f locked now)
    have "flow_inv C P Q A s'"
      by (rule keep) (use run_reserve_flow [OF db repo] work worker_carries(4) in \<open>simp_all add: reserve(2) set_worker_def\<close>)
    then show ?thesis unfolding reserve(1) by simp
  next
    case (acquire w op f1 f2 entropy now)
    have "fst (execute_acquire cfg url_parse f1 f2 entropy now op (sys_db s)) = Idle
        \<or> (\<exists>permit. fst (execute_acquire cfg url_parse f1 f2 entropy now op (sys_db s)) = Permitted op permit)"
      by (auto simp: execute_acquire_def Let_def split: prod.split sum.split)
    then have "flow_inv C P Q A s'"
      using acquire(3) worker_carries(1) by (intro keep) (auto simp: acquire(2) set_worker_def simp del: fun_upd_apply intro!: moves)
    then show ?thesis unfolding acquire(1) by simp
  next
    case (dispatch w op permit r f1 f2 now)
    have "fst r = Idle \<or> fst r = Dispatched op permit" unfolding dispatch(4)
      by (auto simp: execute_dispatch_def left split: prod.split sum.split)
    moreover have "sys_db s' = snd r" "sys_workers s' = (sys_workers s)(w := fst r)" by (simp_all add: dispatch(2) set_worker_def)
    ultimately have "flow_inv C P Q A s'"
      using dispatch(3) worker_carries(2) by (intro keep) (auto simp: dispatch(4) simp del: fun_upd_apply intro!: moves)
    then show ?thesis unfolding dispatch(1) by simp
  next
    case (send w op permit)
    have "flow_inv C P Q A s'" using send(3) by (intro keep) (auto simp: send(2) simp del: fun_upd_apply intro!: moves)
    then show ?thesis unfolding send(1) by simp
  next
    case (unsent w op permit build e0 draw clock)
    let ?A = "insert (op_Request op, Inl e0) A"
    have "flow_worker C Q ?A (execute_reply cfg draw clock op permit (Inl e0))"
      by (rule execute_reply_flow) (use flow_worker_engaged [OF work, of w] unsent(3) in simp_all)
    then have "flow_inv C P Q ?A s'" using flow_mono [OF flow subset_refl, of ?A] unfolding unsent(2) flow_inv_def by auto
    then show ?thesis unfolding unsent(1) by simp
  next
    case (reply w op permit build net draw clock)
    let ?out = "Do build net (cf_MaxResponseBytes cfg) (op_Request op)"
    let ?A = "insert (op_Request op, ?out) A"
    have "flow_worker C Q ?A (execute_reply cfg draw clock op permit ?out)"
      by (rule execute_reply_flow) (use flow_worker_engaged [OF work, of w] reply(3) in simp_all)
    then have "flow_inv C P Q ?A s'" using flow_mono [OF flow subset_refl, of ?A] unfolding reply(2) flow_inv_def by auto
    then show ?thesis unfolding reply(1) by simp
  next
    case (publish w op permit result p io)
    have "flow_msg C P Q A lib wl m" if "m \<in> set (execute_publish (cores p) lib wl io op result)" for m
      using that unfolding execute_publish_def PublishHTTPResult_def
    proof (rule PublishRaw_flow)
      assume "clientSubject (cores p) (hq_ClientID (op_Request op)) ''results'' = subject_of C P"
      then have "hq_ClientID (op_Request op) = C" by (simp add: clientSubject_def subject_of_def proxy(1))
      then show "\<exists>r. marshal_http_result result = marshal_http_result r \<and> genuine Q A r" using work [of w] publish(3) by auto
    qed
    then show ?thesis using flow unfolding publish by simp
  next
    case (retry w op permit reason next_at f1 f2 now)
    have "flow_inv C P Q A s'"
      using worker_carries(3) by (intro keep) (auto simp: retry(2) set_worker_def execute_retry_def left simp del: fun_upd_apply intro!: moves)
    then show ?thesis unfolding retry(1) by simp
  next
    case (save w op permit result f1 f2 now)
    let ?g = "SaveHTTPResult (op_DispatchToken op) (hq_ClientID (op_Request op)) (results_subject cfg (hq_ClientID (op_Request op))) result now"
    have res: "rs_ResultID result = result_id (rs_RequestID result)" "rs_RequestID result = op_rid op"
      using worker_point [OF inv, of w] save(3) by simp_all
    have op: "op_inv (sys_tokens s) (sys_db s) op" by (rule worker_op [OF inv, of w]) (simp add: save(3))
    have law1: "lawful (sys_db s) (snd (?g (sys_db s)))"
      by (rule SaveHTTPResult_lawful [OF res(1)]) (use op res in \<open>auto simp: op_inv_def owned_def owner_ok_def sql_eq_iff\<close>)
    have flow1: "flow_db C P Q A (snd (?g (sys_db s)))"
      by (rule SaveHTTPResult_flow [OF db law1 repo proxy(2)]) (use work [of w] save(3) in simp)
    obtain r db1 where call: "db_call f1 ?g (sys_db s) = (r, db1)" by (cases "db_call f1 ?g (sys_db s)")
    have db1: "flow_db C P Q A db1" "repo_inv db1"
      using call flow1 law1 db repo by (auto simp: db_call_def lawful_def split: fault.splits)
    have left1: "flow_db C P Q A (snd (leave f2 permit db1))"
      by (rule flow_db_carries [OF db1(1) leave_lawful [OF lawful_refl] db1(2) leave_carries])
    have "flow_db C P Q A (snd (execute_save cfg f1 f2 now op permit result (sys_db s)))"
      using db1(1) left1 by (simp add: execute_save_def call split: sum.split)
    moreover have "flow_worker C Q A (fst (execute_save cfg f1 f2 now op permit result (sys_db s)))"
      using work [of w] save(3) by (simp add: execute_save_def call left split: sum.split)
    ultimately have "flow_inv C P Q A s'" using work by (simp add: save(2) set_worker_def flow_inv_def)
    then show ?thesis unfolding save(1) by simp
  next
    case (stop w op permit result f)
    have "flow_inv C P Q A s'"
      using leave_carries by (intro keep) (auto simp: stop(2) set_worker_def left simp del: fun_upd_apply intro!: moves)
    then show ?thesis unfolding stop(1) by simp
  next
    case (crash w p)
    have "flow_inv C P Q A s'" by (intro keep) (auto simp: crash(2) simp del: fun_upd_apply intro!: moves)
    then show ?thesis unfolding crash(1) by simp
  next
    case (recover f clock now)
    have "flow_db C P Q A (sys_db s')" using Recover_flow [OF db repo, of clock now] db unfolding recover(2)
      by (simp add: db_call_def split: fault.split)
    then show ?thesis using work unfolding recover by (simp add: flow_inv_def)
  next
    case (cleanup db' f before batch now)
    have "carries (sys_db s) db'" unfolding cleanup(3) by (rule call_carries) (rule cleanup_carries)
    then have "flow_inv C P Q A s'" using work by (intro keep) (simp_all add: cleanup(2))
    then show ?thesis unfolding cleanup(1) by simp
  next
    case (webhook_command p io data)
    have "flow_inv C P Q A s'" using handleWebhookCommand_carries work by (intro keep) (simp_all add: webhook_command(2))
    then show ?thesis unfolding webhook_command(1) by simp
  next
    case (webhook_response p io data db' ws' msgs)
    show ?thesis using keep handleWebhookResponse_flow [OF webhook_response(3)] work unfolding webhook_response(1,2) by simp
  next
    case (webhook_event p event io rnd route res db' ws' msgs)
    show ?thesis using keep deliver_start_flow [OF webhook_event(4)] work unfolding webhook_event(1,2) by simp
  next
    case (webhook_received eventID p response ws')
    have "flow_inv C P Q A s'" using work by (intro keep) (simp_all add: webhook_received(2))
    then show ?thesis unfolding webhook_received(1) by simp
  next
    case (webhook_timeout f now eventID p db' ws')
    have "carries (sys_db s) (snd (db_call f (MarkWebhookTimedOut eventID now) (sys_db s)))" by (rule call_carries) (rule webhook_carries)
    then have "carries (sys_db s) db'" using webhook_timeout(3) by (simp add: deliver_timeout_def)
    then have "flow_inv C P Q A s'" using work by (intro keep) (simp_all add: webhook_timeout(2))
    then show ?thesis unfolding webhook_timeout(1) by simp
  qed
qed

end
