(* ===== verification/Client_Flow.thy ===== *)
theory Client_Flow
  imports Client_System
begin

text \<open>
  Where the results of the client library come from: whatever holds of the results in the messages it
  hears holds of every result in its channels, in its store and in the outcomes it gives to its callers.
  Proved once for every store that keeps the contract.
\<close>

definition results_satisfy ::
  "string \<Rightarrow> ('s \<Rightarrow> operations_view) \<Rightarrow> (string \<Rightarrow> http_result \<Rightarrow> bool) \<Rightarrow> 's client_sys \<Rightarrow> bool" where
  "results_satisfy p view G y \<longleftrightarrow>
     (\<forall>i x r. view (cy_store y) (p, i) = Some x \<longrightarrow> so_Result x = Some r \<longrightarrow> G i r)
     \<and> (\<forall>i buf r. ct_results (cy_client y) i = Some buf \<longrightarrow> r \<in> set buf \<longrightarrow> G i (canon_http_result r))
     \<and> (\<forall>i out. (i, out) \<in> set (cy_outcomes y) \<longrightarrow> oo_err out = None \<longrightarrow> G i (canon_http_result (oo_result out)))"

lemma results_satisfy_mono:
  "results_satisfy p view G y \<Longrightarrow> (\<And>i r. G i r \<Longrightarrow> G' i r) \<Longrightarrow> results_satisfy p view G' y"
  unfolding results_satisfy_def by blast

definition heard_result :: "client_config \<Rightarrow> crypto_lib \<Rightarrow> wire_lib \<Rightarrow> (string \<Rightarrow> http_result \<Rightarrow> bool) \<Rightarrow> client_event \<Rightarrow> bool" where
  "heard_result cfg lib wl G e \<longleftrightarrow> (\<forall>clock data v. e = Heard clock data \<longrightarrow>
     client_decode cfg lib wl clock unmarshal_http_result TypeHTTPResult data = Inr v \<longrightarrow> G (rs_RequestID v) (canon_http_result v))"

text \<open>An outcome without an error is a known one, and the library publishes requests and confirmations.\<close>

definition known_outcomes :: "'s client_sys \<Rightarrow> bool" where
  "known_outcomes y \<longleftrightarrow> (\<forall>i out. (i, out) \<in> set (cy_outcomes y) \<longrightarrow> oo_err out = None \<longrightarrow> rs_State (oo_result out) \<noteq> ''unknown'')"

fun outgoing_msg :: "client_msg \<Rightarrow> bool" where
  "outgoing_msg (RequestMsg q) = True"
| "outgoing_msg (AckMsg subject typ ack) = (typ = TypeAcceptanceACK \<or> typ = TypeResultACK)"
| "outgoing_msg _ = False"

context client_store_retention begin

text \<open>What a change of the store does to the results in it.\<close>

definition results_from :: "string \<Rightarrow> (string \<Rightarrow> http_result \<Rightarrow> bool) \<Rightarrow> 's \<Rightarrow> bool" where
  "results_from p G s \<longleftrightarrow> (\<forall>i x r. view s (p, i) = Some x \<longrightarrow> so_Result x = Some r \<longrightarrow> G i r)"

lemma results_change:
  assumes "results_from p G s" "only (p, i) s s'"
    and "\<And>x r. view s' (p, i) = Some x \<Longrightarrow> so_Result x = Some r \<Longrightarrow> G i r"
  shows "results_from p G s'"
  using assms unfolding results_from_def only_def by (metis prod.inject)

lemma result_source:
  assumes "inv s" "plain_id p" "plain_result res" "db_call flt (result now p res) s = (r, s')" "view s (p, rs_RequestID res) = Some x"
    "so_State x \<noteq> StateComplete" "so_State x \<noteq> StateOutgoing" "view s' (p, rs_RequestID res) = Some x'"
  shows "so_Result x' = so_Result x \<or> so_Result x' = Some (canon_http_result res)"
proof -
  have c: "s' = s \<or> s' = snd (result now p res s)" using call_cases [OF assms(4)] by simp
  show ?thesis
  proof (cases "s' = s \<or> rs_ProxyID res \<noteq> p")
    case True
    then have "s' = s" using c result_foreign [OF assms(1-3)] by auto
    then show ?thesis using assms(5,8) by simp
  next
    case False
    then have "view s' = snd (spec_result p res (view s))" using c result_law [OF assms(1-3), of now] by (metis snd_conv)
    then show ?thesis using assms(5,8) by (auto simp: spec_result_def split: if_splits)
  qed
qed

lemma advance_simps [simp]:
  "cy_store (advance rid c (msgs, nxt, s') y) = s'"
  "cy_outcomes (advance rid c (msgs, nxt, s') y) = (case nxt of Inl out \<Rightarrow> (rid, out) # cy_outcomes y | Inr _ \<Rightarrow> cy_outcomes y)"
  by (simp_all add: advance_def Let_def split: sum.splits)

lemma advance_channels:
  assumes "ct_results (cy_client (advance rid c st y)) i = Some buf"
  shows "ct_results c i = Some buf"
proof -
  have "ct_results (listen ph c) = ct_results c" for ph by (simp add: listen_def split: option.splits)
  then show ?thesis using assms by (cases st) (auto simp: advance_def Let_def close_channels_def split: sum.splits if_splits)
qed

text \<open>The store after a step, and the channels after it.\<close>

lemma step_store:
  assumes step: "client_event_step api cfg lib wl y e y'" and ok: "sys_ok cfg y" "plain_id (cc_ProxyID cfg)"
    and sat: "results_satisfy (cc_ProxyID cfg) view G y"
  shows "results_from (cc_ProxyID cfg) G (cy_store y')"
proof -
  let ?P = "cc_ProxyID cfg" and ?s = "cy_store y"
  have from0: "results_from ?P G ?s" using sat by (simp add: results_satisfy_def results_from_def)
  have fromD: "G i r" if "view ?s (?P, i) = Some x" "so_Result x = Some r" for i x r
    using from0 that by (auto simp: results_from_def)
  have inv: "inv ?s" using sys_okD(1) [OF ok(1)] .
  have start: "results_from ?P G s" if "plain_request cfg q"
    "client_start api now flt lf q (\<lambda>rid. cy_runs y rid \<noteq> None) ?s = (ans, s)" for q now flt lf ans s
  proof (cases "hq_RequestID q = []")
    case True
    then show ?thesis using that from0 by (simp add: client_start_def)
  next
    case False
    obtain r s1 where call: "db_call flt (save now q) ?s = (r, s1)" by (cases "db_call flt (save now q) ?s")
    have s1: "s = s1" using that(2) False call by (auto simp: client_start_def api_def Let_def split: sum.splits if_splits client_state.splits option.splits)
    have "wf_http_request q" "hq_ProxyID q = ?P" using that(1) by (simp_all add: plain_request_def)
    then have "only (?P, hq_RequestID q) ?s s" "view s (?P, hq_RequestID q) = view ?s (?P, hq_RequestID q)
        \<or> view s (?P, hq_RequestID q) = Some (fresh_operation q)"
      using save_effect [OF inv _ _ call] ok(2) s1 by auto
    then show ?thesis by (intro results_change [OF from0]) (auto simp: fresh_operation_def dest: fromD)
  qed
  show ?thesis
    using step
  proof cases
    case (begin_run q now flt lf req s)
    then show ?thesis using start [OF begin_run(3,4)] by (simp add: execute_begin_def)
  next
    case (no_run q now flt lf ans s)
    then show ?thesis using start [OF no_run(3,4)] by simp
  next
    case (accepted rid req d acc rest c now flt)
    obtain x where x: "view ?s (?P, rid) = Some x" "so_State x \<noteq> StateComplete" "hq_RequestID req = rid" "hq_ProxyID req = ?P"
      using sys_okD(3) [OF ok(1) accepted(3)] by (auto simp: run_ok_def)
    obtain r s' where call: "db_call flt (accept now ?P rid) ?s = (r, s')" by (cases "db_call flt (accept now ?P rid) ?s")
    have "only (?P, rid) ?s s'" "\<And>x' r'. view s' (?P, rid) = Some x' \<Longrightarrow> so_Result x' = Some r' \<Longrightarrow> G rid r'"
      using accept_effect [OF inv ok(2) call x(1,2)] fromD [OF x(1)] by auto
    then have "results_from ?P G s'" by (rule results_change [OF from0])
    then show ?thesis using from0 call x(3,4) unfolding accepted(2)
      by (simp add: execute_accepted_def api_def Let_def split: sum.split)
  next
    case (result rid req r rest c now flt)
    have res: "plain_result r" "rs_RequestID r = rid" using sys_okD(4) [OF ok(1) result(4), of r] by simp_all
    obtain x where x: "view ?s (?P, rid) = Some x" "so_State x \<noteq> StateComplete" "so_State x \<noteq> StateOutgoing" "hq_ProxyID req = ?P"
      using sys_okD(3) [OF ok(1) result(3)] by (auto simp: run_ok_def)
    obtain r' s' where call: "db_call flt (result now ?P r) ?s = (r', s')" by (cases "db_call flt (result now ?P r) ?s")
    have "G rid (canon_http_result r)" using sat result(4) unfolding results_satisfy_def by auto
    then have "G rid r0" if "view s' (?P, rid) = Some x'" "so_Result x' = Some r0" for x' r0
      using result_source [OF inv ok(2) res(1) call, of x x'] x that fromD [OF x(1)] res(2) by auto
    moreover have "only (?P, rid) ?s s'" using result_effect [OF inv ok(2) res(1) call, of x] x res(2) by simp
    ultimately have "results_from ?P G s'" by (intro results_change [OF from0])
    then show ?thesis using call x(4) unfolding result(2) by (simp add: execute_result_def api_def Let_def split: sum.split)
  next
    case (confirmed rid ph d u rest now flt)
    from confirmed(4) consider (acc) q ack t where "ph = AckingAcceptance q ack t" | (res) q ack eff t where "ph = AckingResult q ack eff t"
      by (cases ph) simp_all
    then show ?thesis
    proof cases
      case acc
      then show ?thesis using from0 unfolding confirmed(2) by (simp add: execute_confirmed_def)
    next
      case res
      obtain x where x: "view ?s (?P, rid) = Some x" "hq_RequestID q = rid" "hq_ProxyID q = ?P"
        using sys_okD(3) [OF ok(1) confirmed(3)] res by (auto simp: run_ok_def)
      obtain r s' where call: "db_call flt (complete now ?P rid) ?s = (r, s')" by (cases "db_call flt (complete now ?P rid) ?s")
      have "only (?P, rid) ?s s'" "\<And>x' r'. view s' (?P, rid) = Some x' \<Longrightarrow> so_Result x' = Some r' \<Longrightarrow> G rid r'"
        using complete_effect [OF inv ok(2) call x(1)] fromD [OF x(1)] by auto
      then have "results_from ?P G s'" by (rule results_change [OF from0])
      then show ?thesis using call x(2,3) res unfolding confirmed(2) by (simp add: execute_confirmed_def api_def split: sum.split)
    qed
  next
    case (retention before batch)
    have law: "view (cleanup before batch ?s) k = view ?s k \<or> view (cleanup before batch ?s) k = None" for k
      using cleanup_law [OF inv, of before batch, THEN conjunct2, THEN spec, of k] by auto
    have "G i r" if "view (cleanup before batch ?s) (?P, i) = Some x" "so_Result x = Some r" for i x r
      using law [of "(?P, i)"] that fromD [of i x r] by auto
    then show ?thesis unfolding retention(2) results_from_def by (simp add: api_def)
  qed (use from0 in simp_all)
qed

lemma step_channels:
  assumes step: "client_event_step api cfg lib wl y e y'" and sat: "results_satisfy p view G y" and heard: "heard_result cfg lib wl G e"
    and buf: "ct_results (cy_client y') i = Some buf" "r \<in> set buf"
  shows "G i (canon_http_result r)"
proof -
  have old: "G i (canon_http_result r)" if "ct_results (cy_client y) i = Some b" "r \<in> set b" for b
    using sat that by (auto simp: results_satisfy_def)
  show ?thesis
    using step
  proof cases
    case (begin_run q now flt lf req s)
    have "ct_results (open_channels (hq_RequestID req) (cy_client y)) i = Some buf" using buf(1) unfolding begin_run(2) by (rule advance_channels)
    then show ?thesis using buf(2) old by (auto simp: open_channels_def split: if_splits)
  next
    case (accepted rid req d acc rest c now flt)
    have "ct_results c i = Some buf" using buf(1) unfolding accepted(2) by (rule advance_channels)
    then show ?thesis using old buf(2) by (simp add: accepted(5))
  next
    case (result rid req r0 rest c now flt)
    have "ct_results c i = Some buf" using buf(1) unfolding result(2) by (rule advance_channels)
    then show ?thesis using old buf(2) result(4) by (auto simp: result(5) split: if_splits)
  next
    case (confirmed rid ph d u rest now flt)
    have "ct_results (unlisten ph (cy_client y)) i = Some buf" using buf(1) unfolding confirmed(2) by (rule advance_channels)
    then show ?thesis using old buf(2) by simp
  next
    case (cancelled rid ph)
    have "ct_results (unlisten ph (cy_client y)) i = Some buf" using buf(1) unfolding cancelled(2) by (rule advance_channels)
    then show ?thesis using old buf(2) by simp
  next
    case (message c clock data)
    show ?thesis
    proof (cases "c = handleResult cfg lib wl clock data (cy_client y)")
      case True
      show ?thesis
      proof (cases "client_decode cfg lib wl clock unmarshal_http_result TypeHTTPResult data")
        case (Inl err)
        then show ?thesis using True old buf message(2) by (simp add: handleResult_def)
      next
        case (Inr v)
        then have "trySend 4 (rs_RequestID v) v (ct_results (cy_client y)) i = Some buf" using True buf(1) message(2) by (simp add: handleResult_def)
        then show ?thesis using trySend_at [OF _ buf(2)] old heard Inr message(1) by (fastforce simp: heard_result_def)
      qed
    next
      case False
      then have "ct_results c = ct_results (cy_client y)"
        using message(3) by (auto simp: handleAcceptance_def handleConfirmed_def handleControlResult_def split: sum.splits)
      then show ?thesis using old buf message(2) by simp
    qed
  qed (use old buf in \<open>simp_all add: no_channels_def\<close>)
qed

theorem client_event_step_results:
  assumes step: "client_event_step api cfg lib wl y e y'" and ok: "sys_ok cfg y" "plain_id (cc_ProxyID cfg)"
    and sat: "results_satisfy (cc_ProxyID cfg) view G y" and heard: "heard_result cfg lib wl G e"
  shows "results_satisfy (cc_ProxyID cfg) view G y'"
proof -
  have store: "results_from (cc_ProxyID cfg) G (cy_store y')" by (rule step_store [OF step ok sat])
  have new: "oo_err out = None \<Longrightarrow> cy_outcomes y' = (i, out) # cy_outcomes y \<Longrightarrow> G i (canon_http_result (oo_result out))" for i out
    using client_event_step_ok [OF step ok] store unfolding step_ok_def results_from_def by blast
  have grows: "cy_outcomes y' = cy_outcomes y \<or> (\<exists>i out. cy_outcomes y' = (i, out) # cy_outcomes y)"
    using step by cases (auto simp: execute_begin_def advance_def Let_def split: prod.splits sum.splits)
  have "G i (canon_http_result (oo_result out))" if "(i, out) \<in> set (cy_outcomes y')" "oo_err out = None" for i out
    using that grows new sat by (auto simp: results_satisfy_def)
  then show ?thesis using store step_channels [OF step sat heard] by (auto simp: results_satisfy_def results_from_def)
qed

lemma step_outcomes:
  fixes y :: "'s client_sys"
  assumes "client_event_step a cfg lib wl y e y'" "known_outcomes y"
  shows "known_outcomes y'"
proof -
  have out: "known_outcomes (advance rid c (msgs, nxt, s') y)" if "\<And>out. nxt = Inl out \<Longrightarrow> oo_err out = None \<Longrightarrow> rs_State (oo_result out) \<noteq> ''unknown''"
    for rid c msgs nxt and s' :: 's
    using assms(2) that by (auto simp: known_outcomes_def split: sum.splits)
  have run: "known_outcomes (advance rid c st y)" if "\<And>out. fst (snd st) = Inl out \<Longrightarrow> oo_err out = None \<Longrightarrow> rs_State (oo_result out) \<noteq> ''unknown''"
    for rid c and st :: "'s run_step"
    using out that by (cases st) auto
  show ?thesis
    using assms(1)
  proof cases
    case (begin_run q now flt lf req s)
    then show ?thesis by (auto simp: execute_begin_def intro!: run)
  next
    case (accepted rid req d acc rest c now flt)
    then show ?thesis
      by (auto simp: execute_accepted_def failed_run_def Let_def split: if_splits prod.splits sum.splits intro!: run)
  next
    case (result rid req r rest c now flt)
    then show ?thesis
      by (auto simp: execute_result_def failed_run_def Let_def split: if_splits prod.splits sum.splits intro!: run)
  next
    case (confirmed rid ph d u rest now flt)
    then show ?thesis
      by (auto simp: execute_confirmed_def failed_run_def stored_outcome_def split: op_phase.splits if_splits prod.splits sum.splits intro!: run)
  next
    case (cancelled rid ph)
    then show ?thesis by (auto simp: failed_run_def intro!: run)
  qed (use assms(2) in \<open>simp_all add: known_outcomes_def\<close>)
qed

lemma step_sent:
  fixes y :: "'s client_sys"
  assumes "client_event_step a cfg lib wl y e y'"
  shows "\<exists>msgs. cy_sent y' = cy_sent y @ msgs \<and> (\<forall>m \<in> set msgs. outgoing_msg m)"
proof -
  have run: "\<exists>ms. cy_sent (advance rid c st y) = cy_sent y @ ms \<and> (\<forall>m \<in> set ms. outgoing_msg m)" if "\<forall>m \<in> set (fst st). outgoing_msg m"
    for rid c and st :: "'s run_step"
    using that by (cases st) (auto simp: advance_def Let_def split: sum.splits)
  show ?thesis
    using assms
  proof cases
    case (begin_run q now flt lf req s)
    then show ?thesis by (auto simp: execute_begin_def intro!: run)
  next
    case (accepted rid req d acc rest c now flt)
    then show ?thesis by (auto simp: execute_accepted_def Let_def split: if_splits prod.splits sum.splits intro!: run)
  next
    case (result rid req r rest c now flt)
    then show ?thesis by (auto simp: execute_result_def Let_def split: if_splits prod.splits sum.splits intro!: run)
  next
    case (confirmed rid ph d u rest now flt)
    then show ?thesis by (auto simp: execute_confirmed_def split: op_phase.splits prod.splits sum.splits intro!: run)
  next
    case (timer rid ph msgs ph')
    then show ?thesis by (cases ph) (auto simp: execute_timer_def)
  next
    case (cancelled rid ph)
    then show ?thesis by (auto intro!: run)
  qed simp_all
qed

end

end
