(* ===== verification/Gateway_System.thy ===== *)
theory Gateway_System
  imports Message_Flow Client_Flow Client_Service
begin

text \<open>
  The proxy and one of its clients together: all processes of the proxy on their database, the client
  library on its store, and NATS between them, which loses, repeats, delays and reorders messages. Other
  clients, callers of callbacks and the targets of the HTTP calls are the environment.

  \<open>gw_down\<close> are the messages that the proxy has published; any of them may arrive at any time, any number of
  times, or never. What the client has published is in its own state (\<open>cy_sent\<close>). \<open>gw_answers\<close> records the
  outcomes of the HTTP calls, with the requests they were made for; it serves to state what is guaranteed.
\<close>

subsection \<open>States and steps\<close>

record 's gateway =
  gw_proxy :: sys
  gw_client :: "'s client_sys"
  gw_down :: "nats_msg set"
  gw_answers :: "(http_request \<times> http_result go_result) set"

text \<open>The bytes that \<^verbatim>\<open>publish\<close> of the client library sends for a message.\<close>

definition client_datagram :: "client_config \<Rightarrow> crypto_lib \<Rightarrow> wire_lib \<Rightarrow> client_msg \<Rightarrow> bytes \<Rightarrow> bool" where
  "client_datagram ccfg lib wl m data \<longleftrightarrow>
     (case client_msg_wire ccfg m of (subject, typ, payload) \<Rightarrow>
        \<exists>io. \<exists>msg \<in> set (snd (client_publish ccfg lib wl io subject typ payload)). nm_Data msg = data)"

text \<open>
  Messages come from whom they seem to come: if what arrives at the proxy passes its checks as a request or
  confirmation of the client, then the client has published it. This is what the signatures are for; without
  them it is what NATS has to ensure.
\<close>

definition authentic :: "client_config \<Rightarrow> (nat \<Rightarrow> core) \<Rightarrow> crypto_lib \<Rightarrow> wire_lib \<Rightarrow> client_msg list \<Rightarrow> sys_event \<Rightarrow> bool" where
  "authentic ccfg cores lib wl sent e \<longleftrightarrow> (\<forall>p io data ms payload typ. e = Handled p io data ms \<longrightarrow>
     decodeAny (cores p) lib wl (io_clock io) data = Inr (cc_ClientID ccfg, payload, typ) \<longrightarrow>
     typ \<in> {TypeHTTPRequest, TypeAcceptanceACK, TypeResultACK} \<longrightarrow>
     (\<exists>m \<in> set sent. client_datagram ccfg lib wl m data))"

definition gateway_init :: "('s \<Rightarrow> bool) \<Rightarrow> ('s \<Rightarrow> operations_view) \<Rightarrow> 's gateway \<Rightarrow> bool" where
  "gateway_init ok view g \<longleftrightarrow> sys_init (gw_proxy g) \<and> client_init ok view (gw_client g) \<and> view (cy_store (gw_client g)) = Map.empty
     \<and> cy_outcomes (gw_client g) = [] \<and> gw_down g = {} \<and> gw_answers g = {}"

inductive gateway_step ::
  "'s store_api \<Rightarrow> client_config \<Rightarrow> config \<Rightarrow> (nat \<Rightarrow> core) \<Rightarrow> crypto_lib \<Rightarrow> wire_lib \<Rightarrow> hash_lib \<Rightarrow> url_parser \<Rightarrow> 's gateway \<Rightarrow> 's gateway \<Rightarrow> bool"
  for api ccfg cfg cores lib wl h url_parse
where
  proxy: "sys_event_step cfg cores lib wl h url_parse (gw_proxy g) e s' \<Longrightarrow> authentic ccfg cores lib wl (cy_sent (gw_client g)) e \<Longrightarrow>
    gateway_step api ccfg cfg cores lib wl h url_parse g
      (g\<lparr>gw_proxy := s', gw_down := gw_down g \<union> event_msgs e, gw_answers := gw_answers g \<union> event_answers e\<rparr>)"
| client: "client_event_step api ccfg lib wl (gw_client g) Own y' \<Longrightarrow>
    gateway_step api ccfg cfg cores lib wl h url_parse g (g\<lparr>gw_client := y'\<rparr>)"
| hear: "m \<in> gw_down g \<Longrightarrow>
    gateway_step api ccfg cfg cores lib wl h url_parse g
      (g\<lparr>gw_client := (gw_client g)\<lparr>cy_client := client_receive ccfg lib wl clock m (cy_client (gw_client g))\<rparr>\<rparr>)"

text \<open>
  What is used of the encoding of messages: an envelope and a payload are read as they were written.
\<close>

definition faithful_wire :: "crypto_lib \<Rightarrow> wire_lib \<Rightarrow> bool" where
  "faithful_wire lib wl \<longleftrightarrow>
     (\<forall>entropy clock typ payload key. wl_env_parse wl (wl_env_text wl (NewEnvelope lib entropy clock typ payload key)) = Some (NewEnvelope lib entropy clock typ payload key))
     \<and> (\<forall>q. wl_parse wl (wl_text wl (marshal_http_request q)) = Some (marshal_http_request q))
     \<and> (\<forall>r. wl_parse wl (wl_text wl (marshal_http_result r)) = Some (marshal_http_result r))"

subsection \<open>What is read is what was written\<close>

lemma jstep_int_out: "\<not> in_int64 (get x) \<Longrightarrow> jstep (int_field n om get upd) x z = None"
  by (auto simp: jstep_def int_field_def dec_int_def in_int64_def)

lemma result_read:
  assumes "unmarshal_http_result (marshal_http_result r) = Some r'"
  shows "r' = canon_http_result r"
proof -
  have "wf_http_result r"
  proof (rule ccontr)
    assume bad: "\<not> wf_http_result r"
    have "unmarshal_http_result (marshal_http_result r) = None"
    proof (cases "in_int64 (rs_StatusCode r)")
      case True
      then have "\<not> in_int64 (rs_Attempts r)" using bad by (simp add: wf_http_result_def)
      with True show ?thesis
        by (simp add: unmarshal_http_result_def marshal_http_result_def unmarshal_marshal)
          (simp add: http_result_fields_def zero_http_result_def jsteps jstep_headers jstep_int_out)
    next
      case False
      then show ?thesis
        by (simp add: unmarshal_http_result_def marshal_http_result_def unmarshal_marshal)
          (simp add: http_result_fields_def zero_http_result_def jsteps jstep_headers jstep_int_out)
    qed
    then show False using assms by simp
  qed
  then show ?thesis using assms by (simp add: http_result_decode)
qed

lemma envelope_fields: "en_Type (NewEnvelope lib entropy clock typ payload key) = typ" "en_Payload (NewEnvelope lib entropy clock typ payload key) = payload"
  by (simp_all add: NewEnvelope_def Let_def)

text \<open>The requests of the client, as the proxy reads them.\<close>

definition asked :: "client_msg list \<Rightarrow> http_request set" where
  "asked sent = {q. \<exists>q0. RequestMsg q0 \<in> set sent \<and> unmarshal_http_request (marshal_http_request q0) = Some q}"

lemma asked_mono: "set sent \<subseteq> set sent' \<Longrightarrow> asked sent \<subseteq> asked sent'"
  by (auto simp: asked_def)

lemma outgoing_types:
  assumes "outgoing_msg m" "client_msg_wire ccfg m = (subject, TypeHTTPRequest, j)"
  shows "\<exists>q. m = RequestMsg q \<and> j = marshal_http_request q"
  using assms by (cases m)
    (auto simp: client_msg_wire_def TypeAcceptanceACK_def TypeResultACK_def TypeHTTPRequest_def TypeWebhookDelegatedResponse_def)

lemma authentic_hears:
  assumes wire: "faithful_wire lib wl" and auth: "authentic ccfg cores lib wl sent e" and sent: "\<forall>m \<in> set sent. outgoing_msg m"
  shows "hears cores lib wl (cc_ClientID ccfg) (asked sent) e"
  unfolding hears_def
proof (intro allI impI)
  fix p io data ms payload q
  assume e: "e = Handled p io data ms" and dec: "decode (cores p) lib wl (io_clock io) data TypeHTTPRequest = Inr (cc_ClientID ccfg, payload)"
    and read: "read_json wl unmarshal_http_request payload = Inr q"
  have raw: "decodeAny (cores p) lib wl (io_clock io) data = Inr (cc_ClientID ccfg, payload, TypeHTTPRequest)"
    using dec by (auto simp: decode_def go_try_eq_Inr check_def split: if_splits)
  then obtain m where m: "m \<in> set sent" "client_datagram ccfg lib wl m data" using auth e unfolding authentic_def by blast
  obtain subject ty j where w: "client_msg_wire ccfg m = (subject, ty, j)" by (cases "client_msg_wire ccfg m")
  have "\<exists>cio :: io. data = wl_env_text wl (NewEnvelope lib (io_entropy cio) (io_clock cio) ty (wl_text wl j) (cc_Signer ccfg))"
    using m(2) by (auto simp: client_datagram_def w client_publish_def Let_def split: if_splits)
  then obtain cio :: io where data: "data = wl_env_text wl (NewEnvelope lib (io_entropy cio) (io_clock cio) ty (wl_text wl j) (cc_Signer ccfg))" ..
  have "wl_env_parse wl data = Some (NewEnvelope lib (io_entropy cio) (io_clock cio) ty (wl_text wl j) (cc_Signer ccfg))"
    using wire by (simp add: data faithful_wire_def)
  then have fields: "ty = TypeHTTPRequest" "payload = wl_text wl j"
    using raw by (auto simp: decodeAny_def go_try_eq_Inr check_def envelope_fields split: if_splits)
  obtain q0 where q0: "m = RequestMsg q0" "j = marshal_http_request q0"
    using outgoing_types [of m ccfg subject j] sent m(1) w fields(1) by auto
  have "unmarshal_http_request (marshal_http_request q0) = Some q"
    using read wire by (auto simp: read_json_def fields(2) q0(2) faithful_wire_def split: option.splits)
  then show "q \<in> asked sent" using m(1) q0(1) by (auto simp: asked_def)
qed

text \<open>A message that arrives is given to at most one handler.\<close>

lemma own_handlers:
  "subject_handlers (client_subscriptions ccfg) (client_subject ccfg ''accepted'') = [OnAccepted]"
  "subject_handlers (client_subscriptions ccfg) (client_subject ccfg ''results'') = [OnResult]"
  "subject_handlers (client_subscriptions ccfg) (client_subject ccfg ''ack_confirmed'') = [OnConfirmed]"
  "subject_handlers (client_subscriptions ccfg) (client_subject ccfg ''webhooks.control_results'') = [OnControlResult]"
  by (simp_all add: subject_handlers_def client_subscriptions_def client_subject_def)

lemma client_receive_cases:
  "client_receive ccfg lib wl clock m c = c
   \<or> (\<exists>handler. client_receive ccfg lib wl clock m c = client_dispatch ccfg lib wl clock handler (nm_Data m) c
        \<and> (handler = OnResult \<longrightarrow> nm_Subject m = subject_of (cc_ClientID ccfg) (cc_ProxyID ccfg)))"
proof -
  have one: ?thesis if "subject_handlers (client_subscriptions ccfg) (nm_Subject m) = [handler]"
    "handler = OnResult \<longrightarrow> nm_Subject m = subject_of (cc_ClientID ccfg) (cc_ProxyID ccfg)" for handler
    using that by (auto simp: client_receive_def)
  have results: "client_subject ccfg ''results'' = subject_of (cc_ClientID ccfg) (cc_ProxyID ccfg)"
    by (simp add: client_subject_def subject_of_def)
  have none: "subject_handlers (client_subscriptions ccfg) (nm_Subject m) = []"
    if "nm_Subject m \<notin> {client_subject ccfg ''accepted'', client_subject ccfg ''results'', client_subject ccfg ''ack_confirmed'',
      client_subject ccfg ''webhooks.control_results''}"
    using that by (auto simp: subject_handlers_def client_subscriptions_def)
  consider "nm_Subject m = client_subject ccfg ''accepted''" | "nm_Subject m = client_subject ccfg ''results''"
    | "nm_Subject m = client_subject ccfg ''ack_confirmed''" | "nm_Subject m = client_subject ccfg ''webhooks.control_results''"
    | "subject_handlers (client_subscriptions ccfg) (nm_Subject m) = []"
    using none by blast
  then show ?thesis
    by cases (use one own_handlers [of ccfg] results in \<open>simp_all add: client_receive_def\<close>)
qed

subsection \<open>Where results come from\<close>

text \<open>The result that the client holds for an identifier is what it reads from a genuine result of the proxy.\<close>

definition traced :: "http_request set \<Rightarrow> (http_request \<times> http_result go_result) set \<Rightarrow> string \<Rightarrow> http_result \<Rightarrow> bool" where
  "traced Q A i r \<longleftrightarrow> (\<exists>r0. genuine Q A r0 \<and> i = coerce_utf8 (rs_RequestID r0) \<and> r = canon_http_result r0)"

lemma traced_mono: "traced Q A i r \<Longrightarrow> Q \<subseteq> Q' \<Longrightarrow> A \<subseteq> A' \<Longrightarrow> traced Q' A' i r"
  unfolding traced_def using genuine_mono by metis

lemma message_traced:
  assumes wire: "faithful_wire lib wl" and m: "flow_msg (cc_ClientID ccfg) (cc_ProxyID ccfg) Q A lib wl m"
    and subject: "nm_Subject m = subject_of (cc_ClientID ccfg) (cc_ProxyID ccfg)"
  shows "heard_result ccfg lib wl (traced Q A) (Heard clock (nm_Data m))"
  unfolding heard_result_def
proof (intro allI impI)
  fix clock' data v
  assume "Heard clock (nm_Data m) = Heard clock' data" and dec: "client_decode ccfg lib wl clock' unmarshal_http_result TypeHTTPResult data = Inr v"
  then have data: "data = nm_Data m" by simp
  obtain entropy t ty j k where data_text: "nm_Data m = wl_env_text wl (NewEnvelope lib entropy t ty (wl_text wl j) k)"
    and gen: "ty = TypeHTTPResult \<Longrightarrow> \<exists>r. j = marshal_http_result r \<and> genuine Q A r"
    using m subject unfolding flow_msg_def by blast
  have parse: "wl_env_parse wl data = Some (NewEnvelope lib entropy t ty (wl_text wl j) k)" using wire by (simp add: data data_text faithful_wire_def)
  have ty: "ty = TypeHTTPResult" and read: "read_json wl unmarshal_http_result (wl_text wl j) = Inr v"
    using dec by (auto simp: client_decode_def parse check_def envelope_fields go_try_eq_Inr split: if_splits)
  obtain r0 where r0: "j = marshal_http_result r0" "genuine Q A r0" using gen [OF ty] by blast
  have "unmarshal_http_result (marshal_http_result r0) = Some v"
    using read wire by (auto simp: read_json_def r0(1) faithful_wire_def split: option.splits)
  then have v: "v = canon_http_result r0" by (rule result_read)
  have "canon_http_result v = v" by (simp add: v canon_http_result_def)
  then show "traced Q A (rs_RequestID v) (canon_http_result v)"
    unfolding traced_def using r0(2) v by (intro exI [of _ r0]) (simp add: canon_http_result_def)
qed

subsection \<open>The invariant of the whole\<close>

lemma results_satisfy_same:
  "results_satisfy p view G y \<Longrightarrow> ct_results c = ct_results (cy_client y) \<Longrightarrow> results_satisfy p view G (y\<lparr>cy_client := c\<rparr>)"
  by (simp add: results_satisfy_def)

lemma other_handlers_results:
  "handler \<noteq> OnResult \<Longrightarrow> ct_results (client_dispatch ccfg lib wl clock handler data c) = ct_results c"
  by (cases handler) (auto simp: client_dispatch_def handleAcceptance_def handleConfirmed_def handleControlResult_def split: sum.split)

context client_store_retention begin

definition trace_inv :: "client_config \<Rightarrow> crypto_lib \<Rightarrow> wire_lib \<Rightarrow> 's gateway \<Rightarrow> bool" where
  "trace_inv ccfg lib wl g \<longleftrightarrow>
     (let y = gw_client g; C = cc_ClientID ccfg; P = cc_ProxyID ccfg; Q = asked (cy_sent y); A = gw_answers g in
      sys_inv (gw_proxy g) \<and> sys_ok ccfg y \<and> known_outcomes y \<and> (\<forall>m \<in> set (cy_sent y). outgoing_msg m)
      \<and> flow_inv C P Q A (gw_proxy g) \<and> (\<forall>m \<in> gw_down g. flow_msg C P Q A lib wl m)
      \<and> results_satisfy P view (traced Q A) y)"

lemma trace_init:
  assumes "gateway_init inv view g"
  shows "trace_inv ccfg lib wl g"
proof -
  have y: "client_init inv view (gw_client g)" "view (cy_store (gw_client g)) = Map.empty" "cy_outcomes (gw_client g) = []"
    and s: "sys_init (gw_proxy g)" and down: "gw_down g = {}" using assms by (simp_all add: gateway_init_def)
  have "flow_inv C P Q A (gw_proxy g)" for C P Q A
    using s by (simp add: sys_init_def flow_inv_def flow_db_def empty_db_def)
  then show ?thesis
    using y down sys_inv_init [OF s]
    by (auto simp: trace_inv_def Let_def client_init_def sys_ok_def known_outcomes_def results_satisfy_def no_channels_def)
qed

lemma trace_grows:
  assumes "trace_inv ccfg lib wl g" "set (cy_sent (gw_client g)) \<subseteq> set sent" "gw_answers g \<subseteq> A"
  shows "flow_inv (cc_ClientID ccfg) (cc_ProxyID ccfg) (asked sent) A (gw_proxy g)"
    "\<forall>m \<in> gw_down g. flow_msg (cc_ClientID ccfg) (cc_ProxyID ccfg) (asked sent) A lib wl m"
    "results_satisfy (cc_ProxyID ccfg) view (traced (asked sent) A) (gw_client g)"
proof -
  note Q = asked_mono [OF assms(2)]
  have inv: "flow_inv (cc_ClientID ccfg) (cc_ProxyID ccfg) (asked (cy_sent (gw_client g))) (gw_answers g) (gw_proxy g)"
    "\<forall>m \<in> gw_down g. flow_msg (cc_ClientID ccfg) (cc_ProxyID ccfg) (asked (cy_sent (gw_client g))) (gw_answers g) lib wl m"
    "results_satisfy (cc_ProxyID ccfg) view (traced (asked (cy_sent (gw_client g))) (gw_answers g)) (gw_client g)"
    using assms(1) by (simp_all add: trace_inv_def Let_def)
  show "flow_inv (cc_ClientID ccfg) (cc_ProxyID ccfg) (asked sent) A (gw_proxy g)"
    by (rule flow_mono [OF inv(1) Q assms(3)])
  show "\<forall>m \<in> gw_down g. flow_msg (cc_ClientID ccfg) (cc_ProxyID ccfg) (asked sent) A lib wl m"
    using inv(2) flow_msg_mono [OF _ Q assms(3)] by blast
  show "results_satisfy (cc_ProxyID ccfg) view (traced (asked sent) A) (gw_client g)"
    by (rule results_satisfy_mono [OF inv(3)]) (rule traced_mono [OF _ Q assms(3)])
qed

lemma proxy_step_trace:
  assumes inv: "trace_inv ccfg lib wl g" and wire: "faithful_wire lib wl"
    and proxies: "\<And>p. tc_proxyID (cores p) = cc_ProxyID ccfg" "cf_ProxyID cfg = cc_ProxyID ccfg"
    and step: "sys_event_step cfg cores lib wl h url_parse (gw_proxy g) e s'" and auth: "authentic ccfg cores lib wl (cy_sent (gw_client g)) e"
  shows "trace_inv ccfg lib wl (g\<lparr>gw_proxy := s', gw_down := gw_down g \<union> event_msgs e, gw_answers := gw_answers g \<union> event_answers e\<rparr>)"
proof -
  let ?Q = "asked (cy_sent (gw_client g))"
  have parts: "sys_inv (gw_proxy g)" "\<forall>m \<in> set (cy_sent (gw_client g)). outgoing_msg m"
    "flow_inv (cc_ClientID ccfg) (cc_ProxyID ccfg) ?Q (gw_answers g) (gw_proxy g)"
    using inv by (simp_all add: trace_inv_def Let_def)
  note flow = sys_event_step_flow [OF step parts(1,3) proxies authentic_hears [OF wire auth parts(2)]]
  note keep = trace_grows [OF inv subset_refl, of "gw_answers g \<union> event_answers e"]
  show ?thesis
    using inv flow keep sys_event_step_inv [OF step parts(1)] by (auto simp: trace_inv_def Let_def)
qed

lemma client_step_trace:
  assumes inv: "trace_inv ccfg lib wl g" and plain: "plain_id (cc_ProxyID ccfg)"
    and step: "client_event_step api ccfg lib wl (gw_client g) Own y'"
  shows "trace_inv ccfg lib wl (g\<lparr>gw_client := y'\<rparr>)"
proof -
  obtain msgs where sent: "cy_sent y' = cy_sent (gw_client g) @ msgs" "\<forall>m \<in> set msgs. outgoing_msg m"
    using step_sent [OF step] by blast
  have ok: "sys_ok ccfg (gw_client g)" and known: "known_outcomes (gw_client g)" using inv by (simp_all add: trace_inv_def Let_def)
  have "set (cy_sent (gw_client g)) \<subseteq> set (cy_sent y')" by (auto simp: sent(1))
  note keep = trace_grows [OF inv this subset_refl]
  have "sys_ok ccfg y'" using client_event_step_ok [OF step ok plain] by (simp add: step_ok_def)
  moreover have "results_satisfy (cc_ProxyID ccfg) view (traced (asked (cy_sent y')) (gw_answers g)) y'"
    by (rule client_event_step_results [OF step ok plain keep(3)]) (simp add: heard_result_def)
  ultimately show ?thesis
    using inv keep(1,2) sent step_outcomes [OF step known] by (auto simp: trace_inv_def Let_def)
qed

lemma hear_step_trace:
  assumes inv: "trace_inv ccfg lib wl g" and plain: "plain_id (cc_ProxyID ccfg)" and wire: "faithful_wire lib wl" and m: "m \<in> gw_down g"
  shows "trace_inv ccfg lib wl (g\<lparr>gw_client := (gw_client g)\<lparr>cy_client := client_receive ccfg lib wl clock m (cy_client (gw_client g))\<rparr>\<rparr>)"
proof -
  let ?y = "gw_client g" and ?c = "client_receive ccfg lib wl clock m (cy_client (gw_client g))"
  let ?G = "traced (asked (cy_sent ?y)) (gw_answers g)"
  have ok: "sys_ok ccfg ?y" and sat: "results_satisfy (cc_ProxyID ccfg) view ?G ?y"
    and msg: "flow_msg (cc_ClientID ccfg) (cc_ProxyID ccfg) (asked (cy_sent ?y)) (gw_answers g) lib wl m"
    using inv m by (simp_all add: trace_inv_def Let_def)
  have "sys_ok ccfg (?y\<lparr>cy_client := ?c\<rparr>) \<and> results_satisfy (cc_ProxyID ccfg) view ?G (?y\<lparr>cy_client := ?c\<rparr>)"
  proof (rule disjE [OF client_receive_cases [of ccfg lib wl clock m "cy_client ?y"]])
    assume "?c = cy_client ?y"
    then show ?thesis using ok sat by simp
  next
    assume "\<exists>handler. ?c = client_dispatch ccfg lib wl clock handler (nm_Data m) (cy_client ?y)
        \<and> (handler = OnResult \<longrightarrow> nm_Subject m = subject_of (cc_ClientID ccfg) (cc_ProxyID ccfg))"
    then obtain handler where c: "?c = client_dispatch ccfg lib wl clock handler (nm_Data m) (cy_client ?y)"
      and subj: "handler = OnResult \<Longrightarrow> nm_Subject m = subject_of (cc_ClientID ccfg) (cc_ProxyID ccfg)" by blast
    have step: "client_event_step api ccfg lib wl ?y (Heard clock (nm_Data m)) (?y\<lparr>cy_client := ?c\<rparr>)"
      by (rule client_event_step.message) (cases handler; simp add: c client_dispatch_def)
    have "results_satisfy (cc_ProxyID ccfg) view ?G (?y\<lparr>cy_client := ?c\<rparr>)"
    proof (cases "handler = OnResult")
      case True
      show ?thesis by (rule client_event_step_results [OF step ok plain sat]) (rule message_traced [OF wire msg subj [OF True]])
    next
      case False
      then show ?thesis unfolding c by (intro results_satisfy_same [OF sat] other_handlers_results)
    qed
    then show ?thesis using client_event_step_ok [OF step ok plain] by (simp add: step_ok_def)
  qed
  then show ?thesis using inv by (simp add: trace_inv_def Let_def known_outcomes_def)
qed

theorem gateway_trace:
  assumes "reach (gateway_init inv view) (gateway_step api ccfg cfg cores lib wl h url_parse) g"
    and "faithful_wire lib wl" "plain_id (cc_ProxyID ccfg)" "\<And>p. tc_proxyID (cores p) = cc_ProxyID ccfg" "cf_ProxyID cfg = cc_ProxyID ccfg"
  shows "trace_inv ccfg lib wl g"
  using assms(1)
proof (induction rule: reach.induct)
  case (start g)
  then show ?case by (rule trace_init)
next
  case (step g g')
  from step(2) show ?case
  proof cases
    case (proxy e s')
    show ?thesis unfolding proxy(1) by (rule proxy_step_trace [OF step(3) assms(2,4,5) proxy(2,3)])
  next
    case (client y')
    show ?thesis unfolding client(1) by (rule client_step_trace [OF step(3) assms(3) client(2)])
  next
    case (hear m clock)
    show ?thesis unfolding hear(1) by (rule hear_step_trace [OF step(3) assms(3,2) hear(2)])
  qed
qed

end

end
