(* ===== verification/Sample_Wire.thy ===== *)
theory Sample_Wire
  imports Transport_Core
begin

text \<open>
  A text form of documents and envelopes that is read as it was written. \<^verbatim>\<open>encoding/json\<close> is not modelled at
  the level of text; this stands for it where a concrete run of client and proxy is computed.
\<close>

subsection \<open>Strings and numbers\<close>

fun write_str :: "string \<Rightarrow> bytes" where
  "write_str [] = ''.''"
| "write_str (c # cs) = CHR ''+'' # c # write_str cs"

fun read_str :: "bytes \<Rightarrow> (string \<times> bytes) option" where
  "read_str (m # c # r) = (if m = CHR ''.'' then Some ([], c # r) else map_option (\<lambda>(s, r'). (c # s, r')) (read_str r))"
| "read_str [m] = (if m = CHR ''.'' then Some ([], []) else None)"
| "read_str [] = None"

lemma read_write_str: "read_str (write_str s @ r) = Some (s, r)"
proof (induction s)
  case Nil
  show ?case by (cases r) simp_all
qed simp

function write_bits :: "int \<Rightarrow> bytes" where
  "write_bits n = (if n \<le> 0 then ''.'' else (if n mod 2 = 1 then CHR ''1'' else CHR ''0'') # write_bits (n div 2))"
  by pat_completeness auto
termination
  by (relation "measure nat") auto

declare write_bits.simps [simp del]

fun read_bits :: "bytes \<Rightarrow> (int \<times> bytes) option" where
  "read_bits [] = None"
| "read_bits (c # r) =
     (if c = CHR ''.'' then Some (0, r)
      else map_option (\<lambda>(n, r'). (2 * n + (if c = CHR ''1'' then 1 else 0), r')) (read_bits r))"

lemma read_write_bits: "read_bits (write_bits n @ r) = Some (max 0 n, r)"
proof (induction n rule: write_bits.induct)
  case (1 n)
  show ?case
  proof (cases "n \<le> 0")
    case False
    then have "0 \<le> n div 2" by simp
    then show ?thesis using 1 False by (simp add: write_bits.simps [of n]) presburger
  qed (simp add: write_bits.simps [of n])
qed

definition write_int :: "int \<Rightarrow> bytes" where
  "write_int n = (if n < 0 then CHR ''-'' else CHR ''+'') # write_bits \<bar>n\<bar>"

definition read_int :: "bytes \<Rightarrow> (int \<times> bytes) option" where
  "read_int s = (case s of [] \<Rightarrow> None
     | c # r \<Rightarrow> map_option (\<lambda>(n, r'). (if c = CHR ''-'' then - n else n, r')) (read_bits r))"

lemma read_write_int: "read_int (write_int n @ r) = Some (n, r)"
  by (simp add: read_int_def write_int_def read_write_bits)

subsection \<open>Sequences\<close>

definition write_many :: "('a \<Rightarrow> bytes) \<Rightarrow> 'a list \<Rightarrow> bytes" where
  "write_many w xs = concat (map (\<lambda>x. CHR '','' # w x) xs) @ ''.''"

lemma write_many_cong [fundef_cong]:
  "xs = ys \<Longrightarrow> (\<And>x. x \<in> set ys \<Longrightarrow> w x = w' x) \<Longrightarrow> write_many w xs = write_many w' ys"
  by (simp add: write_many_def cong: map_cong)

primrec read_many :: "(bytes \<Rightarrow> ('a \<times> bytes) option) \<Rightarrow> nat \<Rightarrow> bytes \<Rightarrow> ('a list \<times> bytes) option" where
  "read_many f 0 s = None"
| "read_many f (Suc k) s =
     (case s of [] \<Rightarrow> None
      | c # r \<Rightarrow> if c = CHR ''.'' then Some ([], r)
                 else case f r of None \<Rightarrow> None
                      | Some (x, r') \<Rightarrow> map_option (\<lambda>(xs, r''). (x # xs, r'')) (read_many f k r'))"

lemma read_write_many:
  assumes "\<And>x r. x \<in> set xs \<Longrightarrow> f (w x @ r) = Some (x, r)" "length xs < k"
  shows "read_many f k (write_many w xs @ r) = Some (xs, r)"
  using assms
proof (induction xs arbitrary: k)
  case Nil
  then show ?case by (cases k) (simp_all add: write_many_def)
next
  case (Cons x xs)
  obtain l where k: "k = Suc l" using Cons.prems(2) by (cases k) simp_all
  have "read_many f l (write_many w xs @ r) = Some (xs, r)" using Cons by (simp add: k)
  moreover have "f (w x @ write_many w xs @ r) = Some (x, write_many w xs @ r)" using Cons.prems(1) by simp
  ultimately show ?case by (simp add: k write_many_def)
qed

lemma length_write_many: "length xs < length (write_many w xs)"
  by (induction xs) (simp_all add: write_many_def)

lemma length_write_item: "x \<in> set xs \<Longrightarrow> length (w x) < length (write_many w xs)"
  by (induction xs) (auto simp: write_many_def)

subsection \<open>Documents\<close>

fun write_json :: "json \<Rightarrow> bytes" where
  "write_json JNull = ''n''"
| "write_json (JBool b) = (if b then ''t'' else ''f'')"
| "write_json (JNum n) = CHR ''i'' # write_int n"
| "write_json (JStr s) = CHR ''s'' # write_str s"
| "write_json (JTime t) = CHR ''m'' # write_int t"
| "write_json (JArr xs) = CHR ''a'' # write_many write_json xs"
| "write_json (JObj ms) = CHR ''o'' # write_many (\<lambda>(k, v). write_str k @ write_json v) ms"

primrec read_json_text :: "nat \<Rightarrow> bytes \<Rightarrow> (json \<times> bytes) option" where
  "read_json_text 0 s = None"
| "read_json_text (Suc n) s =
     (case s of [] \<Rightarrow> None
      | c # r \<Rightarrow>
          if c = CHR ''n'' then Some (JNull, r)
          else if c = CHR ''t'' then Some (JBool True, r)
          else if c = CHR ''f'' then Some (JBool False, r)
          else if c = CHR ''i'' then map_option (apfst JNum) (read_int r)
          else if c = CHR ''s'' then map_option (apfst JStr) (read_str r)
          else if c = CHR ''m'' then map_option (apfst JTime) (read_int r)
          else if c = CHR ''a'' then map_option (apfst JArr) (read_many (read_json_text n) (length r) r)
          else map_option (apfst JObj) (read_many
                 (\<lambda>r1. case read_str r1 of None \<Rightarrow> None
                       | Some (k, r2) \<Rightarrow> map_option (apfst (Pair k)) (read_json_text n r2)) (length r) r))"

lemma read_write_json: "length (write_json j) \<le> n \<Longrightarrow> read_json_text n (write_json j @ r) = Some (j, r)"
proof (induction j arbitrary: n r)
  case (JArr xs)
  obtain l where n: "n = Suc l" using JArr.prems by (cases n) simp_all
  have "read_json_text l (write_json x @ r') = Some (x, r')" if "x \<in> set xs" for x r'
    using JArr.IH [OF that, of l r'] JArr.prems length_write_item [OF that, of write_json] by (simp add: n)
  then have "read_many (read_json_text l) (length (write_many write_json xs @ r)) (write_many write_json xs @ r) = Some (xs, r)"
    by (rule read_write_many) (use length_write_many [of xs write_json] in simp_all)
  then show ?case by (simp add: n)
next
  case (JObj ms)
  obtain l where n: "n = Suc l" using JObj.prems by (cases n) simp_all
  let ?w = "\<lambda>(k, v). write_str k @ write_json v"
  let ?f = "\<lambda>r1. case read_str r1 of None \<Rightarrow> None | Some (k, r2) \<Rightarrow> map_option (apfst (Pair k)) (read_json_text l r2)"
  have "?f (?w x @ r') = Some (x, r')" if x: "x \<in> set ms" for x r'
  proof -
    obtain k v where kv: "x = (k, v)" by (cases x)
    have "length (write_json v) \<le> l" using JObj.prems length_write_item [OF x, of ?w] by (simp add: n kv)
    then have "read_json_text l (write_json v @ r') = Some (v, r')" using JObj.IH [of x v l r'] x by (simp add: kv)
    then show ?thesis by (simp add: kv read_write_str)
  qed
  then have "read_many ?f (length (write_many ?w ms @ r)) (write_many ?w ms @ r) = Some (ms, r)"
    by (rule read_write_many) (use length_write_many [of ms ?w] in simp_all)
  then show ?case by (simp add: n)
next
  case JNull
  then show ?case by (cases n) simp_all
next
  case (JBool b)
  then show ?case by (cases n) (simp_all split: if_splits)
next
  case (JNum m)
  then show ?case by (cases n) (simp_all add: read_write_int)
next
  case (JStr s)
  then show ?case by (cases n) (simp_all add: read_write_str)
next
  case (JTime t)
  then show ?case by (cases n) (simp_all add: read_write_int)
qed

subsection \<open>Messages\<close>

definition read_document :: "bytes \<Rightarrow> json option" where
  "read_document s = (case read_json_text (length s) s of Some (j, []) \<Rightarrow> Some j | _ \<Rightarrow> None)"

definition write_envelope :: "envelope \<Rightarrow> bytes" where
  "write_envelope e = write_str (en_ID e) @ write_str (en_Type e) @ write_int (en_Timestamp e) @ write_str (en_Payload e)
     @ write_str (en_KeyID e) @ write_str (en_Signature e)"

definition read_envelope :: "bytes \<Rightarrow> envelope option" where
  "read_envelope s =
     (case read_str s of None \<Rightarrow> None | Some (i, s) \<Rightarrow>
      case read_str s of None \<Rightarrow> None | Some (t, s) \<Rightarrow>
      case read_int s of None \<Rightarrow> None | Some (n, s) \<Rightarrow>
      case read_str s of None \<Rightarrow> None | Some (p, s) \<Rightarrow>
      case read_str s of None \<Rightarrow> None | Some (k, s) \<Rightarrow>
      case read_str s of None \<Rightarrow> None | Some (g, s) \<Rightarrow>
        Some \<lparr>en_ID = i, en_Type = t, en_Timestamp = n, en_Payload = p, en_KeyID = k, en_Signature = g\<rparr>)"

text \<open>What is in a dictionary is written as its position there.\<close>

primrec write_known :: "('a \<Rightarrow> bytes) \<Rightarrow> 'a list \<Rightarrow> 'a \<Rightarrow> bytes" where
  "write_known w [] x = CHR ''x'' # w x"
| "write_known w (d # ds) x = (if x = d then ''.'' else CHR ''+'' # write_known w ds x)"

primrec read_known :: "(bytes \<Rightarrow> 'a option) \<Rightarrow> 'a list \<Rightarrow> bytes \<Rightarrow> 'a option" where
  "read_known f [] s = (case s of [] \<Rightarrow> None | c # r \<Rightarrow> f r)"
| "read_known f (d # ds) s = (case s of [] \<Rightarrow> None | c # r \<Rightarrow> if c = CHR ''.'' then Some d else read_known f ds r)"

lemma read_write_known: "(\<And>x. f (w x) = Some x) \<Longrightarrow> read_known f ds (write_known w ds x) = Some x"
  by (induction ds) simp_all

definition sample_text :: "envelope list \<Rightarrow> json list \<Rightarrow> wire_lib" where
  "sample_text es ds = \<lparr>wl_env_parse = read_known read_envelope es, wl_env_text = write_known write_envelope es,
     wl_parse = read_known read_document ds, wl_text = write_known write_json ds\<rparr>"

lemma read_write_document: "read_document (write_json j) = Some j"
  using read_write_json [of j "length (write_json j)" "[]"] by (simp add: read_document_def)

lemma read_write_envelope: "read_envelope (write_envelope e) = Some e"
  using read_write_str [of "en_Signature e" "[]"]
  by (simp add: read_envelope_def write_envelope_def read_write_str read_write_int)

lemma sample_text_faithful:
  "wl_env_parse (sample_text es ds) (wl_env_text (sample_text es ds) e) = Some e"
  "wl_parse (sample_text es ds) (wl_text (sample_text es ds) j) = Some j"
  by (simp_all add: sample_text_def read_write_known read_write_document read_write_envelope)

end
