(* ===== verification/Gateway_Run.thy ===== *)
theory Gateway_Run
  imports Gateway_System Gateway_Demo Sample_Wire
begin

text \<open>
  A whole exchange between a client and the proxy, computed: moves that pick one step each of the joint
  system, a function that plays them, and the proof that all it plays are steps.
\<close>

definition run_client :: client_config where
  "run_client = \<lparr>cc_ClientID = ''shop'', cc_ProxyID = ''p1'', cc_Signer = [], cc_ProxyPublicKey = [], cc_RequireProxySignature = False,
     cc_RetryInterval = 1000000000, cc_MaxRetryInterval = 30000000000, cc_Retention = 1, cc_CleanupInterval = 1, cc_CallbackWorkers = 8\<rparr>"

text \<open>The proxy of \<open>Gateway_Demo\<close>, with a small bound on responses, which are counted when they are read.\<close>

definition run_config :: config where
  "run_config = demo_config\<lparr>cf_MaxResponseBytes := 64\<rparr>"

text \<open>The messages of the exchange, for the dictionaries of its text form.\<close>

definition run_docs :: "json list" where
  "run_docs =
     [JObj [(''request_id'', JStr ''r1''), (''delivery_id'', JStr ''accept_r1''), (''client_id'', JStr ''shop'')],
      JObj [(''delivery_id'', JStr ''accept_r1''), (''confirmed_at'', JTime 600000)],
      JObj [(''request_id'', JStr ''r1''), (''delivery_id'', JStr ''accept_r1''), (''proxy_id'', JStr ''p1''), (''accepted'', JBool True),
        (''accepted_at'', JTime 200000)],
      JObj [(''request_id'', JStr ''r1''), (''delivery_id'', JStr ''result_r1''), (''client_id'', JStr ''shop'')],
      JObj [(''delivery_id'', JStr ''result_r1''), (''confirmed_at'', JTime 1800000)],
      JObj [(''result_id'', JStr ''result_r1''), (''request_id'', JStr ''r1''), (''proxy_id'', JStr ''p1''), (''state'', JStr ''http_completed''),
        (''status_code'', JNum 201), (''headers'', JArr [JObj [(''name'', JStr ''Server''), (''value'', JStr ''bank'')]]), (''body'', JStr ''MSE=''),
        (''attempts'', JNum 1), (''completed_at'', JTime 1300000)],
      JObj [(''request_id'', JStr ''r1''), (''client_id'', JStr ''shop''), (''proxy_id'', JStr ''p1''), (''method'', JStr ''POST''),
        (''url'', JStr ''http://bank/pay''), (''body'', JStr ''MQ==''),
        (''retry'', JObj [(''max_attempts'', JNum 0), (''initial_backoff'', JNum 0), (''max_backoff'', JNum 0),
           (''retry_network_fail'', JBool False), (''idempotent'', JBool False)]),
        (''created_at'', JTime 0)]]"

definition run_envelope :: "go_time \<Rightarrow> string \<Rightarrow> bytes \<Rightarrow> envelope" where
  "run_envelope t kind payload = \<lparr>en_ID = ''bQ'', en_Type = kind, en_Timestamp = t, en_Payload = payload, en_KeyID = [], en_Signature = []\<rparr>"

definition run_envelopes :: "envelope list" where
  "run_envelopes =
     [run_envelope 200000 TypeHTTPRequest ''++++++.'', run_envelope 300000 TypeAcceptance ''++.'', run_envelope 600000 TypeAcceptanceACK ''.'',
      run_envelope 600000 TypeACKConfirmed ''+.'', run_envelope 1500000 TypeHTTPResult ''+++++.'', run_envelope 1800000 TypeResultACK ''+++.'', run_envelope 1800000 TypeACKConfirmed ''++++.'']"

definition run_text :: wire_lib where
  "run_text = sample_text run_envelopes run_docs"

abbreviation run_step :: "client_db gateway \<Rightarrow> client_db gateway \<Rightarrow> bool" where
  "run_step \<equiv> gateway_step pg_api run_client run_config (\<lambda>_. demo_core) demo_crypto run_text demo_hash demo_url"

text \<open>The target that the proxy calls.\<close>

definition run_target :: "http_call \<Rightarrow> http_response go_result" where
  "run_target call = Inr \<lparr>hr_StatusCode = 201, hr_Header = [(''Server'', [''bank''])], hr_Body = hc_Body call @ ''!'', hr_broken = False\<rparr>"

definition run_io :: "nat \<Rightarrow> io" where
  "run_io t = \<lparr>io_now = int t, io_clock = 1000 * int t, io_entropy = ''m'', io_fault = NoFault, io_published = True\<rparr>"

datatype move =
    Ask http_request
  | Take_acceptance string
  | Take_confirmation string
  | Take_result string
  | Receive nat
  | Request_arrives nat
  | Acceptance_ack_arrives nat
  | Result_ack_arrives nat
  | Deliver
  | Work bytes

definition datagram :: "nat \<Rightarrow> client_msg \<Rightarrow> bytes" where
  "datagram t m = (case client_msg_wire run_client m of (subject, typ, payload) \<Rightarrow>
     wl_env_text run_text (NewEnvelope demo_crypto (io_entropy (run_io t)) (io_clock (run_io t)) typ (wl_text run_text payload) (cc_Signer run_client)))"

record play_state =
  pl_db :: proxy_db
  pl_worker :: worker_state
  pl_tokens :: "string list"
  pl_begun :: "(string \<times> string) list"
  pl_calls :: "(string \<times> string) list"
  pl_client :: "client_db client_sys"
  pl_down :: "nats_msg list"
  pl_answers :: "(http_request \<times> http_result go_result) list"

definition played_proxy :: "play_state \<Rightarrow> sys" where
  "played_proxy st = \<lparr>sys_db = pl_db st, sys_workers = (\<lambda>_. Idle)(0 := pl_worker st), sys_waiters = (\<lambda>_. Map.empty),
     sys_tokens = set (pl_tokens st), sys_begun = pl_begun st, sys_calls = pl_calls st\<rparr>"

definition played :: "play_state \<Rightarrow> client_db gateway" where
  "played st = \<lparr>gw_proxy = played_proxy st, gw_client = pl_client st, gw_down = set (pl_down st), gw_answers = set (pl_answers st)\<rparr>"

definition handled :: "proxy_db \<times> nats_msg list \<Rightarrow> play_state \<Rightarrow> play_state" where
  "handled r st = st\<lparr>pl_db := fst r, pl_down := pl_down st @ snd r\<rparr>"

definition worked :: "worker_state \<times> proxy_db \<Rightarrow> play_state \<Rightarrow> play_state" where
  "worked r st = st\<lparr>pl_worker := fst r, pl_db := snd r\<rparr>"

definition work :: "nat \<Rightarrow> bytes \<Rightarrow> play_state \<Rightarrow> play_state option" where
  "work t entropy st = (case pl_worker st of
     Idle \<Rightarrow> if List.member (pl_tokens st) (randomID entropy) then None
       else Some (worked (run_reserve run_config NoFault [] entropy (int t) (pl_db st)) (st\<lparr>pl_tokens := randomID entropy # pl_tokens st\<rparr>))
   | Reserved op \<Rightarrow> Some (worked (execute_acquire run_config demo_url NoFault NoFault entropy (int t) op (pl_db st)) st)
   | Permitted op permit \<Rightarrow>
       (let r = execute_dispatch run_config NoFault NoFault (int t) op permit (pl_db st)
        in Some (worked r (if fst r = Dispatched op permit then st\<lparr>pl_begun := (op_rid op, op_DispatchToken op) # pl_begun st\<rparr> else st)))
   | Dispatched op permit \<Rightarrow>
       Some (st\<lparr>pl_worker := InFlight op permit, pl_calls := (op_rid op, op_DispatchToken op) # pl_calls st\<rparr>)
   | InFlight op permit \<Rightarrow>
       (let out = Do (\<lambda>_ _. Inr ''bank'') run_target (cf_MaxResponseBytes run_config) (op_Request op)
        in Some (st\<lparr>pl_worker := execute_reply run_config (\<lambda>_. 0) (1000 * int t) op permit out, pl_answers := (op_Request op, out) # pl_answers st\<rparr>))
   | Saving op permit result \<Rightarrow> Some (worked (execute_save run_config NoFault NoFault (int t) op permit result (pl_db st)) st)
   | _ \<Rightarrow> None)"

definition client_moves :: "client_db client_sys \<Rightarrow> play_state \<Rightarrow> play_state option" where
  "client_moves y st = Some (st\<lparr>pl_client := y\<rparr>)"

definition take_client :: "nat \<Rightarrow> move \<Rightarrow> play_state \<Rightarrow> play_state option" where
  "take_client t mv st = (let y = pl_client st; c = cy_client y in
     case mv of
       Ask q \<Rightarrow>
         if plain_request run_client q
         then (case client_start pg_api (int t) NoFault False q (\<lambda>rid. cy_runs y rid \<noteq> None) (cy_store y) of
                 (Begun req, s) \<Rightarrow> client_moves (advance (hq_RequestID req) (open_channels (hq_RequestID req) c) (execute_begin run_client req s) y) st
               | _ \<Rightarrow> None)
         else None
     | Take_acceptance rid \<Rightarrow>
         (case (cy_runs y rid, ct_acceptance c rid) of
            (Some (Requesting req d), Some (acc # rest)) \<Rightarrow>
              client_moves (advance rid (c\<lparr>ct_acceptance := (ct_acceptance c)(rid \<mapsto> rest)\<rparr>)
                (execute_accepted pg_api run_client (int t) NoFault req d acc (cy_store y)) y) st
          | _ \<Rightarrow> None)
     | Take_result rid \<Rightarrow>
         (case (cy_runs y rid, ct_results c rid) of
            (Some (AwaitingResult req), Some (r # rest)) \<Rightarrow>
              client_moves (advance rid (c\<lparr>ct_results := (ct_results c)(rid \<mapsto> rest)\<rparr>)
                (execute_result pg_api run_client (int t) NoFault req r (cy_store y)) y) st
          | _ \<Rightarrow> None)
     | Take_confirmation rid \<Rightarrow>
         (case cy_runs y rid of
            Some ph \<Rightarrow> (case phase_delivery ph of
               Some d \<Rightarrow> (case ct_confirmed c d of
                  Some (u # rest) \<Rightarrow> client_moves (advance rid (unlisten ph c) (execute_confirmed pg_api (int t) NoFault ph (cy_store y)) y) st
                | _ \<Rightarrow> None)
             | None \<Rightarrow> None)
          | None \<Rightarrow> None)
     | _ \<Rightarrow> None)"

definition take_proxy :: "nat \<Rightarrow> move \<Rightarrow> play_state \<Rightarrow> play_state option" where
  "take_proxy t mv st =
     (let sent = cy_sent (pl_client st);
          arrive = (\<lambda>handle n. if n < length sent then Some (handled (handle (run_io t) (datagram t (sent ! n)) (pl_db st)) st) else None)
      in case mv of
           Request_arrives n \<Rightarrow> arrive (handleRequest demo_core demo_crypto run_text demo_url) n
         | Acceptance_ack_arrives n \<Rightarrow> arrive (handleAcceptanceACK demo_core demo_crypto run_text) n
         | Result_ack_arrives n \<Rightarrow> arrive (handleResultACK demo_core demo_crypto run_text) n
         | Deliver \<Rightarrow> Some (handled (delivery_turn demo_core demo_crypto run_text (run_io t) NoFault [] (int t) (pl_db st)) st)
         | Work entropy \<Rightarrow> work t entropy st
         | _ \<Rightarrow> None)"

definition play :: "nat \<Rightarrow> move \<Rightarrow> play_state \<Rightarrow> play_state option" where
  "play t mv st =
     (case mv of
        Receive n \<Rightarrow>
          if n < length (pl_down st)
          then client_moves ((pl_client st)\<lparr>cy_client := client_receive run_client demo_crypto run_text (1000 * int t) (pl_down st ! n)
                 (cy_client (pl_client st))\<rparr>) st
          else None
      | Ask _ \<Rightarrow> take_client t mv st
      | Take_acceptance _ \<Rightarrow> take_client t mv st
      | Take_confirmation _ \<Rightarrow> take_client t mv st
      | Take_result _ \<Rightarrow> take_client t mv st
      | _ \<Rightarrow> take_proxy t mv st)"

fun play_all :: "nat \<Rightarrow> move list \<Rightarrow> play_state \<Rightarrow> play_state option" where
  "play_all t [] st = Some st"
| "play_all t (mv # mvs) st = (case play t mv st of None \<Rightarrow> None | Some st' \<Rightarrow> play_all (t + 100) mvs st')"

definition run_start :: play_state where
  "run_start = \<lparr>pl_db = empty_db, pl_worker = Idle, pl_tokens = [], pl_begun = [], pl_calls = [],
     pl_client = \<lparr>cy_client = no_channels, cy_runs = Map.empty, cy_store = \<lparr>cd_operations = [], cd_callbacks = []\<rparr>, cy_sent = [], cy_outcomes = []\<rparr>,
     pl_down = [], pl_answers = []\<rparr>"

definition run_moves :: "move list" where
  "run_moves = [Ask demo_request, Request_arrives 0, Deliver, Receive 0, Take_acceptance ''r1'', Acceptance_ack_arrives 1, Receive 1,
     Take_confirmation ''r1'', Work ''a'', Work ''b'', Work [], Work [], Work [], Work [], Deliver, Receive 2,
     Take_result ''r1'', Result_ack_arrives 2, Receive 3, Take_confirmation ''r1'']"

subsection \<open>What is played are steps\<close>

lemma run_wire: "faithful_wire demo_crypto run_text"
  unfolding faithful_wire_def run_text_def by (simp add: sample_text_faithful)

lemma datagram_sent: "client_datagram run_client demo_crypto run_text m (datagram t m)"
proof -
  obtain subject kind payload where m: "client_msg_wire run_client m = (subject, kind, payload)" by (cases "client_msg_wire run_client m")
  have "snd (client_publish run_client demo_crypto run_text (run_io t) subject kind payload) = [\<lparr>nm_Subject = subject, nm_Data = datagram t m\<rparr>]"
    by (simp add: client_publish_def datagram_def m run_io_def)
  then show ?thesis unfolding client_datagram_def m prod.case by (intro exI [of _ "run_io t"]) simp
qed

lemma played_simps [simp]:
  "gw_proxy (played st) = played_proxy st" "gw_client (played st) = pl_client st" "gw_down (played st) = set (pl_down st)"
  "gw_answers (played st) = set (pl_answers st)" "sys_db (played_proxy st) = pl_db st" "sys_workers (played_proxy st) 0 = pl_worker st"
  "sys_tokens (played_proxy st) = set (pl_tokens st)" "sys_begun (played_proxy st) = pl_begun st" "sys_calls (played_proxy st) = pl_calls st"
  by (simp_all add: played_def played_proxy_def)

text \<open>A step of the proxy, once its event and the state after it are known.\<close>

lemma played_proxy_step:
  assumes "sys_event_step run_config (\<lambda>_. demo_core) demo_crypto run_text demo_hash demo_url (played_proxy st) e (played_proxy st')"
    and "authentic run_client (\<lambda>_. demo_core) demo_crypto run_text (cy_sent (pl_client st)) e"
    and "pl_client st' = pl_client st" "set (pl_down st') = set (pl_down st) \<union> event_msgs e" "set (pl_answers st') = set (pl_answers st) \<union> event_answers e"
  shows "run_step (played st) (played st')"
proof -
  have "played st' = (played st)\<lparr>gw_proxy := played_proxy st', gw_down := gw_down (played st) \<union> event_msgs e, gw_answers := gw_answers (played st) \<union> event_answers e\<rparr>"
    using assms(3-5) by (simp add: played_def)
  then show ?thesis using gateway_step.proxy [of run_config "\<lambda>_. demo_core" demo_crypto run_text demo_hash demo_url "played st" e "played_proxy st'"] assms(1,2)
    by simp
qed

lemma inner_event: "(\<And>p io data ms. e \<noteq> Handled p io data ms) \<Longrightarrow> authentic cl cores lib wl sent e"
  by (simp add: authentic_def)

lemma arrival_step:
  assumes "m \<in> set (cy_sent (pl_client st))"
    and "sys_event_step run_config (\<lambda>_. demo_core) demo_crypto run_text demo_hash demo_url (played_proxy st)
          (Handled 0 (run_io t) (datagram t m) (snd r)) ((played_proxy st)\<lparr>sys_db := fst r\<rparr>)"
  shows "run_step (played st) (played (handled r st))"
proof (rule played_proxy_step)
  show "sys_event_step run_config (\<lambda>_. demo_core) demo_crypto run_text demo_hash demo_url (played_proxy st)
      (Handled 0 (run_io t) (datagram t m) (snd r)) (played_proxy (handled r st))"
    using assms(2) by (simp add: handled_def played_proxy_def)
  show "authentic run_client (\<lambda>_. demo_core) demo_crypto run_text (cy_sent (pl_client st)) (Handled 0 (run_io t) (datagram t m) (snd r))"
    using datagram_sent assms(1) by (auto simp: authentic_def)
qed (simp_all add: handled_def)

lemma worked_step:
  assumes "sys_event_step run_config (\<lambda>_. demo_core) demo_crypto run_text demo_hash demo_url (played_proxy st) Internal (set_worker 0 r (played_proxy st'))"
    and "pl_client st' = pl_client st" "pl_down st' = pl_down st" "pl_answers st' = pl_answers st"
  shows "run_step (played st) (played (worked r st'))"
proof (rule played_proxy_step)
  show "sys_event_step run_config (\<lambda>_. demo_core) demo_crypto run_text demo_hash demo_url (played_proxy st) Internal (played_proxy (worked r st'))"
    using assms(1) by (simp add: worked_def played_proxy_def set_worker_def)
qed (simp_all add: worked_def assms(2-4) inner_event)

lemma work_step:
  assumes "work t entropy st = Some st'"
  shows "run_step (played st) (played st')"
proof (cases "pl_worker st")
  case Idle
  then have "randomID entropy \<notin> sys_tokens (played_proxy st)"
    and st': "st' = worked (run_reserve run_config NoFault [] entropy (int t) (pl_db st)) (st\<lparr>pl_tokens := randomID entropy # pl_tokens st\<rparr>)"
    using assms by (auto simp: work_def List.member_iff split: if_splits)
  then have "sys_event_step run_config (\<lambda>_. demo_core) demo_crypto run_text demo_hash demo_url (played_proxy st) Internal
      (set_worker 0 (run_reserve run_config NoFault [] entropy (int t) (sys_db (played_proxy st)))
        ((played_proxy st)\<lparr>sys_tokens := insert (randomID entropy) (sys_tokens (played_proxy st))\<rparr>))"
    using Idle by (intro sys_event_step.reserve) simp_all
  moreover have "(played_proxy st)\<lparr>sys_tokens := insert (randomID entropy) (sys_tokens (played_proxy st))\<rparr>
      = played_proxy (st\<lparr>pl_tokens := randomID entropy # pl_tokens st\<rparr>)"
    by (simp add: played_proxy_def)
  ultimately show ?thesis unfolding st' by (intro worked_step) simp_all
next
  case (Reserved op)
  then show ?thesis using assms sys_event_step.acquire [of "played_proxy st" 0 op]
    by (auto simp: work_def intro!: worked_step)
next
  case (Permitted op permit)
  let ?r = "execute_dispatch run_config NoFault NoFault (int t) op permit (pl_db st)"
  let ?st = "if fst ?r = Dispatched op permit then st\<lparr>pl_begun := (op_rid op, op_DispatchToken op) # pl_begun st\<rparr> else st"
  have st': "st' = worked ?r ?st" using assms Permitted by (simp add: work_def Let_def)
  have "played_proxy ?st = (if fst ?r = Dispatched op permit
      then (played_proxy st)\<lparr>sys_begun := (op_rid op, op_DispatchToken op) # sys_begun (played_proxy st)\<rparr> else played_proxy st)"
    by (simp add: played_proxy_def)
  moreover have "sys_event_step run_config (\<lambda>_. demo_core) demo_crypto run_text demo_hash demo_url (played_proxy st) Internal
      (set_worker 0 ?r (if fst ?r = Dispatched op permit
         then (played_proxy st)\<lparr>sys_begun := (op_rid op, op_DispatchToken op) # sys_begun (played_proxy st)\<rparr> else played_proxy st))"
    by (rule sys_event_step.dispatch [where ?f1.0 = NoFault and ?f2.0 = NoFault and now = "int t"]) (simp_all add: Permitted)
  ultimately show ?thesis unfolding st' by (intro worked_step) simp_all
next
  case (Dispatched op permit)
  let ?st = "st\<lparr>pl_worker := InFlight op permit, pl_calls := (op_rid op, op_DispatchToken op) # pl_calls st\<rparr>"
  have "(played_proxy st)\<lparr>sys_workers := (sys_workers (played_proxy st))(0 := InFlight op permit),
      sys_calls := (op_rid op, op_DispatchToken op) # sys_calls (played_proxy st)\<rparr> = played_proxy ?st"
    by (simp add: played_proxy_def)
  then have "sys_event_step run_config (\<lambda>_. demo_core) demo_crypto run_text demo_hash demo_url (played_proxy st) Internal (played_proxy ?st)"
    using sys_event_step.send [of "played_proxy st" 0 op permit] Dispatched by fastforce
  then show ?thesis using assms Dispatched by (auto simp: work_def intro!: played_proxy_step inner_event)
next
  case (InFlight op permit)
  let ?out = "Do (\<lambda>_ _. Inr ''bank'') run_target (cf_MaxResponseBytes run_config) (op_Request op)"
  let ?st = "st\<lparr>pl_worker := execute_reply run_config (\<lambda>_. 0) (1000 * int t) op permit ?out, pl_answers := (op_Request op, ?out) # pl_answers st\<rparr>"
  have "(played_proxy st)\<lparr>sys_workers := (sys_workers (played_proxy st))(0 := execute_reply run_config (\<lambda>_. 0) (1000 * int t) op permit ?out)\<rparr>
      = played_proxy ?st"
    by (simp add: played_proxy_def)
  then have "sys_event_step run_config (\<lambda>_. demo_core) demo_crypto run_text demo_hash demo_url (played_proxy st) (Answered op ?out) (played_proxy ?st)"
    using sys_event_step.reply [of "played_proxy st" 0 op permit run_config _ _ _ _ _ "\<lambda>_ _. Inr ''bank''" run_target "\<lambda>_. 0" "1000 * int t"] InFlight
    by fastforce
  moreover have "st' = ?st" using assms InFlight by (simp add: work_def Let_def)
  ultimately show ?thesis by (auto intro!: played_proxy_step inner_event)
next
  case (Saving op permit result)
  then show ?thesis using assms sys_event_step.save [of "played_proxy st" 0 op permit result]
    by (auto simp: work_def intro!: worked_step)
qed (use assms in \<open>simp_all add: work_def\<close>)

lemma played_client_step:
  assumes "client_event_step pg_api run_client demo_crypto run_text (pl_client st) Own y" "client_moves y st = Some st'"
  shows "run_step (played st) (played st')"
proof -
  have "played st' = (played st)\<lparr>gw_client := y\<rparr>" using assms(2) by (auto simp: client_moves_def played_def played_proxy_def)
  then show ?thesis using gateway_step.client [of pg_api run_client demo_crypto run_text "played st" y] assms(1) by simp
qed

lemma take_client_step:
  assumes "take_client t mv st = Some st'"
  shows "run_step (played st) (played st')"
proof (cases mv)
  case (Ask q)
  then obtain req s where q: "plain_request run_client q"
    "client_start pg_api (int t) NoFault False q (\<lambda>rid. cy_runs (pl_client st) rid \<noteq> None) (cy_store (pl_client st)) = (Begun req, s)"
    "client_moves (advance (hq_RequestID req) (open_channels (hq_RequestID req) (cy_client (pl_client st)))
       (execute_begin run_client req s) (pl_client st)) st = Some st'"
    using assms by (auto simp: take_client_def Let_def split: if_splits prod.splits start_answer.splits)
  show ?thesis by (rule played_client_step [OF client_event_step.begin_run [OF q(1,2)] q(3)])
next
  case (Take_acceptance rid)
  then obtain req d acc rest where q: "cy_runs (pl_client st) rid = Some (Requesting req d)" "ct_acceptance (cy_client (pl_client st)) rid = Some (acc # rest)"
    "client_moves (advance rid ((cy_client (pl_client st))\<lparr>ct_acceptance := (ct_acceptance (cy_client (pl_client st)))(rid \<mapsto> rest)\<rparr>)
       (execute_accepted pg_api run_client (int t) NoFault req d acc (cy_store (pl_client st))) (pl_client st)) st = Some st'"
    using assms by (auto simp: take_client_def Let_def split: option.splits op_phase.splits list.splits)
  show ?thesis by (rule played_client_step [OF client_event_step.accepted [OF q(1,2) refl] q(3)])
next
  case (Take_result rid)
  then obtain req r rest where q: "cy_runs (pl_client st) rid = Some (AwaitingResult req)" "ct_results (cy_client (pl_client st)) rid = Some (r # rest)"
    "client_moves (advance rid ((cy_client (pl_client st))\<lparr>ct_results := (ct_results (cy_client (pl_client st)))(rid \<mapsto> rest)\<rparr>)
       (execute_result pg_api run_client (int t) NoFault req r (cy_store (pl_client st))) (pl_client st)) st = Some st'"
    using assms by (auto simp: take_client_def Let_def split: option.splits op_phase.splits list.splits)
  show ?thesis by (rule played_client_step [OF client_event_step.result [OF q(1,2) refl] q(3)])
next
  case (Take_confirmation rid)
  then obtain ph d u rest where q: "cy_runs (pl_client st) rid = Some ph" "phase_delivery ph = Some d" "ct_confirmed (cy_client (pl_client st)) d = Some (u # rest)"
    "client_moves (advance rid (unlisten ph (cy_client (pl_client st))) (execute_confirmed pg_api (int t) NoFault ph (cy_store (pl_client st))) (pl_client st)) st = Some st'"
    using assms by (auto simp: take_client_def Let_def split: option.splits list.splits)
  show ?thesis by (rule played_client_step [OF client_event_step.confirmed [OF q(1-3)] q(4)])
qed (use assms in \<open>simp_all add: take_client_def\<close>)

lemma take_proxy_step:
  assumes "take_proxy t mv st = Some st'"
  shows "run_step (played st) (played st')"
proof (cases mv)
  case (Request_arrives n)
  then have n: "n < length (cy_sent (pl_client st))"
    and st': "st' = handled (handleRequest demo_core demo_crypto run_text demo_url (run_io t) (datagram t (cy_sent (pl_client st) ! n)) (pl_db st)) st"
    using assms by (auto simp: take_proxy_def Let_def split: if_splits)
  show ?thesis unfolding st' by (rule arrival_step [OF nth_mem [OF n]]) (use sys_event_step.request [of _ _ _ _ _ _ "played_proxy st"] in fastforce)
next
  case (Acceptance_ack_arrives n)
  then have n: "n < length (cy_sent (pl_client st))"
    and st': "st' = handled (handleAcceptanceACK demo_core demo_crypto run_text (run_io t) (datagram t (cy_sent (pl_client st) ! n)) (pl_db st)) st"
    using assms by (auto simp: take_proxy_def Let_def split: if_splits)
  show ?thesis unfolding st' by (rule arrival_step [OF nth_mem [OF n]]) (use sys_event_step.accepted_ack [of _ _ _ _ _ _ "played_proxy st"] in fastforce)
next
  case (Result_ack_arrives n)
  then have n: "n < length (cy_sent (pl_client st))"
    and st': "st' = handled (handleResultACK demo_core demo_crypto run_text (run_io t) (datagram t (cy_sent (pl_client st) ! n)) (pl_db st)) st"
    using assms by (auto simp: take_proxy_def Let_def split: if_splits)
  show ?thesis unfolding st' by (rule arrival_step [OF nth_mem [OF n]]) (use sys_event_step.result_ack [of _ _ _ _ _ _ "played_proxy st"] in fastforce)
next
  case Deliver
  let ?r = "delivery_turn demo_core demo_crypto run_text (run_io t) NoFault [] (int t) (pl_db st)"
  have st': "st' = handled ?r st" using assms Deliver by (simp add: take_proxy_def)
  have "(played_proxy st)\<lparr>sys_db := fst ?r\<rparr> = played_proxy (handled ?r st)" by (simp add: played_proxy_def handled_def)
  then have "sys_event_step run_config (\<lambda>_. demo_core) demo_crypto run_text demo_hash demo_url (played_proxy st) (Published (snd ?r)) (played_proxy (handled ?r st))"
    using sys_event_step.deliver [of run_config "\<lambda>_. demo_core" demo_crypto run_text demo_hash demo_url "played_proxy st" 0 "run_io t" NoFault "[]" "int t"]
    by simp
  then show ?thesis unfolding st' by (rule played_proxy_step) (simp_all add: handled_def inner_event)
next
  case (Work entropy)
  then show ?thesis using assms work_step by (simp add: take_proxy_def)
qed (use assms in \<open>simp_all add: take_proxy_def\<close>)

lemma play_step:
  assumes "play t mv st = Some st'"
  shows "run_step (played st) (played st')"
proof (cases mv)
  case (Receive n)
  then have n: "n < length (pl_down st)"
    and mv: "client_moves ((pl_client st)\<lparr>cy_client := client_receive run_client demo_crypto run_text (1000 * int t) (pl_down st ! n) (cy_client (pl_client st))\<rparr>) st = Some st'"
    using assms by (auto simp: play_def split: if_splits)
  have "played st' = (played st)\<lparr>gw_client := (gw_client (played st))\<lparr>cy_client := client_receive run_client demo_crypto run_text (1000 * int t) (pl_down st ! n)
      (cy_client (gw_client (played st)))\<rparr>\<rparr>"
    using mv by (auto simp: client_moves_def played_def played_proxy_def)
  then show ?thesis
    using gateway_step.hear [of "pl_down st ! n" "played st" pg_api run_client run_config "\<lambda>_. demo_core" demo_crypto run_text demo_hash demo_url "1000 * int t"] n
    by simp
qed (use assms take_client_step take_proxy_step in \<open>auto simp: play_def\<close>)

theorem play_all_steps: "play_all t mvs st = Some st' \<Longrightarrow> run_step\<^sup>*\<^sup>* (played st) (played st')"
proof (induction t mvs st rule: play_all.induct)
  case (2 t mv mvs st)
  then obtain st1 where "play t mv st = Some st1" "play_all (t + 100) mvs st1 = Some st'" by (auto split: option.splits)
  then show ?case using "2.IH" play_step by (meson converse_rtranclp_into_rtranclp)
qed simp

lemma run_start_init: "gateway_init pg_inv pg_view (played run_start)"
  by (simp add: gateway_init_def run_start_def played_def played_proxy_def sys_init_def client_init_def pg_inv_def pg_view_def table_view_def fun_eq_iff)

text \<open>The run reaches its end: the caller has the response of the target.\<close>

definition run_finished :: "play_state \<Rightarrow> bool" where
  "run_finished st \<longleftrightarrow> map (\<lambda>(i, out). (i, rs_StatusCode (oo_result out), rs_Body (oo_result out), oo_err out)) (cy_outcomes (pl_client st)) = [(''r1'', 201, ''1!'', None)]
     \<and> map rq_status (db_requests (pl_db st)) = [result_delivered]"

lemma run_completes: "\<exists>st. play_all 100 run_moves run_start = Some st \<and> run_finished st"
proof -
  have "(case play_all 100 run_moves run_start of None \<Rightarrow> False | Some st \<Rightarrow> run_finished st)" by code_simp
  then show ?thesis by (auto split: option.splits)
qed

end
