(* ===== verification/Gateway_Properties.thy ===== *)
theory Gateway_Properties
  imports Gateway_Run
begin

text \<open>
  What the proxy and the client library guarantee together: the answer that a caller of the library gets.
\<close>

subsection \<open>The parts of the joint system\<close>

lemma coerce_utf8_ascii: "\<forall>c \<in> set (coerce_utf8 s). (of_char c :: nat) < 128 \<Longrightarrow> coerce_utf8 s = s"
proof (induction s rule: coerce_utf8.induct)
  case (2 c cs)
  show ?case
  proof (cases "utf8_len (c # cs) = 0")
    case True
    then show ?thesis using "2.prems" by (simp add: coerce_utf8.simps(2) replacement_def)
  next
    case False
    then show ?thesis using 2 append_take_drop_id [of "utf8_len (c # cs)" "c # cs"] by (simp add: coerce_utf8.simps(2))
  qed
qed simp

lemma canon_state_unknown: "rs_State (canon_http_result r) = ''unknown'' \<Longrightarrow> rs_State r = ''unknown''"
  using coerce_utf8_ascii [of "rs_State r"] by (simp add: canon_http_result_def)

lemma request_id_plain:
  assumes "unmarshal_http_request j = Some q"
  shows "coerce_utf8 (hq_RequestID q) = hq_RequestID q"
proof -
  have zero: "coerce_utf8 (hq_RequestID zero_http_request) = hq_RequestID zero_http_request" by (simp add: zero_http_request_def)
  have field: "coerce_utf8 (hq_RequestID b) = hq_RequestID b"
    if "f \<in> set http_request_fields" "jf_dec f v a = Some b" "coerce_utf8 (hq_RequestID a) = hq_RequestID a" for f v a b
    using that by (auto simp: http_request_fields_def field_defs split: json.splits if_splits option.splits)
  show ?thesis
    using assms zero dec_members_keeps [where P = "\<lambda>e. coerce_utf8 (hq_RequestID e) = hq_RequestID e", OF _ zero field]
    by (auto simp: unmarshal_http_request_def unmarshal_struct_def split: json.splits)
qed

text \<open>Each part takes only steps of its own, so what holds of it alone holds here.\<close>

lemma gateway_proxy_reachable:
  "reach (gateway_init ok view) (gateway_step api ccfg cfg cores lib wl h url_parse) g \<Longrightarrow> sys_reachable cfg cores lib wl h url_parse (gw_proxy g)"
proof (induction rule: reach.induct)
  case (start g)
  then show ?case by (intro reach.start) (simp add: gateway_init_def)
next
  case (step g g')
  from step(2) show ?case
  proof cases
    case (proxy e s')
    show ?thesis using reach.step [OF step(3) sys_stepI [OF proxy(2)]] by (simp add: proxy(1))
  qed (use step(3) in simp_all)
qed

lemma gateway_client_reachable:
  "reach (gateway_init ok view) (gateway_step api ccfg cfg cores lib wl h url_parse) g \<Longrightarrow> reach (client_init ok view) (client_step api ccfg lib wl) (gw_client g)"
proof (induction rule: reach.induct)
  case (start g)
  then show ?case by (intro reach.start) (simp add: gateway_init_def)
next
  case (step g g')
  from step(2) show ?case
  proof cases
    case (client y')
    show ?thesis using reach.step [OF step(3) client_stepI [OF client(2)]] by (simp add: client(1))
  next
    case (hear m clock)
    show ?thesis
    proof (rule disjE [OF client_receive_cases [of ccfg lib wl clock m "cy_client (gw_client g)"]])
      assume "\<exists>handler. client_receive ccfg lib wl clock m (cy_client (gw_client g)) = client_dispatch ccfg lib wl clock handler (nm_Data m) (cy_client (gw_client g))
        \<and> (handler = OnResult \<longrightarrow> nm_Subject m = subject_of (cc_ClientID ccfg) (cc_ProxyID ccfg))"
      then obtain handler where c: "client_receive ccfg lib wl clock m (cy_client (gw_client g))
          = client_dispatch ccfg lib wl clock handler (nm_Data m) (cy_client (gw_client g))" by blast
      have "client_step api ccfg lib wl (gw_client g) ((gw_client g)\<lparr>cy_client := client_receive ccfg lib wl clock m (cy_client (gw_client g))\<rparr>)"
        by (rule client_stepI [OF client_event_step.message [where clock = clock and data = "nm_Data m"]]) (cases handler; simp add: c client_dispatch_def)
      then show ?thesis using reach.step [OF step(3)] by (simp add: hear(1))
    qed (use step(3) in \<open>simp add: hear(1)\<close>)
  qed (use step(3) in simp)
qed

text \<open>What is recorded as the outcome of a call came from the target.\<close>

lemma answers_are_responses:
  assumes "reach (gateway_init ok view) (gateway_step api ccfg cfg cores lib wl h url_parse) g"
  shows "(q, Inr x) \<in> gw_answers g \<Longrightarrow> \<exists>build net. Do build net (cf_MaxResponseBytes cfg) q = Inr x"
  using assms
proof (induction rule: reach.induct)
  case (step g g')
  from step(2) show ?case
  proof cases
    case (proxy e s')
    have "\<exists>build net. Do build net (cf_MaxResponseBytes cfg) q = Inr x" if "(q, Inr x) \<in> event_answers e"
      using proxy(2) that by cases auto
    then show ?thesis using step(3,4) by (auto simp: proxy(1))
  qed (use step(3,4) in simp_all)
qed (simp add: gateway_init_def)

subsection \<open>The answer that the caller gets\<close>

text \<open>
  \<open>r\<close> is the target's answer to a request that the client has published under the identifier \<open>i\<close>: \<open>q\<close> is
  the request as the proxy has read it, \<open>req\<close> and \<open>resp\<close> are the HTTP request and the response to it.
\<close>

definition answered_by_target :: "config \<Rightarrow> 's gateway \<Rightarrow> string \<Rightarrow> http_result \<Rightarrow> bool" where
  "answered_by_target cfg g i r \<longleftrightarrow> (\<exists>q0 q x. RequestMsg q0 \<in> set (cy_sent (gw_client g))
     \<and> unmarshal_http_request (marshal_http_request q0) = Some q \<and> hq_RequestID q = i \<and> (q, Inr x) \<in> gw_answers g
     \<and> (\<exists>build net req resp. Do build net (cf_MaxResponseBytes cfg) q = Inr x \<and> net req = Inr resp \<and> hc_Body req = hq_Body q
          \<and> rs_StatusCode r = hr_StatusCode resp \<and> rs_Body r = hr_Body resp
          \<and> map canon_header (rs_Headers r) = map canon_header (headerFields (hr_Header resp))))"

lemma traced_answer:
  assumes g: "reach (gateway_init ok view) (gateway_step api ccfg cfg cores lib wl h url_parse) g"
    and tr: "traced (asked (cy_sent (gw_client g))) (gw_answers g) i (canon_http_result r)" and known: "rs_State r \<noteq> ''unknown''"
  shows "answered_by_target cfg g i r"
proof -
  obtain r0 where r0: "genuine (asked (cy_sent (gw_client g))) (gw_answers g) r0" "i = coerce_utf8 (rs_RequestID r0)"
    "canon_http_result r = canon_http_result r0" using tr unfolding traced_def by blast
  have "rs_State r0 \<noteq> ''unknown''"
  proof
    assume "rs_State r0 = ''unknown''"
    then have "rs_State (canon_http_result r0) = ''unknown''"
      using valid_utf8_ascii [of "''unknown''"] by (simp add: canon_http_result_def valid_utf8_def)
    then show False using canon_state_unknown [of r] known r0(3) by simp
  qed
  then obtain q x where q: "q \<in> asked (cy_sent (gw_client g))" "hq_RequestID q = rs_RequestID r0" "(q, Inr x) \<in> gw_answers g" "response_of x r0"
    using r0(1) unfolding genuine_def by blast
  obtain q0 where q0: "RequestMsg q0 \<in> set (cy_sent (gw_client g))" "unmarshal_http_request (marshal_http_request q0) = Some q"
    using q(1) by (auto simp: asked_def)
  have i: "hq_RequestID q = i" using request_id_plain [OF q0(2)] q(2) r0(2) by simp
  obtain build net where do_eq: "Do build net (cf_MaxResponseBytes cfg) q = Inr x" using answers_are_responses [OF g q(3)] by blast
  obtain req resp where resp: "net req = Inr resp" "rs_Body x = hr_Body resp" "rs_StatusCode x = hr_StatusCode resp"
    "rs_Headers x = headerFields (hr_Header resp)" "hc_Body req = hq_Body q" using Do_result(3) [OF do_eq] by blast
  have "rs_StatusCode r = rs_StatusCode r0" "rs_Body r = rs_Body r0" "map canon_header (rs_Headers r) = map canon_header (rs_Headers r0)"
    using r0(3) by (cases r; cases r0; simp add: canon_http_result_def)+
  then have "rs_StatusCode r = hr_StatusCode resp" "rs_Body r = hr_Body resp" "map canon_header (rs_Headers r) = map canon_header (headerFields (hr_Header resp))"
    using q(4) resp by (simp_all add: response_of_def)
  then show ?thesis
    unfolding answered_by_target_def using q0 i q(3) do_eq resp(1,5) by blast
qed

text \<open>
  C3: What the caller gets is the target's answer. In every reachable state of a client on its PostgreSQL store
  together with the proxy, with lost, repeated, delayed and reordered messages and restarts of both, every outcome
  that the library has given to a caller without an error, and every stored result that is not \<open>unknown\<close>, is the
  answer of the target to a request that the client has published under this identifier: its status, its body
  and, up to the coding of JSON, its headers. The proxy takes as requests of the client only messages that the client has published.
\<close>

theorem responses_come_from_the_target:
  assumes "reach (gateway_init pg_inv pg_view) (gateway_step pg_api ccfg cfg cores lib wl h url_parse) g"
    and "faithful_wire lib wl" "plain_id (cc_ProxyID ccfg)" "\<And>p. tc_proxyID (cores p) = cc_ProxyID ccfg" "cf_ProxyID cfg = cc_ProxyID ccfg"
  shows "((i, out) \<in> set (cy_outcomes (gw_client g)) \<and> oo_err out = None \<longrightarrow> answered_by_target cfg g i (oo_result out))
    \<and> (pg_view (cy_store (gw_client g)) (cc_ProxyID ccfg, i) = Some x \<and> so_Result x = Some r \<and> rs_State r \<noteq> ''unknown'' \<longrightarrow> answered_by_target cfg g i r)"
proof -
  have inv: "pg_client.trace_inv ccfg lib wl g" using assms by (intro pg_client.gateway_trace) (simp_all add: client_apis)
  then have sat: "results_satisfy (cc_ProxyID ccfg) pg_view (traced (asked (cy_sent (gw_client g))) (gw_answers g)) (gw_client g)"
    and known: "known_outcomes (gw_client g)" by (simp_all add: pg_client.trace_inv_def Let_def)
  have "answered_by_target cfg g i (oo_result out)" if "(i, out) \<in> set (cy_outcomes (gw_client g))" "oo_err out = None"
    by (rule traced_answer [OF assms(1)]) (use sat known that in \<open>auto simp: results_satisfy_def known_outcomes_def\<close>)
  moreover have "answered_by_target cfg g i r"
    if "pg_view (cy_store (gw_client g)) (cc_ProxyID ccfg, i) = Some x" "so_Result x = Some r" "rs_State r \<noteq> ''unknown''"
  proof (rule traced_answer [OF assms(1) _ that(3)])
    have tr: "traced (asked (cy_sent (gw_client g))) (gw_answers g) i r" using sat that by (auto simp: results_satisfy_def)
    then have "canon_http_result r = r" by (auto simp: traced_def canon_http_result_def)
    then show "traced (asked (cy_sent (gw_client g))) (gw_answers g) i (canon_http_result r)" using tr by simp
  qed
  ultimately show ?thesis by blast
qed

theorem responses_come_from_the_target_witness:
  "\<exists>g out. reach (gateway_init pg_inv pg_view) run_step g \<and> (''r1'', out) \<in> set (cy_outcomes (gw_client g)) \<and> oo_err out = None
     \<and> rs_StatusCode (oo_result out) = 201 \<and> rs_Body (oo_result out) = ''1!'' \<and> answered_by_target run_config g ''r1'' (oo_result out)"
proof -
  obtain st where st: "play_all 100 run_moves run_start = Some st" "run_finished st" using run_completes by blast
  have g: "reach (gateway_init pg_inv pg_view) run_step (played st)"
    by (rule reach_steps [OF reach.start [where I = "gateway_init pg_inv pg_view", OF run_start_init] play_all_steps [OF st(1)]])
  obtain out where out: "(''r1'', out) \<in> set (cy_outcomes (pl_client st))" "oo_err out = None" "rs_StatusCode (oo_result out) = 201" "rs_Body (oo_result out) = ''1!''"
    using st(2) by (auto simp: run_finished_def)
  have ids: "cc_ProxyID run_client = ''p1''" "tc_proxyID demo_core = ''p1''" "cf_ProxyID run_config = ''p1''"
    by (simp_all add: run_client_def demo_core_def run_config_def demo_config_def)
  have "plain_id (cc_ProxyID run_client)" unfolding ids(1) by code_simp
  then have "answered_by_target run_config (played st) ''r1'' (oo_result out)"
    using responses_come_from_the_target [OF g run_wire, of "''r1''" out] out ids by simp
  then show ?thesis using g out by (intro exI [of _ "played st"] exI [of _ out]) simp
qed

end
