(* ===== verification/Worker_Run.thy ===== *)
theory Worker_Run
  imports Outgoing_System
begin

text \<open>
  \<^verbatim>\<open>Run\<close>, \<^verbatim>\<open>run\<close> and \<^verbatim>\<open>execute\<close> of \<^verbatim>\<open>internal/worker/worker.go\<close> as whole functions, and the proof that all a
  worker does alone is a path of the step relation: what holds in every reachable state of \<open>Outgoing_System\<close>
  holds of the sequential code too.
\<close>

subsection \<open>Executing one operation\<close>

text \<open>One attempt to save the result: the failures, the clock, and whether the context ends in the pause after it.\<close>

record save_io =
  sv_fault :: fault
  sv_release :: fault
  sv_now :: pg_time
  sv_stopped :: bool

record execute_io =
  ex_entropy :: bytes
  ex_acquire :: "fault \<times> fault \<times> pg_time"
  ex_dispatch :: "fault \<times> fault \<times> pg_time"
  ex_build :: "string \<Rightarrow> string \<Rightarrow> string go_result"
  ex_net :: "http_call \<Rightarrow> http_response go_result"
  ex_draw :: "int \<Rightarrow> int"
  ex_clock :: go_time
  ex_retry :: "fault \<times> fault \<times> pg_time"
  ex_io :: io
  ex_saves :: "save_io list"

text \<open>The state returned is \<open>Idle\<close> when \<^verbatim>\<open>execute\<close> has returned, and \<open>Saving\<close> while it still waits.\<close>

fun save_loop :: "config \<Rightarrow> operation \<Rightarrow> string \<Rightarrow> http_result \<Rightarrow> save_io list \<Rightarrow> proxy_db \<Rightarrow> worker_state \<times> proxy_db" where
  "save_loop cfg op permit result [] db = (Saving op permit result, db)"
| "save_loop cfg op permit result (v # vs) db =
     (case execute_save cfg (sv_fault v) (sv_release v) (sv_now v) op permit result db of
        (Idle, db1) \<Rightarrow> (Idle, db1)
      | (_, db1) \<Rightarrow> if sv_stopped v then leave (sv_release v) permit db1 else save_loop cfg op permit result vs db1)"

definition execute ::
  "config \<Rightarrow> core \<Rightarrow> crypto_lib \<Rightarrow> wire_lib \<Rightarrow> url_parser \<Rightarrow> execute_io \<Rightarrow> operation \<Rightarrow> proxy_db \<Rightarrow> worker_state \<times> proxy_db \<times> nats_msg list" where
  "execute cfg c lib wl url_parse x op0 db =
     (case ex_acquire x of (fa, fr, now1) \<Rightarrow>
      case execute_acquire cfg url_parse fa fr (ex_entropy x) now1 op0 db of
        (Permitted op permit, db1) \<Rightarrow>
          (case ex_dispatch x of (fd, fl, now2) \<Rightarrow>
           case execute_dispatch cfg fd fl now2 op permit db1 of
             (Dispatched _ _, db2) \<Rightarrow>
               (case execute_reply cfg (ex_draw x) (ex_clock x) op permit
                       (Do (ex_build x) (ex_net x) (cf_MaxResponseBytes cfg) (op_Request op)) of
                  Retrying _ _ reason next_at \<Rightarrow>
                    (case ex_retry x of (fs, fl', now3) \<Rightarrow>
                     case execute_retry fs fl' now3 op permit reason next_at db2 of (st, db3) \<Rightarrow> (st, db3, []))
                | Saving _ _ result \<Rightarrow>
                    (case save_loop cfg op permit result (ex_saves x) db2 of
                       (st, db3) \<Rightarrow> (st, db3, execute_publish c lib wl (ex_io x) op result))
                | st \<Rightarrow> (st, db2, []))
           | (st, db2) \<Rightarrow> (st, db2, []))
      | (st, db1) \<Rightarrow> (st, db1, []))"

subsection \<open>The loop of a worker and the pool\<close>

text \<open>
  One turn of the loop: whether the context is done at its head, the reservation, whether the context ends in
  the pause after a failed one, and what \<^verbatim>\<open>execute\<close> meets.
\<close>

record worker_turn =
  wt_done :: bool
  wt_fault :: fault
  wt_locked :: "string list"
  wt_entropy :: bytes
  wt_now :: pg_time
  wt_stopped :: bool
  wt_execute :: execute_io

text \<open>\<open>None\<close>: \<^verbatim>\<open>run\<close> has not returned.\<close>

fun worker_run ::
  "config \<Rightarrow> core \<Rightarrow> crypto_lib \<Rightarrow> wire_lib \<Rightarrow> url_parser \<Rightarrow> worker_turn list \<Rightarrow> proxy_db \<Rightarrow>
   unit go_result option \<times> worker_state \<times> proxy_db \<times> nats_msg list" where
  "worker_run cfg c lib wl url_parse [] db = (None, Idle, db, [])"
| "worker_run cfg c lib wl url_parse (t # ts) db =
     (if wt_done t then (Some (Inr ()), Idle, db, [])
      else case run_reserve cfg (wt_fault t) (wt_locked t) (wt_entropy t) (wt_now t) db of
             (Reserved op, db1) \<Rightarrow>
               (case execute cfg c lib wl url_parse (wt_execute t) op db1 of
                  (Idle, db2, ms) \<Rightarrow>
                    (case worker_run cfg c lib wl url_parse ts db2 of (r, st, db3, ms') \<Rightarrow> (r, st, db3, ms @ ms'))
                | (st, db2, ms) \<Rightarrow> (None, st, db2, ms))
           | (_, db1) \<Rightarrow>
               if wt_stopped t then (Some (Inr ()), Idle, db1, [])
               else worker_run cfg c lib wl url_parse ts db1)"

text \<open>
  \<^verbatim>\<open>Run\<close> waits for its workers. \<open>ends\<close> are their ends as they arrive, each with whether the context is done
  by then; \<open>None\<close> means that it still waits.
\<close>

fun pool_Run :: "nat \<Rightarrow> (unit go_result \<times> bool) list \<Rightarrow> unit go_result option" where
  "pool_Run 0 ends = Some (Inr ())"
| "pool_Run (Suc n) [] = None"
| "pool_Run (Suc n) ((r, done) # ends) = (case r of Inl e \<Rightarrow> if done then pool_Run n ends else Some (Inl e) | Inr _ \<Rightarrow> pool_Run n ends)"

subsection \<open>A worker alone\<close>

text \<open>\<open>path w s st db\<close>: by steps of worker \<open>w\<close> alone the system gets to the worker state \<open>st\<close> and the database \<open>db\<close>.\<close>

definition path ::
  "config \<Rightarrow> (nat \<Rightarrow> core) \<Rightarrow> crypto_lib \<Rightarrow> wire_lib \<Rightarrow> hash_lib \<Rightarrow> url_parser \<Rightarrow> nat \<Rightarrow> sys \<Rightarrow> string set \<Rightarrow> worker_state \<Rightarrow> proxy_db \<Rightarrow> bool" where
  "path cfg cores lib wl h url_parse w s T st db \<longleftrightarrow> (\<exists>s'. (sys_step cfg cores lib wl h url_parse)\<^sup>*\<^sup>* s s'
     \<and> sys_db s' = db \<and> sys_workers s' = (sys_workers s)(w := st) \<and> sys_tokens s' \<subseteq> sys_tokens s \<union> T)"

lemma path_start: "path cfg cores lib wl h url_parse w s T (sys_workers s w) (sys_db s)"
  unfolding path_def by (intro exI [of _ s]) simp

lemma path_step:
  assumes "path cfg cores lib wl h url_parse w s T st db"
    and "\<And>s1. sys_db s1 = db \<Longrightarrow> sys_workers s1 w = st \<Longrightarrow> sys_tokens s1 \<subseteq> sys_tokens s \<union> T \<Longrightarrow>
      \<exists>s2. sys_step cfg cores lib wl h url_parse s1 s2 \<and> sys_db s2 = db' \<and> sys_workers s2 = (sys_workers s1)(w := st') \<and> sys_tokens s2 \<subseteq> sys_tokens s1 \<union> T'"
  shows "path cfg cores lib wl h url_parse w s (T \<union> T') st' db'"
proof -
  obtain s1 where s1: "(sys_step cfg cores lib wl h url_parse)\<^sup>*\<^sup>* s s1" "sys_db s1 = db" "sys_workers s1 = (sys_workers s)(w := st)"
    "sys_tokens s1 \<subseteq> sys_tokens s \<union> T" using assms(1) unfolding path_def by blast
  then obtain s2 where s2: "sys_step cfg cores lib wl h url_parse s1 s2" "sys_db s2 = db'" "sys_workers s2 = (sys_workers s1)(w := st')" "sys_tokens s2 \<subseteq> sys_tokens s1 \<union> T'"
    using assms(2) by fastforce
  show ?thesis unfolding path_def
    by (intro exI [of _ s2] conjI rtranclp.rtrancl_into_rtrancl [OF s1(1) s2(1)]) (use s1 s2 in auto)
qed

lemmas path_quiet = path_step [where T' = "{}", simplified]

text \<open>A step of the worker that is a function of the database.\<close>

lemma path_call:
  assumes "path cfg cores lib wl h url_parse w s T st db"
    and "\<And>s1. sys_workers s1 w = st \<Longrightarrow> sys_event_step cfg cores lib wl h url_parse s1 Internal (set_worker w (f (sys_db s1)) s1)"
  shows "path cfg cores lib wl h url_parse w s T (fst (f db)) (snd (f db))"
proof (rule path_quiet [OF assms(1)])
  fix s1 :: sys assume s1: "sys_db s1 = db" "sys_workers s1 w = st"
  show "\<exists>s2. sys_step cfg cores lib wl h url_parse s1 s2 \<and> sys_db s2 = snd (f db) \<and> sys_workers s2 = (sys_workers s1)(w := fst (f db)) \<and> sys_tokens s2 \<subseteq> sys_tokens s1"
    using sys_stepI [OF assms(2) [OF s1(2)]] s1(1) by (intro exI [of _ "set_worker w (f db) s1"]) (simp add: set_worker_def)
qed

text \<open>The cuts of \<^verbatim>\<open>execute\<close>, one after the other.\<close>

lemma path_acquire:
  assumes "path cfg cores lib wl h url_parse w s T (Reserved op) db"
  shows "path cfg cores lib wl h url_parse w s T (fst (execute_acquire cfg url_parse f1 f2 entropy now op db)) (snd (execute_acquire cfg url_parse f1 f2 entropy now op db))"
  by (rule path_call [OF assms]) (rule sys_event_step.acquire)

lemma path_dispatch:
  assumes "path cfg cores lib wl h url_parse w s T (Permitted op permit) db"
  shows "path cfg cores lib wl h url_parse w s T (fst (execute_dispatch cfg f1 f2 now op permit db)) (snd (execute_dispatch cfg f1 f2 now op permit db))"
proof (rule path_quiet [OF assms])
  fix s1 :: sys assume s1: "sys_db s1 = db" "sys_workers s1 w = Permitted op permit"
  let ?r = "execute_dispatch cfg f1 f2 now op permit db"
  show "\<exists>s2. sys_step cfg cores lib wl h url_parse s1 s2 \<and> sys_db s2 = snd ?r \<and> sys_workers s2 = (sys_workers s1)(w := fst ?r) \<and> sys_tokens s2 \<subseteq> sys_tokens s1"
    using sys_stepI [OF sys_event_step.dispatch [OF s1(2) refl]] s1(1)
    by (intro exI [of _ "set_worker w ?r (if fst ?r = Dispatched op permit then s1\<lparr>sys_begun := (op_rid op, op_DispatchToken op) # sys_begun s1\<rparr> else s1)"])
      (auto simp: set_worker_def)
qed

lemma path_reply:
  assumes "path cfg cores lib wl h url_parse w s T (Dispatched op permit) db"
  shows "path cfg cores lib wl h url_parse w s T (execute_reply cfg draw clock op permit (Do build net (cf_MaxResponseBytes cfg) (op_Request op))) db"
proof -
  have sent: "path cfg cores lib wl h url_parse w s T (InFlight op permit) db"
  proof (rule path_quiet [OF assms])
    fix s1 :: sys assume s1: "sys_db s1 = db" "sys_workers s1 w = Dispatched op permit"
    show "\<exists>s2. sys_step cfg cores lib wl h url_parse s1 s2 \<and> sys_db s2 = db \<and> sys_workers s2 = (sys_workers s1)(w := InFlight op permit) \<and> sys_tokens s2 \<subseteq> sys_tokens s1"
      by (intro exI [of _ "s1\<lparr>sys_workers := (sys_workers s1)(w := InFlight op permit), sys_calls := (op_rid op, op_DispatchToken op) # sys_calls s1\<rparr>"] conjI
          sys_stepI [OF sys_event_step.send [OF s1(2)]]) (simp_all add: s1)
  qed
  show ?thesis
  proof (rule path_quiet [OF sent])
    fix s1 :: sys assume s1: "sys_db s1 = db" "sys_workers s1 w = InFlight op permit"
    let ?st = "execute_reply cfg draw clock op permit (Do build net (cf_MaxResponseBytes cfg) (op_Request op))"
    show "\<exists>s2. sys_step cfg cores lib wl h url_parse s1 s2 \<and> sys_db s2 = db \<and> sys_workers s2 = (sys_workers s1)(w := ?st) \<and> sys_tokens s2 \<subseteq> sys_tokens s1"
      by (intro exI [of _ "s1\<lparr>sys_workers := (sys_workers s1)(w := ?st)\<rparr>"] conjI sys_stepI [OF sys_event_step.reply [OF s1(2)]]) (simp_all add: s1)
  qed
qed

lemma path_retry:
  assumes "path cfg cores lib wl h url_parse w s T (Retrying op permit reason next_at) db"
  shows "path cfg cores lib wl h url_parse w s T (fst (execute_retry f1 f2 now op permit reason next_at db)) (snd (execute_retry f1 f2 now op permit reason next_at db))"
  by (rule path_call [OF assms]) (rule sys_event_step.retry)

lemma path_save:
  assumes "path cfg cores lib wl h url_parse w s T (Saving op permit result) db"
  shows "path cfg cores lib wl h url_parse w s T (fst (save_loop cfg op permit result vs db)) (snd (save_loop cfg op permit result vs db))"
  using assms
proof (induction vs arbitrary: db)
  case (Cons v vs)
  obtain st db1 where call: "execute_save cfg (sv_fault v) (sv_release v) (sv_now v) op permit result db = (st, db1)" by fastforce
  have one: "path cfg cores lib wl h url_parse w s T st db1"
    using path_call [OF Cons.prems, of "execute_save cfg (sv_fault v) (sv_release v) (sv_now v) op permit result"] sys_event_step.save call by fastforce
  have st: "st = Idle \<or> st = Saving op permit result"
    using call by (auto simp: execute_save_def leave_def split: prod.splits sum.splits)
  have stop: "path cfg cores lib wl h url_parse w s T (fst (leave f permit db1)) (snd (leave f permit db1))" if "st = Saving op permit result" for f
    by (rule path_call [OF one]) (rule sys_event_step.stop, simp add: that)
  show ?case using st one stop Cons.IH [of db1] call by auto
qed simp

lemma worker_states:
  "fst (execute_acquire cfg url_parse f1 f2 entropy now op db) = Idle \<or> (\<exists>permit. fst (execute_acquire cfg url_parse f1 f2 entropy now op db) = Permitted op permit)"
  "fst (execute_dispatch cfg f1 f2 now op permit db) = Idle \<or> fst (execute_dispatch cfg f1 f2 now op permit db) = Dispatched op permit"
  "execute_reply cfg draw clock op permit outcome = Panicked \<or> (\<exists>reason t. execute_reply cfg draw clock op permit outcome = Retrying op permit reason t)
    \<or> (\<exists>result. execute_reply cfg draw clock op permit outcome = Saving op permit result)"
  "fst (run_reserve cfg f locked entropy now db) = Idle \<or> (\<exists>op. fst (run_reserve cfg f locked entropy now db) = Reserved op)"
  by (auto simp: execute_acquire_def execute_dispatch_def execute_reply_def run_reserve_def leave_def Let_def split: prod.split sum.split option.split)

lemma path_execute:
  assumes "path cfg cores lib wl h url_parse w s T (Reserved op) db" and "execute cfg c lib wl url_parse x op db = (st, db', ms)"
  shows "path cfg cores lib wl h url_parse w s T st db'"
proof -
  obtain fa fr now1 fd fl now2 fs fl' now3 where x: "ex_acquire x = (fa, fr, now1)" "ex_dispatch x = (fd, fl, now2)" "ex_retry x = (fs, fl', now3)"
    by (cases "ex_acquire x"; cases "ex_dispatch x"; cases "ex_retry x") auto
  note acquire = path_acquire [OF assms(1), of fa fr "ex_entropy x" now1]
  consider (none) "fst (execute_acquire cfg url_parse fa fr (ex_entropy x) now1 op db) = Idle"
    | (permit) permit where "fst (execute_acquire cfg url_parse fa fr (ex_entropy x) now1 op db) = Permitted op permit"
    using worker_states(1) by blast
  then show ?thesis
  proof cases
    case none
    then show ?thesis using acquire assms(2) by (cases "execute_acquire cfg url_parse fa fr (ex_entropy x) now1 op db") (simp add: execute_def x)
  next
    case permit
    obtain db1 where a: "execute_acquire cfg url_parse fa fr (ex_entropy x) now1 op db = (Permitted op permit, db1)" using permit by (metis prod.collapse)
    note dispatch = path_dispatch [OF acquire [unfolded a fst_conv snd_conv], of fd fl now2]
    consider (idle) "fst (execute_dispatch cfg fd fl now2 op permit db1) = Idle" | (out) "fst (execute_dispatch cfg fd fl now2 op permit db1) = Dispatched op permit"
      using worker_states(2) by blast
    then show ?thesis
    proof cases
      case idle
      then show ?thesis using dispatch assms(2) a by (cases "execute_dispatch cfg fd fl now2 op permit db1") (simp add: execute_def x)
    next
      case out
      obtain db2 where d: "execute_dispatch cfg fd fl now2 op permit db1 = (Dispatched op permit, db2)" using out by (metis prod.collapse)
      let ?r = "execute_reply cfg (ex_draw x) (ex_clock x) op permit (Do (ex_build x) (ex_net x) (cf_MaxResponseBytes cfg) (op_Request op))"
      note reply = path_reply [OF dispatch [unfolded d fst_conv snd_conv], of "ex_draw x" "ex_clock x" "ex_build x" "ex_net x"]
      consider (panic) "?r = Panicked" | (retry) reason t where "?r = Retrying op permit reason t" | (save) result where "?r = Saving op permit result"
        using worker_states(3) by blast
      then show ?thesis
      proof cases
        case panic
        then show ?thesis using reply assms(2) a d by (simp add: execute_def x)
      next
        case retry
        then show ?thesis using path_retry [OF reply [unfolded retry], of fs fl' now3] assms(2) a d
          by (auto simp: execute_def x split: prod.splits)
      next
        case save
        then show ?thesis using path_save [OF reply [unfolded save], of "ex_saves x"] assms(2) a d
          by (auto simp: execute_def x split: prod.splits)
      qed
    qed
  qed
qed

lemma path_reserve:
  assumes "path cfg cores lib wl h url_parse w s T Idle db" and "randomID entropy \<notin> sys_tokens s \<union> T"
  shows "path cfg cores lib wl h url_parse w s (insert (randomID entropy) T) (fst (run_reserve cfg f locked entropy now db)) (snd (run_reserve cfg f locked entropy now db))"
proof -
  have "path cfg cores lib wl h url_parse w s (T \<union> {randomID entropy}) (fst (run_reserve cfg f locked entropy now db)) (snd (run_reserve cfg f locked entropy now db))"
  proof (rule path_step [OF assms(1)])
    fix s1 :: sys assume s1: "sys_db s1 = db" "sys_workers s1 w = Idle" "sys_tokens s1 \<subseteq> sys_tokens s \<union> T"
    let ?r = "run_reserve cfg f locked entropy now db" and ?s = "s1\<lparr>sys_tokens := insert (randomID entropy) (sys_tokens s1)\<rparr>"
    have fresh: "randomID entropy \<notin> sys_tokens s1" using assms(2) s1(3) by blast
    show "\<exists>s2. sys_step cfg cores lib wl h url_parse s1 s2 \<and> sys_db s2 = snd ?r \<and> sys_workers s2 = (sys_workers s1)(w := fst ?r)
        \<and> sys_tokens s2 \<subseteq> sys_tokens s1 \<union> {randomID entropy}"
      using sys_stepI [OF sys_event_step.reserve [OF s1(2) fresh]] s1(1) by (intro exI [of _ "set_worker w ?r ?s"]) (simp add: set_worker_def)
  qed
  then show ?thesis by simp
qed

lemma path_run:
  assumes "path cfg cores lib wl h url_parse w s T Idle db" and "distinct (map (\<lambda>t. randomID (wt_entropy t)) ts)"
    and "\<forall>t \<in> set ts. randomID (wt_entropy t) \<notin> sys_tokens s \<union> T" and "worker_run cfg c lib wl url_parse ts db = (r, st, db', ms)"
  shows "\<exists>T'. path cfg cores lib wl h url_parse w s T' st db'"
  using assms
proof (induction ts arbitrary: T db r st db' ms)
  case (Cons t ts)
  let ?T = "insert (randomID (wt_entropy t)) T"
  have fresh: "randomID (wt_entropy t) \<notin> sys_tokens s \<union> T" "\<forall>t' \<in> set ts. randomID (wt_entropy t') \<notin> sys_tokens s \<union> ?T" "distinct (map (\<lambda>t. randomID (wt_entropy t)) ts)"
    using Cons.prems(2,3) by (simp_all add: image_iff) metis
  note reserve = path_reserve [OF Cons.prems(1) fresh(1), of "wt_fault t" "wt_locked t" "wt_now t"]
  show ?case
  proof (cases "wt_done t")
    case True
    then show ?thesis using Cons.prems by auto
  next
    case False
    obtain st1 db1 where r1: "run_reserve cfg (wt_fault t) (wt_locked t) (wt_entropy t) (wt_now t) db = (st1, db1)" by fastforce
    from worker_states(4) [of cfg "wt_fault t" "wt_locked t" "wt_entropy t" "wt_now t" db] r1
    consider (idle) "st1 = Idle" | (op) op where "st1 = Reserved op" by auto
    then show ?thesis
    proof cases
      case idle
      have p: "path cfg cores lib wl h url_parse w s ?T Idle db1" using reserve r1 idle by simp
      then show ?thesis using Cons.IH [OF p fresh(3,2)] Cons.prems(4) False r1 idle by (auto split: if_splits)
    next
      case op
      obtain st2 db2 ms2 where e: "execute cfg c lib wl url_parse (wt_execute t) op db1 = (st2, db2, ms2)" by (metis prod_cases3)
      have p: "path cfg cores lib wl h url_parse w s ?T st2 db2"
        using reserve r1 op by (intro path_execute [OF _ e]) simp
      show ?thesis
      proof (cases "st2 = Idle")
        case True
        obtain r3 st3 db3 ms3 where rest: "worker_run cfg c lib wl url_parse ts db2 = (r3, st3, db3, ms3)" by (metis prod_cases4)
        then show ?thesis using Cons.IH [OF p [unfolded True] fresh(3,2) rest] Cons.prems(4) False r1 op e True by simp
      next
        case False
        then have "st = st2 \<and> db' = db2" using Cons.prems(4) \<open>\<not> wt_done t\<close> r1 op e by (cases st2) simp_all
        then show ?thesis using p by blast
      qed
    qed
  qed
qed auto

text \<open>A worker returns only idle and without an error, so the pool does so when all its workers have returned.\<close>

lemma worker_run_returns: "worker_run cfg c lib wl url_parse ts db = (Some r, st, db', ms) \<Longrightarrow> r = Inr () \<and> st = Idle"
proof (induction ts arbitrary: db r st db' ms)
  case (Cons t ts)
  then show ?case by (auto split: if_splits prod.splits worker_state.splits)
qed simp

lemma pool_Run_ends: "\<forall>x \<in> set ends. fst x = Inr () \<Longrightarrow> pool_Run n ends = (if n \<le> length ends then Some (Inr ()) else None)"
  by (induction n ends rule: pool_Run.induct) (auto split: sum.split)

end
