(* ===== verification/Worker_Properties.thy ===== *)
theory Worker_Properties
  imports Worker_Run Gateway_Demo
begin

text \<open>
  What the whole code of a worker guarantees, from the guarantees of the step relation.
\<close>

text \<open>
  C40: The code of a worker does nothing but the steps that the guarantees are proved of. From every reachable
  state in which the worker is idle, whatever its turns meet (lost calls, failed exchanges, retries, a result
  that cannot be saved, the end of the context), \<^verbatim>\<open>run\<close> with \<^verbatim>\<open>execute\<close> leaves the database of a reachable state, in
  which the other workers are where they were; if it has returned, it is without an error and with nothing in hand.
\<close>

theorem worker_code_takes_only_steps:
  assumes "sys_reachable cfg cores lib wl h url_parse s" "sys_workers s w = Idle"
    and "distinct (map (\<lambda>t. randomID (wt_entropy t)) ts)" "\<forall>t \<in> set ts. randomID (wt_entropy t) \<notin> sys_tokens s"
    and "worker_run cfg (cores p) lib wl url_parse ts (sys_db s) = (r, st, db', ms)"
  shows "(\<exists>s'. sys_reachable cfg cores lib wl h url_parse s' \<and> sys_db s' = db' \<and> sys_workers s' = (sys_workers s)(w := st))
    \<and> (r \<noteq> None \<longrightarrow> r = Some (Inr ()) \<and> st = Idle)"
proof -
  have "path cfg cores lib wl h url_parse w s {} Idle (sys_db s)" using path_start [of cfg cores lib wl h url_parse w s "{}"] assms(2) by simp
  then have "\<exists>T. path cfg cores lib wl h url_parse w s T st db'" by (rule path_run [OF _ assms(3) _ assms(5)]) (use assms(4) in simp)
  then obtain T where "path cfg cores lib wl h url_parse w s T st db'" ..
  then obtain s' where "(sys_step cfg cores lib wl h url_parse)\<^sup>*\<^sup>* s s'" "sys_db s' = db'" "sys_workers s' = (sys_workers s)(w := st)"
    unfolding path_def by blast
  then show ?thesis using reach_steps [OF assms(1)] worker_run_returns assms(5) by fastforce
qed

text \<open>The request of \<open>Gateway_Demo\<close>, executed by a worker that then finds its context done.\<close>

definition small_config :: config where
  "small_config = demo_config\<lparr>cf_MaxResponseBytes := 64\<rparr>"

lemma small_reach: "sys_reachable small_config (\<lambda>_. demo_core) demo_crypto demo_wire demo_hash demo_url (demo_s0\<lparr>sys_db := demo_db2\<rparr>)"
proof -
  let ?step = "sys_step small_config (\<lambda>_. demo_core) demo_crypto demo_wire demo_hash demo_url" and ?s1 = "demo_s0\<lparr>sys_db := demo_db1\<rparr>"
  have "?step demo_s0 (demo_s0\<lparr>sys_db := fst (handleRequest demo_core demo_crypto demo_wire demo_url demo_io ''req'' (sys_db demo_s0))\<rparr>)"
    "?step ?s1 (?s1\<lparr>sys_db := fst (handleAcceptanceACK demo_core demo_crypto demo_wire demo_io ''ack'' (sys_db ?s1))\<rparr>)"
    by (rule sys_stepI, rule sys_event_step.request) (rule sys_stepI, rule sys_event_step.accepted_ack)
  then have "?step demo_s0 ?s1" "?step ?s1 (demo_s0\<lparr>sys_db := demo_db2\<rparr>)" by (simp_all add: demo_db1_def demo_db2_def demo_s0_def)
  moreover have "reach sys_init ?step demo_s0" by (rule reach.start) (simp add: sys_init_def demo_s0_def)
  ultimately show ?thesis using reach.step by metis
qed

definition demo_turns :: "worker_turn list" where
  "demo_turns =
     [\<lparr>wt_done = False, wt_fault = NoFault, wt_locked = [], wt_entropy = demo_entropy, wt_now = 200, wt_stopped = False,
       wt_execute = \<lparr>ex_entropy = ''fedcba9876543210'', ex_acquire = (NoFault, NoFault, 300), ex_dispatch = (NoFault, NoFault, 400),
         ex_build = (\<lambda>_ _. Inr ''bank''), ex_net = (\<lambda>_. Inl (ErrText ''connection reset'')), ex_draw = (\<lambda>_. 0), ex_clock = 500,
         ex_retry = (NoFault, NoFault, 500), ex_io = demo_io,
         ex_saves = [\<lparr>sv_fault = LostCall, sv_release = NoFault, sv_now = 600, sv_stopped = False\<rparr>,
           \<lparr>sv_fault = NoFault, sv_release = NoFault, sv_now = 700, sv_stopped = False\<rparr>]\<rparr>\<rparr>,
      \<lparr>wt_done = True, wt_fault = NoFault, wt_locked = [], wt_entropy = [], wt_now = 800, wt_stopped = False,
       wt_execute = \<lparr>ex_entropy = [], ex_acquire = (NoFault, NoFault, 0), ex_dispatch = (NoFault, NoFault, 0),
         ex_build = (\<lambda>_ _. Inr ''bank''), ex_net = (\<lambda>_. Inl ErrUnavailable), ex_draw = (\<lambda>_. 0), ex_clock = 0,
         ex_retry = (NoFault, NoFault, 0), ex_io = demo_io, ex_saves = []\<rparr>\<rparr>]"

definition demo_work :: "unit go_result option \<times> worker_state \<times> proxy_db \<times> nats_msg list" where
  "demo_work = worker_run small_config demo_core demo_crypto demo_wire demo_url demo_turns demo_db2"

lemma demo_work_result:
  "(case demo_work of (r, st, db, ms) \<Rightarrow> r = Some (Inr ()) \<and> map_option rq_status (request_of ''r1'' db) = Some unknown \<and> length ms = 1)"
  by code_simp

theorem worker_code_takes_only_steps_witness:
  "\<exists>s db ms. demo_work = (Some (Inr ()), Idle, db, ms) \<and> sys_reachable small_config (\<lambda>_. demo_core) demo_crypto demo_wire demo_hash demo_url s \<and> sys_db s = db \<and> sys_workers s = (\<lambda>_. Idle)
     \<and> map_option rq_status (request_of ''r1'' db) = Some unknown"
proof -
  obtain r st db ms where work: "demo_work = (r, st, db, ms)" by (metis prod_cases4)
  have res: "r = Some (Inr ())" "map_option rq_status (request_of ''r1'' db) = Some unknown" using demo_work_result by (simp_all add: work)
  have tokens: "distinct (map (\<lambda>t. randomID (wt_entropy t)) demo_turns)" by code_simp
  have start: "sys_workers (demo_s0\<lparr>sys_db := demo_db2\<rparr>) = (\<lambda>_. Idle)" "sys_tokens (demo_s0\<lparr>sys_db := demo_db2\<rparr>) = {}"
    by (simp_all add: demo_s0_def)
  have "worker_run small_config demo_core demo_crypto demo_wire demo_url demo_turns (sys_db (demo_s0\<lparr>sys_db := demo_db2\<rparr>)) = (r, st, db, ms)"
    using work by (simp add: demo_work_def)
  then have "(\<exists>s'. sys_reachable small_config (\<lambda>_. demo_core) demo_crypto demo_wire demo_hash demo_url s' \<and> sys_db s' = db \<and> sys_workers s' = (sys_workers (demo_s0\<lparr>sys_db := demo_db2\<rparr>))(0 := st))
      \<and> (r \<noteq> None \<longrightarrow> r = Some (Inr ()) \<and> st = Idle)"
    by (intro worker_code_takes_only_steps [OF small_reach _ tokens]) (simp_all add: start)
  then show ?thesis using res work by (auto simp: start)
qed

end
