(* ===== verification/App_Server.thy ===== *)
theory App_Server
  imports App_Http Repo_Maintenance
begin

text \<open>
  The public server of \<^verbatim>\<open>internal/app/app.go\<close>: the routes of \<^verbatim>\<open>Handler\<close>, the handler of the metrics, and \<^verbatim>\<open>Run\<close>.
\<close>

subsection \<open>Routes\<close>

datatype endpoint = Live | ReadyCheck | MetricsPage | Webhook string string

text \<open>
  \<^verbatim>\<open>http.ServeMux\<close> on the four patterns: \<open>segments\<close> is the clean path of the request, split at its slashes with
  each segment decoded. A pattern with \<^verbatim>\<open>GET\<close> admits \<^verbatim>\<open>HEAD\<close> too; a known path with another method is
  answered 405 with the methods allowed.
\<close>

definition not_allowed :: http_reply where
  "not_allowed = (http_Error ''Method Not Allowed'' 405)\<lparr>re_Header :=
     (''Allow'', [''GET, HEAD'']) # re_Header (http_Error ''Method Not Allowed'' 405)\<rparr>"

definition only_get :: "string \<Rightarrow> endpoint \<Rightarrow> http_reply + endpoint" where
  "only_get verb e = (if verb = ''GET'' \<or> verb = ''HEAD'' then Inr e else Inl not_allowed)"

definition app_routes :: "string \<Rightarrow> string list \<Rightarrow> http_reply + endpoint" where
  "app_routes verb segments =
     (if segments = [''health'', ''live''] then only_get verb Live
      else if segments = [''health'', ''ready''] then only_get verb ReadyCheck
      else if segments = [''metrics''] then only_get verb MetricsPage
      else case segments of
             [a, b, i, t] \<Rightarrow> if a = ''v1'' \<and> b = ''webhooks'' \<and> i \<noteq> [] \<and> t \<noteq> [] then Inr (Webhook i t) else Inl http_NotFound
           | _ \<Rightarrow> Inl http_NotFound)"

text \<open>\<^verbatim>\<open>metrics\<close>: the gauge of open deliveries is set when the query succeeds; the page itself is the library's.\<close>

definition app_metrics :: "fault \<Rightarrow> proxy_db \<Rightarrow> int \<Rightarrow> int" where
  "app_metrics f db gauge =
     (case fst (db_call f (\<lambda>db. (Inr (Stats db), db)) db) of Inl _ \<Rightarrow> gauge | Inr st \<Rightarrow> int (st_Deliveries st))"

text \<open>
  A request to the server, up to the call of \<^verbatim>\<open>DeliverWebhook\<close>; \<open>page\<close> is the page of the Prometheus library.
\<close>

definition app_serve ::
  "hash_lib \<Rightarrow> int \<Rightarrow> bool \<Rightarrow> bytes \<Rightarrow> go_time \<Rightarrow> bool \<Rightarrow> bool \<Rightarrow> bool \<Rightarrow> http_reply \<Rightarrow> string list \<Rightarrow> public_request \<Rightarrow> proxy_db \<Rightarrow>
   http_reply + webhook_event \<times> webhook_route" where
  "app_serve h maxBody db_fails entropy clock is_ready transport_ready ping_ok page segments q db =
     (case app_routes (pr_Method q) segments of
        Inl reply \<Rightarrow> Inl reply
      | Inr Live \<Rightarrow> Inl \<lparr>re_Status = 204, re_Header = [], re_Body = []\<rparr>
      | Inr ReadyCheck \<Rightarrow> Inl (readiness is_ready transport_ready ping_ok)
      | Inr MetricsPage \<Rightarrow> Inl page
      | Inr (Webhook i t) \<Rightarrow> webhook_begin h maxBody db_fails entropy clock (q\<lparr>pr_id := i, pr_token := t\<rparr>) db)"

subsection \<open>Running\<close>

text \<open>The server that \<^verbatim>\<open>Run\<close> configures: its address and its time limits.\<close>

record http_server =
  hs_Addr :: string
  hs_ReadHeaderTimeout :: go_duration
  hs_ReadTimeout :: go_duration
  hs_WriteTimeout :: go_duration
  hs_IdleTimeout :: go_duration

definition app_server :: "string \<Rightarrow> http_server" where
  "app_server addr = \<lparr>hs_Addr = addr, hs_ReadHeaderTimeout = 5000000000, hs_ReadTimeout = 120000000000, hs_WriteTimeout = 120000000000,
     hs_IdleTimeout = 60000000000\<rparr>"

text \<open>
  \<^verbatim>\<open>Run\<close> is ready at once and waits for the end of its context, which carries what \<^verbatim>\<open>Shutdown\<close> returns within 15
  seconds, or for the end of \<^verbatim>\<open>ListenAndServe\<close>; \<^verbatim>\<open>http.ErrServerClosed\<close> is no error.
\<close>

datatype serve_error = ServerClosed | ServeFailed go_error

datatype app_event = AppCancelled "unit go_result" | ServeEnded serve_error

record app_status =
  as_ready :: bool
  as_end :: "unit go_result option"

definition app_Run_start :: app_status where
  "app_Run_start = \<lparr>as_ready = True, as_end = None\<rparr>"

definition app_Run_event :: "app_event \<Rightarrow> app_status \<Rightarrow> app_status" where
  "app_Run_event e a =
     (if as_end a \<noteq> None then a
      else case e of
             AppCancelled shutdown \<Rightarrow> \<lparr>as_ready = False, as_end = Some shutdown\<rparr>
           | ServeEnded ServerClosed \<Rightarrow> a\<lparr>as_end := Some (Inr ())\<rparr>
           | ServeEnded (ServeFailed err) \<Rightarrow> a\<lparr>as_end := Some (Inl err)\<rparr>)"

subsection \<open>Lemmas\<close>

lemma app_routes_webhook: "app_routes verb segments = Inr (Webhook i t) \<longleftrightarrow> segments = [''v1'', ''webhooks'', i, t] \<and> i \<noteq> [] \<and> t \<noteq> []"
  by (auto simp: app_routes_def only_get_def split: list.splits if_splits)

text \<open>Only a request to the path of a callback gets as far as the database of routes.\<close>

lemma app_serve_event:
  assumes "app_serve h maxBody db_fails entropy clock is_ready transport_ready ping_ok page segments q db = Inr (event, route)"
  shows "\<exists>i t. segments = [''v1'', ''webhooks'', i, t] \<and> i \<noteq> [] \<and> t \<noteq> []
    \<and> webhook_begin h maxBody db_fails entropy clock (q\<lparr>pr_id := i, pr_token := t\<rparr>) db = Inr (event, route)"
proof -
  obtain i t where "app_routes (pr_Method q) segments = Inr (Webhook i t)"
    "webhook_begin h maxBody db_fails entropy clock (q\<lparr>pr_id := i, pr_token := t\<rparr>) db = Inr (event, route)"
    using assms by (auto simp: app_serve_def split: sum.splits endpoint.splits)
  then show ?thesis by (auto simp: app_routes_webhook)
qed

text \<open>The first end counts, and once the context has ended the process is never reported ready again.\<close>

lemma app_Run_final: "as_end a = Some r \<Longrightarrow> fold app_Run_event es a = a"
  by (induction es) (simp_all add: app_Run_event_def)

lemma not_ready_after_cancel:
  "readiness (as_ready (fold app_Run_event es (app_Run_event (AppCancelled shutdown) app_Run_start))) transport_ready ping_ok = http_Error ''not ready'' 503"
proof -
  have "fold app_Run_event es (app_Run_event (AppCancelled shutdown) app_Run_start) = app_Run_event (AppCancelled shutdown) app_Run_start"
    by (rule app_Run_final) (simp add: app_Run_event_def app_Run_start_def)
  then show ?thesis by (simp add: readiness_def app_Run_event_def app_Run_start_def)
qed

end
