(* ===== verification/Client_Lifecycle.thy ===== *)
theory Client_Lifecycle
  imports Client_Service Client_Migration Postgres_Store
begin

text \<open>
  Opening and closing of the client library: \<^verbatim>\<open>NewPostgresStore\<close>, \<^verbatim>\<open>OpenPostgresStore\<close> and \<^verbatim>\<open>Close\<close> of
  \<^verbatim>\<open>client/postgres_store.go\<close>, \<^verbatim>\<open>NewTransport\<close>, \<^verbatim>\<open>OpenTransport\<close> and \<^verbatim>\<open>Close\<close> of \<^verbatim>\<open>client/client.go\<close>. Who has opened the
  pool of connections closes it, once, on every path.
\<close>

subsection \<open>The store\<close>

record pg_store =
  ps_prefix :: string
  ps_operations :: string
  ps_callbacks :: string
  ps_owned :: bool

datatype pool_event = PoolOpened | PoolClosed

definition DefaultTablePrefix :: string where "DefaultTablePrefix = ''natsproxyclient_''"

fun apply_options :: "string list \<Rightarrow> string \<Rightarrow> string go_result" where
  "apply_options [] tables_prefix = Inr tables_prefix"
| "apply_options (option # options) tables_prefix = go_try (WithTablePrefix option) (apply_options options)"

text \<open>The tables of the database, by their prefix; \<open>flt\<close> is what happens to the connection in \<^verbatim>\<open>Migrate\<close>.\<close>

type_synonym ('a, 'b) client_tables = "string \<Rightarrow> 'a client_table option \<times> 'b client_table option"

definition NewPostgresStore ::
  "(json \<Rightarrow> string) \<Rightarrow> bool \<Rightarrow> string list \<Rightarrow> fault \<Rightarrow> ('a, 'b) client_tables \<Rightarrow> pg_store go_result \<times> ('a, 'b) client_tables" where
  "NewPostgresStore text has_pool options flt tables =
     (if \<not> has_pool then (Inl (ErrText ''PostgreSQL pool is required''), tables)
      else case apply_options options DefaultTablePrefix of
             Inl e \<Rightarrow> (Inl e, tables)
           | Inr p \<Rightarrow>
               (case db_call flt (pg_Migrate text p) (tables p) of
                  (Inl e, t) \<Rightarrow> (Inl e, tables(p := t))
                | (Inr _, t) \<Rightarrow>
                    (Inr \<lparr>ps_prefix = p, ps_operations = quoteIdentifier (p @ ''operations''), ps_callbacks = quoteIdentifier (p @ ''callback_events''),
                       ps_owned = False\<rparr>, tables(p := t))))"

definition OpenPostgresStore ::
  "(json \<Rightarrow> string) \<Rightarrow> bool \<Rightarrow> bool \<Rightarrow> string list \<Rightarrow> fault \<Rightarrow> ('a, 'b) client_tables \<Rightarrow>
   pg_store go_result \<times> ('a, 'b) client_tables \<times> pool_event list" where
  "OpenPostgresStore text opens pings options flt tables =
     (if \<not> opens then (Inl ErrUnavailable, tables, [])
      else if \<not> pings then (Inl ErrUnavailable, tables, [PoolOpened, PoolClosed])
      else case NewPostgresStore text True options flt tables of
             (Inl e, tables') \<Rightarrow> (Inl e, tables', [PoolOpened, PoolClosed])
           | (Inr store, tables') \<Rightarrow> (Inr (store\<lparr>ps_owned := True\<rparr>), tables', [PoolOpened]))"

definition pg_Close :: "pg_store option \<Rightarrow> pool_event list" where
  "pg_Close store = (case store of None \<Rightarrow> [] | Some st \<Rightarrow> if ps_owned st then [PoolClosed] else [])"

subsection \<open>The client\<close>

text \<open>\<open>oc_close\<close> is \<^verbatim>\<open>closeStore\<close>, \<open>oc_callbacks\<close> whether there is a subscription of \<^verbatim>\<open>ServeCallbacks\<close>.\<close>

record 's open_client =
  oc_cfg :: client_config
  oc_sys :: "'s client_sys"
  oc_callbacks :: bool
  oc_close :: "pg_store option"

definition NewTransport ::
  "bool \<Rightarrow> bool \<Rightarrow> (string \<Rightarrow> bool) \<Rightarrow> bool \<Rightarrow> 's store_api \<Rightarrow> (string \<Rightarrow> int \<Rightarrow> 's \<Rightarrow> stored_operation list go_result) \<Rightarrow>
   client_config \<Rightarrow> (nat \<Rightarrow> start_io) \<Rightarrow> 's \<Rightarrow> 's open_client go_result" where
  "NewTransport has_conn has_store subscribes flushes api list cfg ios s =
     map_sum id (\<lambda>(cfg', y). \<lparr>oc_cfg = cfg', oc_sys = y, oc_callbacks = False, oc_close = None\<rparr>)
       (client_open has_conn has_store subscribes flushes api list cfg ios s)"

text \<open>\<open>content\<close> gives what the store of a prefix holds.\<close>

definition OpenTransport ::
  "(json \<Rightarrow> string) \<Rightarrow> bool \<Rightarrow> bool \<Rightarrow> string list \<Rightarrow> fault \<Rightarrow> (pg_store \<Rightarrow> 's) \<Rightarrow> bool \<Rightarrow> (string \<Rightarrow> bool) \<Rightarrow> bool \<Rightarrow>
   's store_api \<Rightarrow> (string \<Rightarrow> int \<Rightarrow> 's \<Rightarrow> stored_operation list go_result) \<Rightarrow> client_config \<Rightarrow> (nat \<Rightarrow> start_io) \<Rightarrow> ('a, 'b) client_tables \<Rightarrow>
   's open_client go_result \<times> ('a, 'b) client_tables \<times> pool_event list" where
  "OpenTransport text opens pings options flt content has_conn subscribes flushes api list cfg ios tables =
     (case OpenPostgresStore text opens pings options flt tables of
        (Inl e, tables', es) \<Rightarrow> (Inl e, tables', es)
      | (Inr store, tables', es) \<Rightarrow>
          (case NewTransport has_conn True subscribes flushes api list cfg ios (content store) of
             Inl e \<Rightarrow> (Inl e, tables', es @ pg_Close (Some store))
           | Inr client \<Rightarrow> (Inr (client\<lparr>oc_close := Some store\<rparr>), tables', es)))"

text \<open>\<^verbatim>\<open>Close\<close> of the client: what it does, in this order.\<close>

datatype close_event = ContextCancelled | SubscriptionDrained string | GoroutinesDone | PoolEvent pool_event

definition Client_Close :: "'s open_client \<Rightarrow> close_event list" where
  "Client_Close client =
     [ContextCancelled]
     @ map SubscriptionDrained (map fst (client_subscriptions (oc_cfg client))
          @ (if oc_callbacks client then [client_subject (oc_cfg client) ''webhooks.events''] else []))
     @ [GoroutinesDone]
     @ map PoolEvent (pg_Close (oc_close client))"

subsection \<open>Lemmas\<close>

lemma NewPostgresStore_owned: "NewPostgresStore text has_pool options flt tables = (Inr store, tables') \<Longrightarrow> \<not> ps_owned store"
  by (auto simp: NewPostgresStore_def split: if_splits sum.splits prod.splits)

lemma OpenPostgresStore_pool:
  "OpenPostgresStore text opens pings options flt tables = (r, tables', es) \<Longrightarrow>
   (case r of Inl _ \<Rightarrow> es = [] \<or> es = [PoolOpened, PoolClosed] | Inr store \<Rightarrow> es = [PoolOpened] \<and> ps_owned store)"
  by (auto simp: OpenPostgresStore_def split: if_splits sum.splits prod.splits)

text \<open>What was opened is closed exactly once: at once when opening fails, by \<^verbatim>\<open>Close\<close> otherwise, and then last.\<close>

lemma opened_pool_is_closed_once:
  assumes "OpenTransport text opens pings options flt content has_conn subscribes flushes api list cfg ios tables = (r, tables', es)"
  shows "case r of
      Inl _ \<Rightarrow> es = [] \<or> es = [PoolOpened, PoolClosed]
    | Inr client \<Rightarrow> es = [PoolOpened] \<and> (\<exists>before. Client_Close client = before @ [GoroutinesDone, PoolEvent PoolClosed] \<and> PoolEvent PoolClosed \<notin> set before)"
proof (cases "OpenPostgresStore text opens pings options flt tables")
  case (fields r0 tables0 es0)
  show ?thesis
  proof (cases r0)
    case (Inl e)
    then show ?thesis using assms fields OpenPostgresStore_pool [OF fields] by (auto simp: OpenTransport_def)
  next
    case (Inr store)
    then have store: "es0 = [PoolOpened]" "ps_owned store" using OpenPostgresStore_pool [OF fields] by simp_all
    show ?thesis
    proof (cases "NewTransport has_conn True subscribes flushes api list cfg ios (content store)")
      case (Inl e)
      then have "r = Inl e \<and> es = es0 @ pg_Close (Some store)" using assms fields Inr by (simp add: OpenTransport_def)
      then show ?thesis using store by (simp add: pg_Close_def)
    next
      case new: (Inr client)
      then have "r = Inr (client\<lparr>oc_close := Some store\<rparr>) \<and> es = es0" using assms fields Inr by (simp add: OpenTransport_def)
      then show ?thesis using store by (auto simp: Client_Close_def pg_Close_def)
    qed
  qed
qed

text \<open>A pool that the caller has opened is left open.\<close>

lemma foreign_pool_is_left_open:
  "NewTransport has_conn has_store subscribes flushes api list cfg ios s = Inr client \<Longrightarrow> PoolEvent PoolClosed \<notin> set (Client_Close client)"
  by (auto simp: NewTransport_def Client_Close_def pg_Close_def map_sum_def split: sum.splits prod.splits)

end
