(* ===== verification/Client_Calls.thy ===== *)
theory Client_Calls
  imports Client_Service
begin

text \<open>
  \<^verbatim>\<open>RoundTrip\<close> and \<^verbatim>\<open>Do\<close> of \<^verbatim>\<open>client/outgoing.go\<close> as whole calls: what they save, start and wait for. A call changes
  the client by one step of \<open>Client_System\<close>, and a call that repeats a completed one publishes nothing.
\<close>

subsection \<open>Starting a run\<close>

text \<open>\<^verbatim>\<open>start\<close> on the state of the client: the new run, its channels and its first message.\<close>

definition start_run :: "'s store_api \<Rightarrow> client_config \<Rightarrow> start_io \<Rightarrow> http_request \<Rightarrow> 's client_sys \<Rightarrow> start_answer \<times> 's client_sys" where
  "start_run api cfg io q y =
     (case client_start api (so_now io) (so_fault io) (so_load_fails io) q (\<lambda>rid. cy_runs y rid \<noteq> None) (cy_store y) of
        (Begun req, s) \<Rightarrow>
          (Begun req, advance (hq_RequestID req) (open_channels (hq_RequestID req) (cy_client y)) (execute_begin cfg req s) y)
      | (ans, s) \<Rightarrow> (ans, y\<lparr>cy_store := s\<rparr>))"

subsection \<open>Waiting\<close>

text \<open>
  The end of a wait: the caller's context, with the text of its error, or the run. \<open>wait_end\<close> takes which of
  the two the \<^verbatim>\<open>select\<close> chooses; the outcome of a run that was complete at the start is known then.
\<close>

datatype call_end = CallerDone string | RunDone operation_outcome

fun wait_end :: "start_answer \<Rightarrow> string + operation_outcome \<Rightarrow> call_end" where
  "wait_end ans (Inl text) = CallerDone text"
| "wait_end ans (Inr o1) = RunDone (case ans of AlreadyDone done \<Rightarrow> done | _ \<Rightarrow> o1)"

definition round_trip_wait :: "call_end \<Rightarrow> run_error + http_response" where
  "round_trip_wait e = (case e of CallerDone text \<Rightarrow> Inl (RunError (ErrText text)) | RunDone o1 \<Rightarrow> round_trip_response o1)"

definition do_wait :: "call_end \<Rightarrow> operation_outcome" where
  "do_wait e =
     (case e of CallerDone text \<Rightarrow> \<lparr>oo_result = zero_http_result, oo_err = Some (RunError (ErrText text))\<rparr> | RunDone o1 \<Rightarrow> o1)"

subsection \<open>The calls\<close>

text \<open>
  The state returned is the one right after \<^verbatim>\<open>start\<close>; what happens during the wait are steps of the system.
  \<open>given\<close> is whether the request and its URL are there.
\<close>

definition client_Do ::
  "'s store_api \<Rightarrow> client_config \<Rightarrow> start_io \<Rightarrow> bytes \<Rightarrow> go_time \<Rightarrow> http_request \<Rightarrow> string + operation_outcome \<Rightarrow> 's client_sys \<Rightarrow>
   operation_outcome \<times> 's client_sys" where
  "client_Do api cfg io entropy clock q e y =
     (case start_run api cfg io (do_request cfg entropy clock q) y of
        (StartFailed err, y') \<Rightarrow> (\<lparr>oo_result = zero_http_result, oo_err = Some (RunError err)\<rparr>, y')
      | (ans, y') \<Rightarrow> (do_wait (wait_end ans e), y'))"

definition RoundTrip ::
  "'s store_api \<Rightarrow> client_config \<Rightarrow> start_io \<Rightarrow> bytes \<Rightarrow> go_time \<Rightarrow> string \<Rightarrow> retry_policy \<Rightarrow> go_time option \<Rightarrow> bool \<Rightarrow> http_call \<Rightarrow>
   bytes go_result \<Rightarrow> string + operation_outcome \<Rightarrow> 's client_sys \<Rightarrow> (run_error + http_response) \<times> 's client_sys" where
  "RoundTrip api cfg io entropy clock ctx_id policy deadline given req body e y =
     (if \<not> given then (Inl (RunError (ErrText ''nil HTTP request or URL'')), y)
      else case round_trip_request cfg entropy clock ctx_id policy deadline req body of
             Inl err \<Rightarrow> (Inl (RunError err), y)
           | Inr q \<Rightarrow>
               (case start_run api cfg io q y of
                  (StartFailed err, y') \<Rightarrow> (Inl (RunError err), y')
                | (ans, y') \<Rightarrow> (round_trip_wait (wait_end ans e), y')))"

subsection \<open>Lemmas\<close>

lemma start_run_step:
  assumes "plain_request cfg q"
  shows "client_step api cfg lib wl y (snd (start_run api cfg io q y))"
proof (cases "client_start api (so_now io) (so_fault io) (so_load_fails io) q (\<lambda>rid. cy_runs y rid \<noteq> None) (cy_store y)")
  case (Pair ans s)
  then show ?thesis
    by (cases ans) (auto simp: start_run_def intro!: client_stepI client_event_step.begin_run [OF assms] client_event_step.no_run [OF assms])
qed

lemma client_Do_state: "snd (client_Do api cfg io entropy clock q e y) = snd (start_run api cfg io (do_request cfg entropy clock q) y)"
  by (simp add: client_Do_def split: prod.split start_answer.split)

text \<open>A call of \<^verbatim>\<open>RoundTrip\<close> leaves the client as it is, when the request cannot be built, or starts the run of that request.\<close>

lemma RoundTrip_state:
  "snd (RoundTrip api cfg io entropy clock ctx_id policy deadline given req body e y) = y
   \<or> (\<exists>q. round_trip_request cfg entropy clock ctx_id policy deadline req body = Inr q
        \<and> snd (RoundTrip api cfg io entropy clock ctx_id policy deadline given req body e y) = snd (start_run api cfg io q y))"
  by (auto simp: RoundTrip_def split: sum.split prod.split start_answer.split)

text \<open>A call of a completed operation returns the stored result, publishes nothing and starts nothing.\<close>

lemma repeated_call:
  assumes "start_run api cfg io q y = (AlreadyDone o1, y')"
  shows "cy_sent y' = cy_sent y \<and> cy_runs y' = cy_runs y \<and> wait_end (AlreadyDone o1) (Inr o2) = RunDone o1
    \<and> (\<exists>stored r. sa_Load api (hq_ProxyID q) (hq_RequestID q) (cy_store y') = Inr stored \<and> so_State stored = StateComplete
         \<and> so_Result stored = Some r \<and> o1 = stored_outcome r (hq_RequestID (so_Request stored)))"
  using assms
  by (auto simp: start_run_def client_start_def Let_def split: prod.splits start_answer.splits if_splits sum.splits option.splits client_state.splits)

text \<open>A response without error is the result of an outcome without error.\<close>

lemma RoundTrip_response:
  assumes "RoundTrip api cfg io entropy clock ctx_id policy deadline given req body e y = (Inr response, y')"
  shows "\<exists>o1. oo_err o1 = None \<and> hr_StatusCode response = rs_StatusCode (oo_result o1) \<and> hr_Body response = rs_Body (oo_result o1)
    \<and> hr_Header response = fieldsToHeader (rs_Headers (oo_result o1))
    \<and> (e = Inr o1 \<or> (\<exists>q. fst (start_run api cfg io q y) = AlreadyDone o1))"
proof -
  obtain q ans where q: "start_run api cfg io q y = (ans, y')" "round_trip_wait (wait_end ans e) = Inr response"
    using assms by (auto simp: RoundTrip_def split: if_splits sum.splits prod.splits start_answer.splits)
  then obtain o2 where e: "e = Inr o2" by (cases e) (auto simp: round_trip_wait_def)
  let ?o = "case ans of AlreadyDone done \<Rightarrow> done | _ \<Rightarrow> o2"
  have "round_trip_response ?o = Inr response" using q(2) e by (simp add: round_trip_wait_def)
  moreover have "e = Inr ?o \<or> fst (start_run api cfg io q y) = AlreadyDone ?o" using e q(1) by (cases ans) auto
  ultimately show ?thesis by (auto simp: round_trip_response_def split: option.splits intro!: exI [of _ ?o])
qed

text \<open>\<^verbatim>\<open>resumePending\<close> starts the stored requests one after the other.\<close>

lemma resume_operations_start_run:
  "resume_operations api cfg ios n ops y = fst (fold (\<lambda>op (y, n). (snd (start_run api cfg (ios n) (so_Request op) y), Suc n)) ops (y, n))"
proof (induction ops arbitrary: n y)
  case (Cons op ops)
  then show ?case by (auto simp: start_run_def split: prod.split start_answer.split)
qed simp

end
