(* ===== verification/Spec2Isabelle.thy ===== *)
theory Spec2Isabelle
  imports Outgoing_Properties Repository_Properties Edge_Properties Policy_Properties Webhook_Properties
    Store_Properties Client_Properties Client_Restart Client_Migration App_Properties Wiring_Properties Json_Equality
    Gateway_Properties Worker_Properties App_Server Client_Lifecycle Client_Calls
begin

text \<open>
  A verification of \<^verbatim>\<open>go-proxy-gateway\<close>: a proxy that executes HTTP requests on behalf of clients which talk
  to it over NATS only, publishes callback URLs for them, and keeps all of its state in PostgreSQL; and
  the client library with its own durable store.

  \<^bold>\<open>The program.\<close> A client library call (\<^verbatim>\<open>client/outgoing.go\<close>) saves a request in the client's store and
  publishes it in a signed envelope (\<^verbatim>\<open>internal/message\<close>) until the proxy answers. The proxy's transport
  (\<^verbatim>\<open>internal/transport\<close>) authenticates it, stores it with a delivery of the acceptance
  (\<^verbatim>\<open>internal/repository\<close>) and repeats that delivery until it is confirmed. Only then a worker
  (\<^verbatim>\<open>internal/worker\<close>) reserves the request, obtains a permit for its host, commits that it is being
  dispatched, and sends it (\<^verbatim>\<open>internal/httpx\<close>). The result is stored with a delivery that is repeated until
  the client has confirmed it. A background job (\<^verbatim>\<open>cmd/proxy/main.go\<close>) closes dispatches whose lease has
  expired as \<open>unknown\<close> and deletes finished rows. In the other direction the public endpoint
  (\<^verbatim>\<open>internal/app\<close>) stores a callback as an event with one delivery per subscriber, and either answers at
  once or waits for the response of one delegated client.

  \<^bold>\<open>How it is modelled.\<close> Every operation is a function of the source's structure that returns the new state
  together with a value or an error (\<open>go_result\<close>). The database is a record of tables, a table a list of
  rows (\<open>Sql_Table\<close> gives the statements); a transaction is one function of the database, and a call of it
  can be lost before or after its commit (\<open>db_call\<close>, \<open>fault\<close>). Strings and byte slices are lists of bytes,
  a \<^verbatim>\<open>time.Duration\<close> is an integer of nanoseconds with the 64-bit wrap-around written out where the code
  can overflow. JSON is modelled on parsed values with the tables of struct tags (\<open>Go_Json\<close>, \<open>Contracts\<close>).
  What runs concurrently (workers, handlers, delivery loops, maintenance, crashes; on the client the runs of
  operations) is cut at its database and network points, and the cuts are the rules of a step relation.

  \<^bold>\<open>Theories, by source file.\<close>
  \<^item> Language and library: \<open>Gateway_Prelude\<close>, \<open>Go_Strings\<close>, \<open>Go_Encoding\<close> (hex, base64, durations),
    \<open>Go_Json\<close>, \<open>Json_Equality\<close> (what \<^verbatim>\<open>jsonEqual\<close> decides), \<open>Sql_Table\<close>, \<open>Transition_System\<close>.
  \<^item> \<^verbatim>\<open>internal/contracts\<close>: \<open>Contracts\<close>, \<open>Contract_Codecs\<close> (locale \<open>wire_codec\<close>, interpreted for every struct).
  \<^item> \<^verbatim>\<open>internal/config\<close>: \<open>Gateway_Config\<close>. \<^verbatim>\<open>internal/message\<close>: \<open>Message_Envelope\<close>. \<^verbatim>\<open>internal/httpx\<close>: \<open>Http_Executor\<close>.
  \<^item> \<^verbatim>\<open>internal/repository\<close>: \<open>Proxy_Db\<close> (schema and shared parts), \<open>Repo_Outgoing\<close> (\<^verbatim>\<open>outgoing.go\<close>,
    \<^verbatim>\<open>delivery.go\<close>), \<open>Repo_Limits\<close>, \<open>Repo_Maintenance\<close>, \<open>Repo_Webhook\<close>, \<open>Proxy_Migrations\<close> (\<^verbatim>\<open>Migrate\<close>).
  \<^item> \<^verbatim>\<open>internal/worker\<close>: \<open>Worker_Pool\<close> (\<^verbatim>\<open>execute\<close> cut at its waits), \<open>Worker_Run\<close> (the whole functions).
  \<^item> \<^verbatim>\<open>internal/transport\<close>: \<open>Transport_Core\<close> (\<^verbatim>\<open>core.go\<close>, \<^verbatim>\<open>outgoing.go\<close>, one turn
    of \<^verbatim>\<open>delivery.go\<close>), \<open>Transport_Callback\<close>, \<open>Transport_Run\<close> (\<^verbatim>\<open>Run\<close>, \<^verbatim>\<open>Ready\<close>, the whole delivery loop).
  \<^item> \<^verbatim>\<open>internal/app\<close>: \<open>App_Http\<close> (the handlers), \<open>App_Server\<close> (the routes, \<^verbatim>\<open>Run\<close>). \<^verbatim>\<open>cmd/proxy\<close>: \<open>Proxy_Main\<close>.
  \<^item> \<^verbatim>\<open>client\<close>: \<open>Client_Store\<close> (the interfaces and their contracts as locales), \<open>Memory_Store\<close>, \<open>Postgres_Store\<close>,
    \<open>Client_Migration\<close>, \<open>Client_Core\<close>, \<open>Client_Outgoing\<close>, \<open>Client_Callbacks\<close>, \<open>Client_Service\<close> (\<^verbatim>\<open>New\<close>,
    \<^verbatim>\<open>subscribe\<close>, \<^verbatim>\<open>resumePending\<close>, \<^verbatim>\<open>cleanupLoop\<close>, \<^verbatim>\<open>ServeCallbacks\<close>), \<open>Client_Calls\<close> (\<^verbatim>\<open>RoundTrip\<close> and \<^verbatim>\<open>Do\<close> whole),
    \<open>Client_Lifecycle\<close> (who opens and closes the pool).
  \<^item> Whole systems: \<open>Outgoing_System\<close> (all processes of one proxy on one database), \<open>Client_System\<close>
    (one client process after another on one store), each a relation labelled with what crosses its border
    (\<open>sys_event\<close>, \<open>client_event\<close>); \<open>Message_Flow\<close> and \<open>Client_Flow\<close> follow the messages through either;
    \<open>Gateway_System\<close> puts the two on one network that loses, repeats, delays and reorders;
    \<open>Sample_Wire\<close> is a text form of JSON that satisfies the parameters, \<open>Gateway_Run\<close> a complete exchange on it.

  \<^bold>\<open>What the lemmas show.\<close>
  \<^item> \<open>Request_Lifecycle\<close> states what may happen to a stored request and the invariant \<open>repo_inv\<close> that ties
    requests to deliveries; \<open>Outgoing_Invariants\<close> and \<open>Repository_Safety\<close> show that every operation follows it.
  \<^item> \<open>Outgoing_Safety\<close> and \<open>Outgoing_Guarantees\<close> carry the invariant of the whole system through every step;
    \<open>Outgoing_Properties\<close> reads off the guarantees (at most one call of an unsafe request, attempts within
    the policy, nothing sent before acceptance, results deliverable), with a concrete run in \<open>Gateway_Demo\<close>.
  \<^item> \<open>Gateway_Properties\<close>: what a caller gets is what the target answered to this very request, for client and
    proxy together. \<open>Worker_Properties\<close>: the sequential code of a worker takes only steps of the relation, so
    that what is proved of the relation holds of the code.
  \<^item> \<open>Host_Limits\<close>: rate, concurrency and minimum interval per host over every sequence of acquisitions.
  \<^item> \<open>Repository_Properties\<close>, \<open>Edge_Properties\<close>, \<open>Policy_Properties\<close>: single operations, signatures, message
    formats, configuration, retry delays and the HTTP exchange.
  \<^item> \<open>Webhook_Commands\<close>, \<open>Webhook_Properties\<close>, \<open>App_Properties\<close>: routes, events, responses, the public endpoint.
  \<^item> \<open>Store_Properties\<close>: both client stores refine one specification (the locales of \<open>Client_Store\<close> are
    interpreted by both). \<open>Client_Properties\<close>, \<open>Client_Restart\<close>: durability, restarts and callbacks of the library.
  \<^item> \<open>Wiring_Properties\<close>: messages reach the handler made for them; how the process ends.

  \<^bold>\<open>Bounds.\<close> There is no fuel: every definition is total, recursions are structural or have a proved measure
  (\<open>backoff_loop\<close> runs down the attempt counter). Loops that run until they are stopped are functions of the
  list of what they meet, or step relations.

  \<^bold>\<open>Parameters.\<close> Not in the repository, hence arguments of the definitions: \<open>crypto_lib\<close> (Ed25519, with the
  hypothesis that a signature of the signer verifies, and that one that verifies was made by the key, where
  a property says so; \<open>authentic\<close> states it for the joint system), \<open>wire_lib\<close> (the text form of JSON;
  \<open>faithful_wire\<close> says that what was written is read back), \<open>hash_lib\<close> (SHA-256, HMAC), \<open>url_parser\<close>,
  \<open>duration_parser\<close>, the HTTP client of \<open>Do\<close>, what a SQL migration file does to a schema, clocks, random
  identifiers and faults.

  \<^bold>\<open>Not modelled.\<close> Prometheus metrics and logging; the options of the pgx pool and of the
  \<^verbatim>\<open>net/http\<close> transport (\<^verbatim>\<open>httpx.New\<close>); the matching of paths inside \<^verbatim>\<open>http.ServeMux\<close> beyond the four routes; the Go scheduler below the granularity of
  database and network points; isolation inside a transaction (each is one atomic step); text that
  PostgreSQL refuses (NUL, invalid UTF-8) in columns that the model keeps as bytes; more than one client
  process at a time on one client store.
\<close>

end
